(* ===== verification/Wire.thy ===== *)
theory Wire
  imports Prelude
begin

text \<open>
  The byte-level writer and reader of \<open>include/protocol.hpp\<close> (\<open>PacketWriter\<close>,
  \<open>PacketReader\<close>). A writer is the byte vector written so far, and each write appends to it.
  A reader is the part of the buffer that has not been read yet, so \<open>remaining()\<close> is its
  length and \<open>read\<close> splits it. Multi-byte fields go over the wire in network byte order.

  The locale \<open>field_codec\<close> is the contract between one field's writer and reader, on which
  every message format rests. It is interpreted on the 16-, 32- and 64-bit fields; raw byte
  runs and counted vectors satisfy it for each fixed length.
\<close>

section \<open>Network byte order\<close>

text \<open>\<open>htons\<close>, \<open>htonl\<close> and \<open>host_to_network64\<close> followed by copying the value's bytes: the
  most significant byte first. \<open>host_order\<close> is the reading direction.\<close>

fun network_order :: "nat \<Rightarrow> 'a::len word \<Rightarrow> bytes" where
  "network_order 0 w = []"
| "network_order (Suc k) w = network_order k (drop_bit 8 w) @ [ucast w]"

definition host_order :: "bytes \<Rightarrow> 'a::len word" where
  "host_order bs = foldl (\<lambda>acc b. push_bit 8 acc OR ucast b) 0 bs"

lemma length_network_order [simp]: "length (network_order k w) = k"
  by (induction k w rule: network_order.induct) auto

lemma host_order_snoc: "host_order (bs @ [b]) = push_bit 8 (host_order bs) OR ucast b"
  by (simp add: host_order_def)

lemma host_order_network_order: "host_order (network_order k w) = take_bit (8 * k) w"
proof (induction k w rule: network_order.induct)
  case (1 w)
  then show ?case by (simp add: host_order_def)
next
  case (2 k w)
  have "push_bit 8 (take_bit (8 * k) (drop_bit 8 w)) OR ucast (ucast w :: byte)
      = take_bit (8 * Suc k) w"
    by (rule bit_word_eqI) (auto simp: bit_simps)
  with 2 show ?case by (simp add: host_order_snoc)
qed

lemma bit_host_order_less: "bit (host_order bs :: 'a::len word) n \<Longrightarrow> n < 8 * length bs"
proof (induction bs arbitrary: n rule: rev_induct)
  case Nil
  then show ?case by (simp add: host_order_def)
next
  case (snoc b bs)
  show ?case
  proof (cases "n < 8")
    case False
    with snoc.prems have "bit (host_order bs :: 'a word) (n - 8)"
      by (auto simp: host_order_snoc bit_simps dest: bit_imp_le_length)
    then show ?thesis using snoc.IH False by fastforce
  qed simp
qed

lemma network_order_host_order:
  "length bs = k \<Longrightarrow> 8 * k \<le> LENGTH('a) \<Longrightarrow>
     network_order k (host_order bs :: 'a::len word) = bs"
proof (induction bs arbitrary: k rule: rev_induct)
  case Nil
  then show ?case by simp
next
  case (snoc b bs)
  let ?v = "host_order bs :: 'a word"
  from snoc.prems obtain j where k: "k = Suc j" "length bs = j" by (cases k) auto
  have lt: "bit ?v n \<Longrightarrow> n + 8 < LENGTH('a)" for n
    using bit_host_order_less [of bs n, where ?'a = 'a] snoc.prems k by simp
  have "drop_bit 8 (push_bit 8 ?v OR ucast b) = ?v"
    by (rule bit_word_eqI) (auto simp: bit_simps ac_simps dest: lt bit_imp_le_length)
  moreover have "(ucast (push_bit 8 ?v OR ucast b) :: byte) = b"
    using snoc.prems k by (intro bit_word_eqI) (auto simp: bit_simps)
  ultimately show ?case using snoc k by (simp add: host_order_snoc)
qed

section \<open>PacketWriter\<close>

definition put_u16 :: "u16 \<Rightarrow> bytes" where
  "put_u16 value = network_order 2 value"

definition put_u32 :: "u32 \<Rightarrow> bytes" where
  "put_u32 value = network_order 4 value"

definition put_u64 :: "u64 \<Rightarrow> bytes" where
  "put_u64 value = network_order 8 value"

lemma length_put [simp, wire_length]:
  "length (put_u16 a) = 2" "length (put_u32 b) = 4" "length (put_u64 c) = 8"
  by (simp_all add: put_u16_def put_u32_def put_u64_def)

section \<open>PacketReader\<close>

type_synonym packet_reader = bytes
type_synonym 'a reader = "packet_reader \<Rightarrow> ('a \<times> packet_reader) result"

definition remaining :: "packet_reader \<Rightarrow> nat" where
  "remaining r = length r"

definition read :: "nat \<Rightarrow> bytes reader" where
  "read n r =
     (if n > remaining r then throw ''truncated packet''
      else Inr (take n r, drop n r))"

definition get_bytes :: "nat \<Rightarrow> bytes reader" where
  "get_bytes n r = (if n = 0 then Inr ([], r) else read n r)"

text \<open>Sequencing of reads: the reader object is threaded through, an exception leaves.\<close>

definition bindR :: "'a reader \<Rightarrow> ('a \<Rightarrow> 'b reader) \<Rightarrow> 'b reader" where
  "bindR m f r = (case m r of Inl e \<Rightarrow> Inl e | Inr (x, r') \<Rightarrow> f x r')"

definition returnR :: "'a \<Rightarrow> 'a reader" where
  "returnR x r = Inr (x, r)"

text \<open>\<open>if(!cond) throw std::runtime_error(msg);\<close> and a use of \<open>reader.remaining()\<close>.\<close>

definition requireR :: "bool \<Rightarrow> string \<Rightarrow> unit reader" where
  "requireR cond msg r = (if cond then Inr ((), r) else throw msg)"

definition remainingR :: "nat reader" where
  "remainingR r = Inr (remaining r, r)"

text \<open>A reader local to a function: what it did not read is dropped on return.\<close>

definition run_reader :: "'a reader \<Rightarrow> bytes \<Rightarrow> 'a result" where
  "run_reader m data = (case m data of Inl e \<Rightarrow> Inl e | Inr (x, r) \<Rightarrow> Inr x)"

definition get_u16 :: "u16 reader" where
  "get_u16 = bindR (read 2) (\<lambda>b. returnR (host_order b))"

definition get_u32 :: "u32 reader" where
  "get_u32 = bindR (read 4) (\<lambda>b. returnR (host_order b))"

definition get_u64 :: "u64 reader" where
  "get_u64 = bindR (read 8) (\<lambda>b. returnR (host_order b))"

text \<open>Filling a vector of \<open>n\<close> elements, one read per element.\<close>

fun get_many :: "nat \<Rightarrow> 'a reader \<Rightarrow> 'a list reader" where
  "get_many 0 get r = Inr ([], r)"
| "get_many (Suc n) get r =
     bindR get (\<lambda>x. bindR (get_many n get) (\<lambda>xs. returnR (x # xs))) r"

section \<open>Evaluation of readers\<close>

lemma bindR_returnR [codec]: "bindR (returnR x) f r = f x r"
  by (simp add: bindR_def returnR_def)

lemma bindR_requireR [codec]:
  "bindR (requireR c msg) f r = (if c then f () r else throw msg)"
  by (simp add: bindR_def requireR_def)

lemma bindR_remainingR [codec]: "bindR remainingR f r = f (length r) r"
  by (simp add: bindR_def remainingR_def remaining_def)

lemma bindR_assoc [codec]: "bindR (bindR m f) g r = bindR m (\<lambda>x. bindR (f x) g) r"
  by (simp add: bindR_def split: sum.split prod.split)

lemma run_reader_Inr [codec]: "m data = Inr (x, r) \<Longrightarrow> run_reader m data = Inr x"
  by (simp add: run_reader_def)

lemma run_reader_Inr_iff: "run_reader m data = Inr x \<longleftrightarrow> (\<exists>r. m data = Inr (x, r))"
  by (auto simp: run_reader_def split: sum.splits)

lemma returnR_Inr_iff [simp]: "returnR x r = Inr (y, s) \<longleftrightarrow> y = x \<and> s = r"
  by (auto simp: returnR_def)

lemma returnR_eq [codec]: "returnR x r = Inr (x, r)"
  by (simp add: returnR_def)

lemma bindR_Inr_iff:
  "bindR m f r = Inr y \<longleftrightarrow> (\<exists>x r'. m r = Inr (x, r') \<and> f x r' = Inr y)"
  by (auto simp: bindR_def split: sum.splits)

lemma read_append [simp]: "length b = n \<Longrightarrow> read n (b @ r) = Inr (b, r)"
  by (auto simp: read_def remaining_def)

lemma read_Inr_iff: "read n r = Inr (b, s) \<longleftrightarrow> length b = n \<and> r = b @ s"
  by (auto simp: read_def remaining_def)

lemma get_bytes_eq_read: "get_bytes n = read n"
  by (auto simp: get_bytes_def read_def remaining_def fun_eq_iff)

section \<open>The contract of a field\<close>

locale field_codec =
  fixes put :: "'a \<Rightarrow> bytes" and get :: "'a reader" and valid :: "'a \<Rightarrow> bool"
  assumes get_put: "valid x \<Longrightarrow> get (put x @ r) = Inr (x, r)"
    and put_get: "get b = Inr (x, r) \<Longrightarrow> valid x \<and> b = put x @ r"
begin

lemma bindR_put: "valid x \<Longrightarrow> bindR get f (put x @ r) = f x r"
  by (simp add: bindR_def get_put)

lemma bindR_put_last: "valid x \<Longrightarrow> bindR get f (put x) = f x []"
  using bindR_put [of x f "[]"] by simp

lemma bindR_Inr:
  "bindR get f b = Inr y \<longleftrightarrow> (\<exists>x r. valid x \<and> b = put x @ r \<and> f x r = Inr y)"
proof
  assume "bindR get f b = Inr y"
  then obtain x r where "get b = Inr (x, r)" "f x r = Inr y"
    by (auto simp: bindR_Inr_iff)
  with put_get [of b x r] show "\<exists>x r. valid x \<and> b = put x @ r \<and> f x r = Inr y" by blast
next
  assume "\<exists>x r. valid x \<and> b = put x @ r \<and> f x r = Inr y"
  then show "bindR get f b = Inr y" by (auto simp: bindR_put)
qed

text \<open>No encoded field is a proper prefix of another, so a field ends where its own
  encoding ends.\<close>

lemma prefix_free: "valid x \<Longrightarrow> valid y \<Longrightarrow> put x @ r = put y @ s \<Longrightarrow> x = y \<and> r = s"
  by (metis get_put prod.inject sum.inject(2))

lemma get_many_put:
  "list_all valid xs \<Longrightarrow> length xs = n \<Longrightarrow> get_many n get (concat (map put xs) @ r) = Inr (xs, r)"
proof (induction xs arbitrary: n)
  case Nil
  then show ?case by simp
next
  case (Cons x xs)
  then obtain m where "n = Suc m" "length xs = m" by (cases n) auto
  with Cons show ?case by (simp add: bindR_put) (simp add: bindR_def returnR_def)
qed

lemma put_get_many:
  "get_many n get b = Inr (xs, r) \<Longrightarrow>
     list_all valid xs \<and> length xs = n \<and> b = concat (map put xs) @ r"
proof (induction n arbitrary: b xs)
  case 0
  then show ?case by simp
next
  case (Suc n)
  then obtain x ys s where "valid x" "b = put x @ s" "get_many n get s = Inr (ys, r)" "xs = x # ys"
    by (simp add: bindR_Inr) (auto simp: bindR_Inr_iff)
  with Suc.IH [of s ys] show ?case by simp
qed

lemma many_codec:
  "field_codec (\<lambda>xs. concat (map put xs)) (get_many n get) (\<lambda>xs. length xs = n \<and> list_all valid xs)"
  by unfold_locales (auto simp: get_many_put dest: put_get_many)

end

text \<open>Two fields written one after the other satisfy the contract again.\<close>

locale codec_pair =
  a: field_codec putA getA validA + b: field_codec putB getB validB
  for putA :: "'a \<Rightarrow> bytes" and getA and validA
    and putB :: "'b \<Rightarrow> bytes" and getB and validB
begin

lemma pair_codec:
  "field_codec (\<lambda>(x, y). putA x @ putB y)
     (bindR getA (\<lambda>x. bindR getB (\<lambda>y. returnR (x, y)))) (\<lambda>(x, y). validA x \<and> validB y)"
  by unfold_locales
    (auto simp: a.bindR_put b.bindR_put returnR_def a.bindR_Inr b.bindR_Inr)

end

text \<open>An enumeration sent as 16 bits: the decoder checks that the raw value lies between the
  first and the last enumerator before it casts.\<close>

locale wire_enum =
  fixes code :: "'e \<Rightarrow> u16" and cast :: "u16 \<Rightarrow> 'e" and lo hi :: u16
  assumes cast_code: "cast (code e) = e"
    and code_range: "lo \<le> code e \<and> code e \<le> hi"
    and code_cast: "lo \<le> raw \<Longrightarrow> raw \<le> hi \<Longrightarrow> code (cast raw) = raw"
begin

lemma code_inj: "code e = code e' \<longleftrightarrow> e = e'"
  by (metis cast_code)

lemma check_code: "code e < lo \<longleftrightarrow> False" "hi < code e \<longleftrightarrow> False"
  using code_range [of e] by (simp_all add: not_less)

lemma checked_cast: "\<not> (raw < lo \<or> hi < raw) \<Longrightarrow> code (cast raw) = raw"
  using code_cast [of raw] by (simp add: not_less)

lemma unchecked_code: "raw < lo \<or> hi < raw \<Longrightarrow> raw \<noteq> code e"
  using code_range [of e] by auto

end

interpretation u16: field_codec put_u16 get_u16 "\<lambda>_. True"
proof
  show "get_u16 (put_u16 x @ r) = Inr (x, r)" for x r
    by (simp add: get_u16_def put_u16_def bindR_def returnR_def host_order_network_order
        take_bit_word_eq_self)
  show "True \<and> b = put_u16 x @ r" if "get_u16 b = Inr (x, r)" for b x r
    using that by (auto simp: get_u16_def put_u16_def bindR_Inr_iff read_Inr_iff
        network_order_host_order)
qed

interpretation u32: field_codec put_u32 get_u32 "\<lambda>_. True"
proof
  show "get_u32 (put_u32 x @ r) = Inr (x, r)" for x r
    by (simp add: get_u32_def put_u32_def bindR_def returnR_def host_order_network_order
        take_bit_word_eq_self)
  show "True \<and> b = put_u32 x @ r" if "get_u32 b = Inr (x, r)" for b x r
    using that by (auto simp: get_u32_def put_u32_def bindR_Inr_iff read_Inr_iff
        network_order_host_order)
qed

interpretation u64: field_codec put_u64 get_u64 "\<lambda>_. True"
proof
  show "get_u64 (put_u64 x @ r) = Inr (x, r)" for x r
    by (simp add: get_u64_def put_u64_def bindR_def returnR_def host_order_network_order
        take_bit_word_eq_self)
  show "True \<and> b = put_u64 x @ r" if "get_u64 b = Inr (x, r)" for b x r
    using that by (auto simp: get_u64_def put_u64_def bindR_Inr_iff read_Inr_iff
        network_order_host_order)
qed

interpretation u64_u32: codec_pair put_u64 get_u64 "\<lambda>_. True" put_u32 get_u32 "\<lambda>_. True"
  by unfold_locales

lemma raw_codec: "field_codec (\<lambda>b. b) (get_bytes n) (\<lambda>b. length b = n)"
  by unfold_locales (auto simp: get_bytes_eq_read read_Inr_iff)

lemmas field_steps [codec] =
  u16.bindR_put [OF TrueI] u16.bindR_put_last [OF TrueI]
  u32.bindR_put [OF TrueI] u32.bindR_put_last [OF TrueI]
  u64.bindR_put [OF TrueI] u64.bindR_put_last [OF TrueI]

lemma bindR_get_bytes [codec]:
  "length b = n \<Longrightarrow> bindR (get_bytes n) f (b @ r) = f b r"
  "length b = n \<Longrightarrow> bindR (get_bytes n) f b = f b []"
  using field_codec.bindR_put [OF raw_codec, of b n f r]
    field_codec.bindR_put_last [OF raw_codec, of b n f] by simp_all

lemma bindR_get_bytes_Inr:
  "bindR (get_bytes n) f b = Inr y \<longleftrightarrow> (\<exists>x r. length x = n \<and> b = x @ r \<and> f x r = Inr y)"
  using field_codec.bindR_Inr [OF raw_codec, of n f b y] by simp

lemma bindR_requireR_Inr:
  "bindR (requireR c msg) f r = Inr y \<longleftrightarrow> c \<and> f () r = Inr y"
  by (simp add: bindR_requireR)

lemma get_bytes_all: "bindR (get_bytes (length b)) f b = f b []"
  by (simp add: bindR_get_bytes)

text \<open>The inversion rules: what a successful read says about the buffer.\<close>

lemmas field_inversion =
  u16.bindR_Inr u32.bindR_Inr u64.bindR_Inr bindR_get_bytes_Inr bindR_requireR_Inr
  bindR_remainingR bindR_assoc

text \<open>The same for a format whose last field is all the rest of the buffer.\<close>

lemmas tail_inversion =
  u16.bindR_Inr u32.bindR_Inr u64.bindR_Inr bindR_requireR_Inr bindR_remainingR bindR_assoc
  get_bytes_all

end
