(* ===== verification/Packets.thy ===== *)
theory Packets
  imports Wire
begin

text \<open>
  The constants and the UDP packets of \<open>include/protocol.hpp\<close>: common header, META, DATA and
  END, each with its encoder and its decoder. Decoders return the exception of the first check
  that fails, in the order of the code.

  Each packet has a round trip (what is encoded decodes to itself) and an inversion lemma (what
  decodes successfully has the layout of the encoder), the second up to the two reserved bytes
  of DATA, which the decoder reads and ignores.
\<close>

section \<open>Constants\<close>

definition kMagic :: u32 where "kMagic = 0x53524331"
definition kControlMagic :: u32 where "kControlMagic = 0x53524343"
definition kVersion :: u16 where "kVersion = 10"
definition kPayloadSize :: nat where "kPayloadSize = 1200"
definition kSha256Size :: nat where "kSha256Size = 32"
definition kMaxFileNameSize :: nat where "kMaxFileNameSize = 255"
definition kSingleSectionId :: u32 where "kSingleSectionId = 0"
definition kDefaultSectionBlockCount :: u32 where "kDefaultSectionBlockCount = 64"

definition kCommonHeaderSize :: nat where "kCommonHeaderSize = 16"
definition kMetaPacketSize :: nat where
  "kMetaPacketSize = kCommonHeaderSize + 8 + 4 + 4 + 4 + kSha256Size"
definition kDataHeaderSize :: nat where
  "kDataHeaderSize = kCommonHeaderSize + 4 + 4 + 8 + 2 + 2 + 4"
definition kEndPacketSize :: nat where "kEndPacketSize = kCommonHeaderSize + 4 + 4 + 4"
definition kMaxPacketSize :: nat where "kMaxPacketSize = kDataHeaderSize + kPayloadSize"
definition kMaxControlFrameSize :: nat where "kMaxControlFrameSize = 1024 * 1024"
definition kMaxPeerRepairBlocks :: nat where "kMaxPeerRepairBlocks = 64"

lemmas protocol_constants =
  kMagic_def kControlMagic_def kVersion_def kPayloadSize_def kSha256Size_def
  kMaxFileNameSize_def kSingleSectionId_def kDefaultSectionBlockCount_def
  kCommonHeaderSize_def kMetaPacketSize_def kDataHeaderSize_def kEndPacketSize_def
  kMaxPacketSize_def kMaxControlFrameSize_def kMaxPeerRepairBlocks_def

section \<open>File name field\<close>

definition validate_file_name_field :: "string \<Rightarrow> unit result" where
  "validate_file_name_field file_name =
     (if file_name = [] \<or> length file_name > kMaxFileNameSize then throw ''invalid file name''
      else Inr ())"

definition write_file_name :: "string \<Rightarrow> bytes result" where
  "write_file_name file_name =
     bindE (validate_file_name_field file_name) (\<lambda>_.
       Inr (put_u16 (of_nat (length file_name)) @ bytes_of_string file_name))"

definition read_file_name :: "string reader" where
  "read_file_name =
     bindR get_u16 (\<lambda>file_name_size.
     bindR remainingR (\<lambda>rem.
     bindR (requireR (\<not> (file_name_size = 0 \<or> unat file_name_size > kMaxFileNameSize
              \<or> rem < unat file_name_size)) ''invalid file name'') (\<lambda>_.
     bindR (get_bytes (unat file_name_size)) (\<lambda>file_name.
     returnR (string_of_bytes file_name)))))"

definition file_name_ok :: "string \<Rightarrow> bool" where
  "file_name_ok name \<longleftrightarrow> name \<noteq> [] \<and> length name \<le> kMaxFileNameSize"

definition file_name_bytes :: "string \<Rightarrow> bytes" where
  "file_name_bytes name = put_u16 (of_nat (length name)) @ bytes_of_string name"

lemma write_file_name_eq:
  "write_file_name name =
     (if file_name_ok name then Inr (file_name_bytes name) else throw ''invalid file name'')"
  by (auto simp: write_file_name_def validate_file_name_field_def file_name_ok_def
      file_name_bytes_def)

lemma validate_file_name_field_eq:
  "validate_file_name_field name =
     (if file_name_ok name then Inr () else throw ''invalid file name'')"
  by (auto simp: validate_file_name_field_def file_name_ok_def)

lemma file_name_ok_length: "file_name_ok name \<Longrightarrow> unat (of_nat (length name) :: u16) = length name"
  by (simp add: file_name_ok_def kMaxFileNameSize_def unat_of_nat_u16)

lemma length_file_name_bytes [simp, wire_length]:
  "length (file_name_bytes name) = 2 + length name"
  by (simp add: file_name_bytes_def)

interpretation file_name: field_codec file_name_bytes read_file_name file_name_ok
proof
  fix name r assume ok: "file_name_ok name"
  have "(of_nat (length name) :: u16) \<noteq> 0"
    using file_name_ok_length [OF ok] ok by (auto simp: file_name_ok_def)
  with ok show "read_file_name (file_name_bytes name @ r) = Inr (name, r)"
    by (simp add: read_file_name_def file_name_bytes_def codec file_name_ok_length)
       (simp add: file_name_ok_def)
next
  fix b name r assume "read_file_name b = Inr (name, r)"
  then obtain sz :: u16 and bs where
    sz: "sz \<noteq> 0" "unat sz \<le> kMaxFileNameSize" "length bs = unat sz"
    and b: "b = put_u16 sz @ bs @ r" "name = string_of_bytes bs"
    by (auto simp: read_file_name_def field_inversion)
  from sz have "file_name_ok name" by (auto simp: file_name_ok_def b string_of_bytes_def unat_eq_zero)
  moreover have "(of_nat (unat sz) :: u16) = sz" by simp
  ultimately show "file_name_ok name \<and> b = file_name_bytes name @ r"
    using sz by (simp add: file_name_bytes_def b)
qed

lemmas file_name_steps [codec] = file_name.bindR_put file_name.bindR_put_last

section \<open>Common header\<close>

datatype PacketType = PT_Meta | PT_Data | PT_End

fun packet_type_code :: "PacketType \<Rightarrow> u16" where
  "packet_type_code PT_Meta = 1"
| "packet_type_code PT_Data = 2"
| "packet_type_code PT_End = 3"

text \<open>\<open>static_cast<PacketType>(raw)\<close>, used only after the range check.\<close>

definition to_packet_type :: "u16 \<Rightarrow> PacketType" where
  "to_packet_type raw = (if raw = 1 then PT_Meta else if raw = 2 then PT_Data else PT_End)"

record CommonHeader =
  hdr_type :: PacketType
  hdr_transfer_id :: u64

definition write_common :: "PacketType \<Rightarrow> u64 \<Rightarrow> bytes" where
  "write_common ty transfer_id =
     put_u32 kMagic @ put_u16 kVersion @ put_u16 (packet_type_code ty) @ put_u64 transfer_id"

definition read_common :: "CommonHeader reader" where
  "read_common =
     bindR get_u32 (\<lambda>magic.
     bindR get_u16 (\<lambda>version.
     bindR get_u16 (\<lambda>raw_type.
     bindR get_u64 (\<lambda>transfer_id.
     bindR (requireR (magic = kMagic) ''invalid packet magic'') (\<lambda>_.
     bindR (requireR (version = kVersion) ''unsupported protocol version'') (\<lambda>_.
     bindR (requireR (\<not> (raw_type < packet_type_code PT_Meta \<or> raw_type > packet_type_code PT_End))
              ''invalid packet type'') (\<lambda>_.
     returnR \<lparr>hdr_type = to_packet_type raw_type, hdr_transfer_id = transfer_id\<rparr>)))))))"

lemma length_write_common [simp, wire_length]:
  "length (write_common ty transfer_id) = kCommonHeaderSize"
  by (simp add: write_common_def kCommonHeaderSize_def)

declare packet_type_code.simps [simp del]

interpretation packet_type: wire_enum packet_type_code to_packet_type
  "packet_type_code PT_Meta" "packet_type_code PT_End"
proof
  show "to_packet_type (packet_type_code e) = e" for e
    by (cases e) (simp_all add: to_packet_type_def packet_type_code.simps)
  show "packet_type_code PT_Meta \<le> packet_type_code e \<and> packet_type_code e \<le> packet_type_code PT_End" for e
    by (cases e) (simp_all add: packet_type_code.simps)
  show "packet_type_code (to_packet_type raw) = raw"
    if "packet_type_code PT_Meta \<le> raw" "raw \<le> packet_type_code PT_End" for raw
  proof -
    from that have "raw = 1 \<or> raw = 2 \<or> raw = 3"
      unfolding packet_type_code.simps by uint_arith
    then show ?thesis by (auto simp: to_packet_type_def packet_type_code.simps)
  qed
qed

interpretation common: field_codec
  "\<lambda>h. write_common (hdr_type h) (hdr_transfer_id h)" read_common "\<lambda>_. True"
proof
  fix h r
  show "read_common (write_common (hdr_type h) (hdr_transfer_id h) @ r) = Inr (h, r)"
    by (simp add: read_common_def write_common_def codec packet_type.check_code
        packet_type.cast_code)
next
  fix b h r assume "read_common b = Inr (h, r)"
  then show "True \<and> b = write_common (hdr_type h) (hdr_transfer_id h) @ r"
    by (auto simp: read_common_def write_common_def field_inversion packet_type.checked_cast)
qed

lemma bindR_read_common [codec]:
  "bindR read_common f (write_common ty tid @ r) = f \<lparr>hdr_type = ty, hdr_transfer_id = tid\<rparr> r"
  using common.bindR_put [OF TrueI, of f "\<lparr>hdr_type = ty, hdr_transfer_id = tid\<rparr>" r] by simp

section \<open>META\<close>

record MetaPacket =
  meta_common :: CommonHeader
  meta_file_size :: u64
  meta_block_size :: u32
  meta_total_blocks :: u32
  meta_section_block_count :: u32
  meta_file_name :: string
  meta_sha256 :: bytes

definition encode_meta :: "MetaPacket \<Rightarrow> bytes" where
  "encode_meta packet =
     write_common PT_Meta (hdr_transfer_id (meta_common packet))
     @ put_u64 (meta_file_size packet)
     @ put_u32 (meta_block_size packet)
     @ put_u32 (meta_total_blocks packet)
     @ put_u32 (meta_section_block_count packet)
     @ meta_sha256 packet"

text \<open>The file name has no field in the packet: the decoded one is the default, empty.\<close>

definition decode_meta :: "bytes \<Rightarrow> MetaPacket result" where
  "decode_meta data =
     (if length data \<noteq> kMetaPacketSize then throw ''invalid META packet size''
      else run_reader (
        bindR read_common (\<lambda>common.
        bindR (requireR (hdr_type common = PT_Meta) ''packet is not META'') (\<lambda>_.
        bindR get_u64 (\<lambda>file_size.
        bindR get_u32 (\<lambda>block_size.
        bindR get_u32 (\<lambda>total_blocks.
        bindR get_u32 (\<lambda>section_block_count.
        bindR (get_bytes kSha256Size) (\<lambda>sha256.
        returnR \<lparr>meta_common = common, meta_file_size = file_size, meta_block_size = block_size,
          meta_total_blocks = total_blocks, meta_section_block_count = section_block_count,
          meta_file_name = [], meta_sha256 = sha256\<rparr>)))))))) data)"

lemma decode_encode_meta:
  assumes "hdr_type (meta_common m) = PT_Meta" and "length (meta_sha256 m) = kSha256Size"
  shows "decode_meta (encode_meta m) = Inr (m\<lparr>meta_file_name := []\<rparr>)"
  using assms by (cases m; cases "meta_common m")
    (simp add: decode_meta_def encode_meta_def codec kMetaPacketSize_def)

section \<open>DATA\<close>

text \<open>The payload of a decoded packet is a pointer behind the header of the caller's buffer,
  here the bytes from there on.\<close>

record DataPacketView =
  dp_common :: CommonHeader
  dp_section_id :: u32
  dp_block_id :: u32
  dp_offset :: u64
  dp_payload_size :: u16
  dp_crc32 :: u32
  dp_payload :: bytes

definition encode_data :: "u64 \<Rightarrow> u32 \<Rightarrow> u32 \<Rightarrow> u64 \<Rightarrow> bytes \<Rightarrow> u16 \<Rightarrow> u32 \<Rightarrow> bytes result" where
  "encode_data transfer_id section_id block_id offset payload payload_size crc =
     (if unat payload_size > kPayloadSize then throw ''DATA payload is too large''
      else Inr (write_common PT_Data transfer_id
        @ put_u32 section_id
        @ put_u32 block_id
        @ put_u64 offset
        @ put_u16 payload_size
        @ put_u16 0
        @ put_u32 crc
        @ take (unat payload_size) payload))"

definition decode_data :: "bytes \<Rightarrow> DataPacketView result" where
  "decode_data data =
     (if length data < kDataHeaderSize then throw ''DATA packet is too short''
      else run_reader (
        bindR read_common (\<lambda>common.
        bindR (requireR (hdr_type common = PT_Data) ''packet is not DATA'') (\<lambda>_.
        bindR get_u32 (\<lambda>section_id.
        bindR get_u32 (\<lambda>block_id.
        bindR get_u64 (\<lambda>offset.
        bindR get_u16 (\<lambda>payload_size.
        bindR get_u16 (\<lambda>_.
        bindR get_u32 (\<lambda>crc32.
        bindR remainingR (\<lambda>rem.
        bindR (requireR (\<not> (unat payload_size > kPayloadSize \<or> unat payload_size \<noteq> rem))
                 ''invalid DATA payload size'') (\<lambda>_.
        returnR \<lparr>dp_common = common, dp_section_id = section_id, dp_block_id = block_id,
          dp_offset = offset, dp_payload_size = payload_size, dp_crc32 = crc32,
          dp_payload = drop kDataHeaderSize data\<rparr>))))))))))) data)"

lemma decode_encode_data:
  assumes "encode_data tid sid bid off payload sz crc = Inr pkt" and "length payload = unat sz"
  shows "decode_data pkt =
    Inr \<lparr>dp_common = \<lparr>hdr_type = PT_Data, hdr_transfer_id = tid\<rparr>, dp_section_id = sid,
      dp_block_id = bid, dp_offset = off, dp_payload_size = sz, dp_crc32 = crc,
      dp_payload = payload\<rparr>"
proof -
  from assms have le: "unat sz \<le> kPayloadSize" and pkt: "pkt = write_common PT_Data tid
      @ put_u32 sid @ put_u32 bid @ put_u64 off @ put_u16 sz @ put_u16 0 @ put_u32 crc @ payload"
    by (auto simp: encode_data_def split: if_splits)
  have "drop kDataHeaderSize pkt = payload"
    by (simp add: pkt kDataHeaderSize_def kCommonHeaderSize_def)
  with le assms(2) show ?thesis
    by (simp add: decode_data_def) (simp add: pkt codec kDataHeaderSize_def kCommonHeaderSize_def)
qed

text \<open>A packet that decodes has the encoder's layout, but for the reserved field.\<close>

lemma decode_data_layout:
  assumes "decode_data data = Inr p"
  shows "\<exists>reserved. data = write_common PT_Data (hdr_transfer_id (dp_common p))
      @ put_u32 (dp_section_id p) @ put_u32 (dp_block_id p) @ put_u64 (dp_offset p)
      @ put_u16 (dp_payload_size p) @ put_u16 reserved @ put_u32 (dp_crc32 p) @ dp_payload p"
    and "length (dp_payload p) = unat (dp_payload_size p)"
    and "unat (dp_payload_size p) \<le> kPayloadSize"
    and "hdr_type (dp_common p) = PT_Data"
proof -
  from assms obtain common sid bid off sz reserved crc r where
    data: "data = write_common (hdr_type common) (hdr_transfer_id common) @ put_u32 sid @ put_u32 bid
      @ put_u64 off @ put_u16 sz @ put_u16 reserved @ put_u32 crc @ r"
    and ty: "hdr_type common = PT_Data" and sz: "unat sz \<le> kPayloadSize" "unat sz = length r"
    and p: "p = \<lparr>dp_common = common, dp_section_id = sid, dp_block_id = bid, dp_offset = off,
      dp_payload_size = sz, dp_crc32 = crc, dp_payload = drop kDataHeaderSize data\<rparr>"
    by (auto simp: decode_data_def run_reader_Inr_iff field_inversion common.bindR_Inr
        split: if_splits)
  have "drop kDataHeaderSize data = r"
    by (simp add: data kDataHeaderSize_def kCommonHeaderSize_def)
  with data ty sz p
  show "\<exists>reserved. data = write_common PT_Data (hdr_transfer_id (dp_common p))
      @ put_u32 (dp_section_id p) @ put_u32 (dp_block_id p) @ put_u64 (dp_offset p)
      @ put_u16 (dp_payload_size p) @ put_u16 reserved @ put_u32 (dp_crc32 p) @ dp_payload p"
    and "length (dp_payload p) = unat (dp_payload_size p)"
    and "unat (dp_payload_size p) \<le> kPayloadSize"
    and "hdr_type (dp_common p) = PT_Data"
    by auto
qed

section \<open>END\<close>

record EndPacket =
  end_common :: CommonHeader
  end_section_id :: u32
  end_round_id :: u32
  end_total_blocks :: u32

definition encode_end :: "u64 \<Rightarrow> u32 \<Rightarrow> u32 \<Rightarrow> u32 \<Rightarrow> bytes" where
  "encode_end transfer_id section_id round_id total_blocks =
     write_common PT_End transfer_id
     @ put_u32 section_id
     @ put_u32 round_id
     @ put_u32 total_blocks"

definition decode_end :: "bytes \<Rightarrow> EndPacket result" where
  "decode_end data =
     (if length data \<noteq> kEndPacketSize then throw ''invalid END packet size''
      else run_reader (
        bindR read_common (\<lambda>common.
        bindR (requireR (hdr_type common = PT_End) ''packet is not END'') (\<lambda>_.
        bindR get_u32 (\<lambda>section_id.
        bindR get_u32 (\<lambda>round_id.
        bindR get_u32 (\<lambda>total_blocks.
        returnR \<lparr>end_common = common, end_section_id = section_id, end_round_id = round_id,
          end_total_blocks = total_blocks\<rparr>)))))) data)"

lemma decode_encode_end:
  "decode_end (encode_end tid sid rnd tot) =
     Inr \<lparr>end_common = \<lparr>hdr_type = PT_End, hdr_transfer_id = tid\<rparr>, end_section_id = sid,
       end_round_id = rnd, end_total_blocks = tot\<rparr>"
  by (simp add: decode_end_def encode_end_def codec kEndPacketSize_def)

lemma decode_end_layout:
  assumes "decode_end data = Inr p"
  shows "data = encode_end (hdr_transfer_id (end_common p)) (end_section_id p) (end_round_id p)
           (end_total_blocks p) \<and> hdr_type (end_common p) = PT_End"
  using assms
  by (auto simp: decode_end_def encode_end_def run_reader_Inr_iff field_inversion
      common.bindR_Inr kEndPacketSize_def kCommonHeaderSize_def split: if_splits)

end
