(* ===== verification/Control.thy ===== *)
theory Control
  imports Packets
begin

text \<open>
  The TCP control frames between the proxy and the receivers, as \<open>include/protocol.hpp\<close>
  encodes and decodes them: a header with magic, version and message type, then the fields of
  the message.

  The locale \<open>message_codec\<close> states what a handler may rely on: a well-formed message encodes,
  its frame decodes to the same message, whatever decodes is well-formed, and a decoder accepts
  only frames that carry its own type. Formats without reserved bytes satisfy
  \<open>canonical_codec\<close> as well: an accepted frame is exactly the encoding of its message. Each
  message has its interpretation right after its two functions.
\<close>

section \<open>Enumerations\<close>

datatype ControlType =
    CT_Register | CT_SectionStatus | CT_RepairBegin | CT_ReceiverComplete
  | CT_CompleteAck | CT_TransferResult | CT_SectionEnd | CT_ReceiverReady
  | CT_SessionEnd | CT_FileMeta | CT_MetaReady | CT_CentralFileMeta
  | CT_CentralData | CT_CentralFileEnd | CT_CentralStatus | CT_CentralSessionEnd
  | CT_CentralResume | CT_BackfillBegin | CT_BackfillData | CT_BackfillEnd
  | CT_PeerRepairTask

primrec control_type_code :: "ControlType \<Rightarrow> u16" where
  "control_type_code CT_Register = 1"
| "control_type_code CT_SectionStatus = 2"
| "control_type_code CT_RepairBegin = 3"
| "control_type_code CT_ReceiverComplete = 4"
| "control_type_code CT_CompleteAck = 5"
| "control_type_code CT_TransferResult = 6"
| "control_type_code CT_SectionEnd = 7"
| "control_type_code CT_ReceiverReady = 8"
| "control_type_code CT_SessionEnd = 9"
| "control_type_code CT_FileMeta = 10"
| "control_type_code CT_MetaReady = 11"
| "control_type_code CT_CentralFileMeta = 12"
| "control_type_code CT_CentralData = 13"
| "control_type_code CT_CentralFileEnd = 14"
| "control_type_code CT_CentralStatus = 15"
| "control_type_code CT_CentralSessionEnd = 16"
| "control_type_code CT_CentralResume = 17"
| "control_type_code CT_BackfillBegin = 18"
| "control_type_code CT_BackfillData = 19"
| "control_type_code CT_BackfillEnd = 20"
| "control_type_code CT_PeerRepairTask = 21"

definition control_types :: "ControlType list" where
  "control_types =
    [CT_Register, CT_SectionStatus, CT_RepairBegin, CT_ReceiverComplete,
     CT_CompleteAck, CT_TransferResult, CT_SectionEnd, CT_ReceiverReady,
     CT_SessionEnd, CT_FileMeta, CT_MetaReady, CT_CentralFileMeta,
     CT_CentralData, CT_CentralFileEnd, CT_CentralStatus, CT_CentralSessionEnd,
     CT_CentralResume, CT_BackfillBegin, CT_BackfillData, CT_BackfillEnd,
     CT_PeerRepairTask]"

text \<open>\<open>static_cast<ControlType>(raw)\<close>, used only after the range check.\<close>

definition to_control_type :: "u16 \<Rightarrow> ControlType" where
  "to_control_type raw = control_types ! (unat raw - 1)"

datatype SectionStatusCode = SS_Missing | SS_Complete | SS_Failed

primrec section_status_code :: "SectionStatusCode \<Rightarrow> u16" where
  "section_status_code SS_Missing = 1"
| "section_status_code SS_Complete = 2"
| "section_status_code SS_Failed = 3"

definition to_section_status :: "u16 \<Rightarrow> SectionStatusCode" where
  "to_section_status raw = (if raw = 1 then SS_Missing else if raw = 2 then SS_Complete else SS_Failed)"

datatype ReceiverState = RS_Idle | RS_Receiving | RS_Completed

primrec receiver_state_code :: "ReceiverState \<Rightarrow> u16" where
  "receiver_state_code RS_Idle = 1"
| "receiver_state_code RS_Receiving = 2"
| "receiver_state_code RS_Completed = 3"

definition to_receiver_state :: "u16 \<Rightarrow> ReceiverState" where
  "to_receiver_state raw = (if raw = 1 then RS_Idle else if raw = 2 then RS_Receiving else RS_Completed)"

datatype TransferResultCode = TR_Completed | TR_Failed

primrec transfer_result_code :: "TransferResultCode \<Rightarrow> u16" where
  "transfer_result_code TR_Completed = 1"
| "transfer_result_code TR_Failed = 2"

definition to_transfer_result :: "u16 \<Rightarrow> TransferResultCode" where
  "to_transfer_result raw = (if raw = 1 then TR_Completed else TR_Failed)"

datatype CentralStatusCode = CS_Cached | CS_Failed

primrec central_status_code :: "CentralStatusCode \<Rightarrow> u16" where
  "central_status_code CS_Cached = 1"
| "central_status_code CS_Failed = 2"

definition to_central_status :: "u16 \<Rightarrow> CentralStatusCode" where
  "to_central_status raw = (if raw = 1 then CS_Cached else CS_Failed)"

declare control_type_code.simps [simp del]
declare section_status_code.simps [simp del]
declare receiver_state_code.simps [simp del]
declare transfer_result_code.simps [simp del]
declare central_status_code.simps [simp del]

lemma u16_cases3: "1 \<le> raw \<Longrightarrow> raw \<le> 3 \<Longrightarrow> raw = 1 \<or> raw = 2 \<or> raw = (3 :: u16)"
  by uint_arith

lemma u16_cases2: "1 \<le> raw \<Longrightarrow> raw \<le> 2 \<Longrightarrow> raw = 1 \<or> raw = (2 :: u16)"
  by uint_arith

lemma control_type_at:
  assumes "n < length control_types"
  shows "control_type_code (control_types ! n) = of_nat (Suc n)"
proof -
  have "list_all (\<lambda>n. control_type_code (control_types ! n) = of_nat (Suc n)) [0..<21]"
    by code_simp
  with assms show ?thesis by (simp add: list_all_iff control_types_def)
qed

interpretation control_type: wire_enum control_type_code to_control_type
  "control_type_code CT_Register" "control_type_code CT_PeerRepairTask"
proof
  show "to_control_type (control_type_code e) = e" for e
    by (cases e) (simp_all add: to_control_type_def control_types_def control_type_code.simps)
  show "control_type_code CT_Register \<le> control_type_code e
      \<and> control_type_code e \<le> control_type_code CT_PeerRepairTask" for e
    by (cases e) (simp_all add: control_type_code.simps)
  show "control_type_code (to_control_type raw) = raw"
    if "control_type_code CT_Register \<le> raw" "raw \<le> control_type_code CT_PeerRepairTask" for raw
  proof -
    from that have "1 \<le> unat raw" "unat raw \<le> 21"
      unfolding control_type_code.simps by (simp_all add: word_le_nat_alt)
    then have "unat raw - 1 < length control_types" "Suc (unat raw - 1) = unat raw"
      by (simp_all add: control_types_def)
    then show ?thesis using control_type_at [of "unat raw - 1"]
      by (simp add: to_control_type_def)
  qed
qed

interpretation section_status: wire_enum section_status_code to_section_status
  "section_status_code SS_Missing" "section_status_code SS_Failed"
proof
  show "to_section_status (section_status_code e) = e" for e
    by (cases e) (simp_all add: to_section_status_def section_status_code.simps)
  show "section_status_code SS_Missing \<le> section_status_code e \<and> section_status_code e \<le> section_status_code SS_Failed" for e
    by (cases e) (simp_all add: section_status_code.simps)
  show "section_status_code (to_section_status raw) = raw"
    if "section_status_code SS_Missing \<le> raw" "raw \<le> section_status_code SS_Failed" for raw
    using that u16_cases3 [of raw]
    by (auto simp: to_section_status_def section_status_code.simps)
qed

interpretation receiver_state: wire_enum receiver_state_code to_receiver_state
  "receiver_state_code RS_Idle" "receiver_state_code RS_Completed"
proof
  show "to_receiver_state (receiver_state_code e) = e" for e
    by (cases e) (simp_all add: to_receiver_state_def receiver_state_code.simps)
  show "receiver_state_code RS_Idle \<le> receiver_state_code e \<and> receiver_state_code e \<le> receiver_state_code RS_Completed" for e
    by (cases e) (simp_all add: receiver_state_code.simps)
  show "receiver_state_code (to_receiver_state raw) = raw"
    if "receiver_state_code RS_Idle \<le> raw" "raw \<le> receiver_state_code RS_Completed" for raw
    using that u16_cases3 [of raw]
    by (auto simp: to_receiver_state_def receiver_state_code.simps)
qed

interpretation transfer_result: wire_enum transfer_result_code to_transfer_result
  "transfer_result_code TR_Completed" "transfer_result_code TR_Failed"
proof
  show "to_transfer_result (transfer_result_code e) = e" for e
    by (cases e) (simp_all add: to_transfer_result_def transfer_result_code.simps)
  show "transfer_result_code TR_Completed \<le> transfer_result_code e \<and> transfer_result_code e \<le> transfer_result_code TR_Failed" for e
    by (cases e) (simp_all add: transfer_result_code.simps)
  show "transfer_result_code (to_transfer_result raw) = raw"
    if "transfer_result_code TR_Completed \<le> raw" "raw \<le> transfer_result_code TR_Failed" for raw
    using that u16_cases2 [of raw]
    by (auto simp: to_transfer_result_def transfer_result_code.simps)
qed

interpretation central_status: wire_enum central_status_code to_central_status
  "central_status_code CS_Cached" "central_status_code CS_Failed"
proof
  show "to_central_status (central_status_code e) = e" for e
    by (cases e) (simp_all add: to_central_status_def central_status_code.simps)
  show "central_status_code CS_Cached \<le> central_status_code e \<and> central_status_code e \<le> central_status_code CS_Failed" for e
    by (cases e) (simp_all add: central_status_code.simps)
  show "central_status_code (to_central_status raw) = raw"
    if "central_status_code CS_Cached \<le> raw" "raw \<le> central_status_code CS_Failed" for raw
    using that u16_cases2 [of raw]
    by (auto simp: to_central_status_def central_status_code.simps)
qed

section \<open>Control header\<close>

definition write_control_header :: "ControlType \<Rightarrow> bytes" where
  "write_control_header ty = put_u32 kControlMagic @ put_u16 kVersion @ put_u16 (control_type_code ty)"

definition read_control_header :: "ControlType reader" where
  "read_control_header =
     bindR get_u32 (\<lambda>magic.
     bindR get_u16 (\<lambda>version.
     bindR get_u16 (\<lambda>raw_type.
     bindR (requireR (magic = kControlMagic) ''invalid control magic'') (\<lambda>_.
     bindR (requireR (version = kVersion) ''unsupported control protocol version'') (\<lambda>_.
     bindR (requireR (\<not> (raw_type < control_type_code CT_Register
                \<or> raw_type > control_type_code CT_PeerRepairTask))
              ''invalid control message type'') (\<lambda>_.
     returnR (to_control_type raw_type)))))))"

definition peek_control_type :: "bytes \<Rightarrow> ControlType result" where
  "peek_control_type frame = run_reader read_control_header frame"

lemma length_control_header [simp, wire_length]: "length (write_control_header ty) = 8"
  by (simp add: write_control_header_def)

interpretation control_header: field_codec write_control_header read_control_header "\<lambda>_. True"
proof
  show "read_control_header (write_control_header ty @ r) = Inr (ty, r)" for ty r
    by (simp add: read_control_header_def write_control_header_def codec
        control_type.check_code control_type.cast_code)
  show "True \<and> b = write_control_header ty @ r" if "read_control_header b = Inr (ty, r)" for b ty r
    using that by (auto simp: read_control_header_def write_control_header_def field_inversion
        control_type.checked_cast)
qed

lemmas control_header_steps [codec] =
  control_header.bindR_put [OF TrueI] control_header.bindR_put_last [OF TrueI]

lemmas control_inversion = field_inversion file_name.bindR_Inr control_header.bindR_Inr

lemmas control_tail_inversion = tail_inversion control_header.bindR_Inr

lemma peek_header: "peek_control_type (write_control_header ty @ r) = Inr ty"
  by (simp add: peek_control_type_def run_reader_def control_header.get_put)

lemma peek_layout: "peek_control_type f = Inr ty \<longleftrightarrow> (\<exists>r. f = write_control_header ty @ r)"
proof
  assume "peek_control_type f = Inr ty"
  then obtain r where "read_control_header f = Inr (ty, r)"
    by (auto simp: peek_control_type_def run_reader_Inr_iff)
  then show "\<exists>r. f = write_control_header ty @ r" using control_header.put_get by blast
qed (auto simp: peek_header)

lemma header_peek:
  "run_reader (bindR read_control_header (\<lambda>ty. bindR (requireR (ty = t) msg) g)) f = Inr m
     \<Longrightarrow> peek_control_type f = Inr t"
  by (auto simp: run_reader_Inr_iff control_inversion peek_header)

section \<open>The contract of a message\<close>

locale message_codec =
  fixes tag :: ControlType and enc :: "'m \<Rightarrow> bytes result" and dec :: "bytes \<Rightarrow> 'm result"
    and valid :: "'m \<Rightarrow> bool"
  assumes enc_total: "valid m \<Longrightarrow> \<exists>f. enc m = Inr f"
    and dec_enc: "valid m \<Longrightarrow> enc m = Inr f \<Longrightarrow> dec f = Inr m"
    and dec_valid: "dec f = Inr m \<Longrightarrow> valid m"
    and dec_tag: "dec f = Inr m \<Longrightarrow> peek_control_type f = Inr tag"
begin

lemma peek_enc: "valid m \<Longrightarrow> enc m = Inr f \<Longrightarrow> peek_control_type f = Inr tag"
  by (rule dec_tag [OF dec_enc])

lemma enc_inj: "valid m \<Longrightarrow> valid m' \<Longrightarrow> enc m = Inr f \<Longrightarrow> enc m' = Inr f \<Longrightarrow> m = m'"
  by (metis dec_enc sum.inject(2))

text \<open>A message that was read from a frame can be sent on and is read as the same again.\<close>

lemma forward: "dec f = Inr m \<Longrightarrow> \<exists>g. enc m = Inr g \<and> dec g = Inr m"
  using dec_valid dec_enc enc_total by blast

lemma dec_other: "peek_control_type f = Inr t \<Longrightarrow> t \<noteq> tag \<Longrightarrow> \<not> is_ok (dec f)"
  using dec_tag by (auto simp: is_ok_iff)

end

locale canonical_codec = message_codec +
  assumes enc_dec: "dec f = Inr m \<Longrightarrow> enc m = Inr f"
begin

lemma dec_iff: "valid m \<Longrightarrow> dec f = Inr m \<longleftrightarrow> enc m = Inr f"
  using dec_enc enc_dec by blast

end

section \<open>Messages between proxy and receiver\<close>

subsection \<open>REGISTER\<close>

record RegisterMessage =
  reg_current_transfer_id :: u64
  reg_udp_port :: u16
  reg_peer_udp_port :: u16
  reg_state :: ReceiverState

definition encode_register :: "RegisterMessage \<Rightarrow> bytes" where
  "encode_register message =
     write_control_header CT_Register
     @ put_u64 (reg_current_transfer_id message)
     @ put_u16 (reg_udp_port message)
     @ put_u16 (reg_peer_udp_port message)
     @ put_u16 (receiver_state_code (reg_state message))"

definition decode_register :: "bytes \<Rightarrow> RegisterMessage result" where
  "decode_register frame =
     (if length frame \<noteq> 22 then throw ''invalid REGISTER size''
      else run_reader (
        bindR read_control_header (\<lambda>ty.
        bindR (requireR (ty = CT_Register) ''control message is not REGISTER'') (\<lambda>_.
        bindR get_u64 (\<lambda>current_transfer_id.
        bindR get_u16 (\<lambda>udp_port.
        bindR get_u16 (\<lambda>peer_udp_port.
        bindR get_u16 (\<lambda>raw_state.
        bindR (requireR (\<not> (raw_state < receiver_state_code RS_Idle \<or> raw_state > receiver_state_code RS_Completed))
                 ''invalid receiver state'') (\<lambda>_.
        returnR \<lparr>reg_current_transfer_id = current_transfer_id, reg_udp_port = udp_port,
          reg_peer_udp_port = peer_udp_port, reg_state = to_receiver_state raw_state\<rparr>)))))))) frame)"

interpretation register: canonical_codec CT_Register
  "\<lambda>m. Inr (encode_register m)" decode_register
  "\<lambda>_. True"
proof (unfold_locales, goal_cases)
  case (1 m)
  then show ?case by (simp add: encode_register_def)
next
  case (2 m f)
  then show ?case by (cases m) (auto simp: decode_register_def encode_register_def codec receiver_state.check_code receiver_state.cast_code receiver_state.checked_cast)
next
  case (3 f m)
  then show ?case
    by (auto simp: decode_register_def run_reader_Inr_iff control_inversion split: if_splits)
next
  case (4 f m)
  then show ?case by (auto simp: decode_register_def dest: header_peek split: if_splits)
next
  case (5 f m)
  then show ?case
    by (auto simp: decode_register_def encode_register_def run_reader_Inr_iff control_inversion wire_length receiver_state.check_code receiver_state.cast_code receiver_state.checked_cast
        split: if_splits)
qed

subsection \<open>FILE_META\<close>

record FileMetaMessage =
  fm_transfer_id :: u64
  fm_section_id :: u32
  fm_file_size :: u64
  fm_block_size :: u32
  fm_total_blocks :: u32
  fm_section_block_count :: u32
  fm_file_name :: string
  fm_sha256 :: bytes

definition encode_file_meta :: "FileMetaMessage \<Rightarrow> bytes result" where
  "encode_file_meta message =
     bindE (validate_file_name_field (fm_file_name message)) (\<lambda>_.
     bindE (write_file_name (fm_file_name message)) (\<lambda>name_field.
     Inr (write_control_header CT_FileMeta
       @ put_u64 (fm_transfer_id message)
       @ put_u32 (fm_section_id message)
       @ put_u64 (fm_file_size message)
       @ put_u32 (fm_block_size message)
       @ put_u32 (fm_total_blocks message)
       @ put_u32 (fm_section_block_count message)
       @ name_field
       @ fm_sha256 message)))"

definition decode_file_meta :: "bytes \<Rightarrow> FileMetaMessage result" where
  "decode_file_meta frame =
     (if length frame < 74 then throw ''invalid FILE_META size''
      else run_reader (
        bindR read_control_header (\<lambda>ty.
        bindR (requireR (ty = CT_FileMeta) ''control message is not FILE_META'') (\<lambda>_.
        bindR get_u64 (\<lambda>transfer_id.
        bindR get_u32 (\<lambda>section_id.
        bindR get_u64 (\<lambda>file_size.
        bindR get_u32 (\<lambda>block_size.
        bindR get_u32 (\<lambda>total_blocks.
        bindR get_u32 (\<lambda>section_block_count.
        bindR read_file_name (\<lambda>file_name.
        bindR (get_bytes kSha256Size) (\<lambda>sha256.
        bindR remainingR (\<lambda>rem.
        bindR (requireR (rem = 0) ''invalid FILE_META size'') (\<lambda>_.
        returnR \<lparr>fm_transfer_id = transfer_id, fm_section_id = section_id,
          fm_file_size = file_size, fm_block_size = block_size,
          fm_total_blocks = total_blocks,
          fm_section_block_count = section_block_count, fm_file_name = file_name,
          fm_sha256 = sha256\<rparr>))))))))))))) frame)"

interpretation file_meta: canonical_codec CT_FileMeta
  "encode_file_meta" decode_file_meta
  "\<lambda>m. file_name_ok (fm_file_name m) \<and> length (fm_sha256 m) = kSha256Size"
proof (unfold_locales, goal_cases)
  case (1 m)
  then show ?case by (simp add: encode_file_meta_def validate_file_name_field_eq write_file_name_eq kSha256Size_def)
next
  case (2 m f)
  then show ?case by (cases m) (auto simp: decode_file_meta_def encode_file_meta_def codec  validate_file_name_field_eq write_file_name_eq kSha256Size_def)
next
  case (3 f m)
  then show ?case
    by (auto simp: decode_file_meta_def run_reader_Inr_iff control_inversion split: if_splits)
next
  case (4 f m)
  then show ?case by (auto simp: decode_file_meta_def dest: header_peek split: if_splits)
next
  case (5 f m)
  then show ?case
    by (auto simp: decode_file_meta_def encode_file_meta_def run_reader_Inr_iff control_inversion wire_length  validate_file_name_field_eq write_file_name_eq kSha256Size_def
        split: if_splits)
qed

subsection \<open>META_READY\<close>

record MetaReadyMessage =
  mr_transfer_id :: u64

definition encode_meta_ready :: "MetaReadyMessage \<Rightarrow> bytes" where
  "encode_meta_ready message =
     write_control_header CT_MetaReady
     @ put_u64 (mr_transfer_id message)"

definition decode_meta_ready :: "bytes \<Rightarrow> MetaReadyMessage result" where
  "decode_meta_ready frame =
     (if length frame \<noteq> 16 then throw ''invalid META_READY size''
      else run_reader (
        bindR read_control_header (\<lambda>ty.
        bindR (requireR (ty = CT_MetaReady) ''control message is not META_READY'') (\<lambda>_.
        bindR get_u64 (\<lambda>transfer_id.
        returnR \<lparr>mr_transfer_id = transfer_id\<rparr>)))) frame)"

interpretation meta_ready: canonical_codec CT_MetaReady
  "\<lambda>m. Inr (encode_meta_ready m)" decode_meta_ready
  "\<lambda>_. True"
proof (unfold_locales, goal_cases)
  case (1 m)
  then show ?case by (simp add: encode_meta_ready_def)
next
  case (2 m f)
  then show ?case by (cases m) (auto simp: decode_meta_ready_def encode_meta_ready_def codec)
next
  case (3 f m)
  then show ?case
    by (auto simp: decode_meta_ready_def run_reader_Inr_iff control_inversion split: if_splits)
next
  case (4 f m)
  then show ?case by (auto simp: decode_meta_ready_def dest: header_peek split: if_splits)
next
  case (5 f m)
  then show ?case
    by (auto simp: decode_meta_ready_def encode_meta_ready_def run_reader_Inr_iff control_inversion wire_length 
        split: if_splits)
qed

subsection \<open>SECTION_STATUS\<close>

record SectionStatusMessage =
  ss_transfer_id :: u64
  ss_section_id :: u32
  ss_round_id :: u32
  ss_status :: SectionStatusCode
  ss_missing_count :: u32
  ss_missing_bitmap :: bytes

definition encode_section_status :: "SectionStatusMessage \<Rightarrow> bytes result" where
  "encode_section_status message =
     (if length (ss_missing_bitmap message) > 2 ^ 32 - 1
      then throw ''missing bitmap is too large''
      else Inr (write_control_header CT_SectionStatus
        @ put_u64 (ss_transfer_id message)
        @ put_u32 (ss_section_id message)
        @ put_u32 (ss_round_id message)
        @ put_u16 (section_status_code (ss_status message))
        @ put_u16 0
        @ put_u32 (ss_missing_count message)
        @ put_u32 (of_nat (length (ss_missing_bitmap message)))
        @ ss_missing_bitmap message))"

definition decode_section_status :: "bytes \<Rightarrow> SectionStatusMessage result" where
  "decode_section_status frame =
     (if length frame < 36 then throw ''SECTION_STATUS is too short''
      else run_reader (
        bindR read_control_header (\<lambda>ty.
        bindR (requireR (ty = CT_SectionStatus) ''control message is not SECTION_STATUS'') (\<lambda>_.
        bindR get_u64 (\<lambda>transfer_id.
        bindR get_u32 (\<lambda>section_id.
        bindR get_u32 (\<lambda>round_id.
        bindR get_u16 (\<lambda>raw_status.
        bindR get_u16 (\<lambda>_.
        bindR get_u32 (\<lambda>missing_count.
        bindR get_u32 (\<lambda>bitmap_size.
        bindR (requireR (\<not> (raw_status < section_status_code SS_Missing
                   \<or> raw_status > section_status_code SS_Failed))
                 ''invalid SECTION_STATUS code'') (\<lambda>_.
        bindR remainingR (\<lambda>rem.
        bindR (requireR (unat bitmap_size = rem) ''invalid SECTION_STATUS bitmap length'') (\<lambda>_.
        bindR (get_bytes (unat bitmap_size)) (\<lambda>missing_bitmap.
        returnR \<lparr>ss_transfer_id = transfer_id, ss_section_id = section_id,
          ss_round_id = round_id, ss_status = to_section_status raw_status,
          ss_missing_count = missing_count, ss_missing_bitmap = missing_bitmap\<rparr>))))))))))))))
        frame)"

interpretation section_status_msg: message_codec CT_SectionStatus
  encode_section_status decode_section_status
  "\<lambda>m. length (ss_missing_bitmap m) < 4294967296"
proof (unfold_locales, goal_cases)
  case (1 m)
  then show ?case by (simp add: encode_section_status_def)
next
  case (2 m f)
  then show ?case
    by (cases m) (auto simp: encode_section_status_def decode_section_status_def codec
        section_status.check_code section_status.cast_code unat_of_nat_u32 split: if_splits)
next
  case (3 f m)
  then obtain sz :: u32 where "unat sz = length (ss_missing_bitmap m)"
    by (auto simp: decode_section_status_def run_reader_Inr_iff control_tail_inversion
        split: if_splits)
  then show ?case using unat_u32_less [of sz] by simp
next
  case (4 f m)
  then show ?case by (auto simp: decode_section_status_def dest: header_peek split: if_splits)
qed

subsection \<open>REPAIR_BEGIN\<close>

record RepairBeginMessage =
  rb_transfer_id :: u64
  rb_section_id :: u32
  rb_round_id :: u32

definition encode_repair_begin :: "RepairBeginMessage \<Rightarrow> bytes" where
  "encode_repair_begin message =
     write_control_header CT_RepairBegin
     @ put_u64 (rb_transfer_id message)
     @ put_u32 (rb_section_id message)
     @ put_u32 (rb_round_id message)"

definition decode_repair_begin :: "bytes \<Rightarrow> RepairBeginMessage result" where
  "decode_repair_begin frame =
     (if length frame \<noteq> 24 then throw ''invalid REPAIR_BEGIN size''
      else run_reader (
        bindR read_control_header (\<lambda>ty.
        bindR (requireR (ty = CT_RepairBegin) ''control message is not REPAIR_BEGIN'') (\<lambda>_.
        bindR get_u64 (\<lambda>transfer_id.
        bindR get_u32 (\<lambda>section_id.
        bindR get_u32 (\<lambda>round_id.
        returnR \<lparr>rb_transfer_id = transfer_id, rb_section_id = section_id,
          rb_round_id = round_id\<rparr>)))))) frame)"

interpretation repair_begin: canonical_codec CT_RepairBegin
  "\<lambda>m. Inr (encode_repair_begin m)" decode_repair_begin
  "\<lambda>_. True"
proof (unfold_locales, goal_cases)
  case (1 m)
  then show ?case by (simp add: encode_repair_begin_def)
next
  case (2 m f)
  then show ?case by (cases m) (auto simp: decode_repair_begin_def encode_repair_begin_def codec)
next
  case (3 f m)
  then show ?case
    by (auto simp: decode_repair_begin_def run_reader_Inr_iff control_inversion split: if_splits)
next
  case (4 f m)
  then show ?case by (auto simp: decode_repair_begin_def dest: header_peek split: if_splits)
next
  case (5 f m)
  then show ?case
    by (auto simp: decode_repair_begin_def encode_repair_begin_def run_reader_Inr_iff control_inversion wire_length 
        split: if_splits)
qed

subsection \<open>RECEIVER_COMPLETE\<close>

record ReceiverCompleteMessage =
  rc_transfer_id :: u64
  rc_file_size :: u64
  rc_sha256 :: bytes

definition encode_receiver_complete :: "ReceiverCompleteMessage \<Rightarrow> bytes" where
  "encode_receiver_complete message =
     write_control_header CT_ReceiverComplete
     @ put_u64 (rc_transfer_id message)
     @ put_u64 (rc_file_size message)
     @ rc_sha256 message"

definition decode_receiver_complete :: "bytes \<Rightarrow> ReceiverCompleteMessage result" where
  "decode_receiver_complete frame =
     (if length frame \<noteq> 56 then throw ''invalid RECEIVER_COMPLETE size''
      else run_reader (
        bindR read_control_header (\<lambda>ty.
        bindR (requireR (ty = CT_ReceiverComplete) ''control message is not RECEIVER_COMPLETE'') (\<lambda>_.
        bindR get_u64 (\<lambda>transfer_id.
        bindR get_u64 (\<lambda>file_size.
        bindR (get_bytes kSha256Size) (\<lambda>sha256.
        returnR \<lparr>rc_transfer_id = transfer_id, rc_file_size = file_size, rc_sha256 = sha256\<rparr>)))))) frame)"

interpretation receiver_complete: canonical_codec CT_ReceiverComplete
  "\<lambda>m. Inr (encode_receiver_complete m)" decode_receiver_complete
  "\<lambda>m. length (rc_sha256 m) = kSha256Size"
proof (unfold_locales, goal_cases)
  case (1 m)
  then show ?case by (simp add: encode_receiver_complete_def kSha256Size_def)
next
  case (2 m f)
  then show ?case by (cases m) (auto simp: decode_receiver_complete_def encode_receiver_complete_def codec  kSha256Size_def)
next
  case (3 f m)
  then show ?case
    by (auto simp: decode_receiver_complete_def run_reader_Inr_iff control_inversion split: if_splits)
next
  case (4 f m)
  then show ?case by (auto simp: decode_receiver_complete_def dest: header_peek split: if_splits)
next
  case (5 f m)
  then show ?case
    by (auto simp: decode_receiver_complete_def encode_receiver_complete_def run_reader_Inr_iff control_inversion wire_length  kSha256Size_def
        split: if_splits)
qed

subsection \<open>COMPLETE_ACK\<close>

record CompleteAckMessage =
  ca_transfer_id :: u64

definition encode_complete_ack :: "CompleteAckMessage \<Rightarrow> bytes" where
  "encode_complete_ack message =
     write_control_header CT_CompleteAck
     @ put_u64 (ca_transfer_id message)"

definition decode_complete_ack :: "bytes \<Rightarrow> CompleteAckMessage result" where
  "decode_complete_ack frame =
     (if length frame \<noteq> 16 then throw ''invalid COMPLETE_ACK size''
      else run_reader (
        bindR read_control_header (\<lambda>ty.
        bindR (requireR (ty = CT_CompleteAck) ''control message is not COMPLETE_ACK'') (\<lambda>_.
        bindR get_u64 (\<lambda>transfer_id.
        returnR \<lparr>ca_transfer_id = transfer_id\<rparr>)))) frame)"

interpretation complete_ack: canonical_codec CT_CompleteAck
  "\<lambda>m. Inr (encode_complete_ack m)" decode_complete_ack
  "\<lambda>_. True"
proof (unfold_locales, goal_cases)
  case (1 m)
  then show ?case by (simp add: encode_complete_ack_def)
next
  case (2 m f)
  then show ?case by (cases m) (auto simp: decode_complete_ack_def encode_complete_ack_def codec)
next
  case (3 f m)
  then show ?case
    by (auto simp: decode_complete_ack_def run_reader_Inr_iff control_inversion split: if_splits)
next
  case (4 f m)
  then show ?case by (auto simp: decode_complete_ack_def dest: header_peek split: if_splits)
next
  case (5 f m)
  then show ?case
    by (auto simp: decode_complete_ack_def encode_complete_ack_def run_reader_Inr_iff control_inversion wire_length 
        split: if_splits)
qed

subsection \<open>TRANSFER_RESULT\<close>

record TransferResultMessage =
  tr_transfer_id :: u64
  tr_result :: TransferResultCode

definition encode_transfer_result :: "TransferResultMessage \<Rightarrow> bytes" where
  "encode_transfer_result message =
     write_control_header CT_TransferResult
     @ put_u64 (tr_transfer_id message)
     @ put_u16 (transfer_result_code (tr_result message))
     @ put_u16 0"

definition decode_transfer_result :: "bytes \<Rightarrow> TransferResultMessage result" where
  "decode_transfer_result frame =
     (if length frame \<noteq> 20 then throw ''invalid TRANSFER_RESULT size''
      else run_reader (
        bindR read_control_header (\<lambda>ty.
        bindR (requireR (ty = CT_TransferResult) ''control message is not TRANSFER_RESULT'') (\<lambda>_.
        bindR get_u64 (\<lambda>transfer_id.
        bindR get_u16 (\<lambda>raw_result.
        bindR get_u16 (\<lambda>_.
        bindR (requireR (\<not> (raw_result < transfer_result_code TR_Completed \<or> raw_result > transfer_result_code TR_Failed))
                 ''invalid TRANSFER_RESULT code'') (\<lambda>_.
        returnR \<lparr>tr_transfer_id = transfer_id, tr_result = to_transfer_result raw_result\<rparr>))))))) frame)"

interpretation transfer_result_msg: message_codec CT_TransferResult
  "\<lambda>m. Inr (encode_transfer_result m)" decode_transfer_result
  "\<lambda>_. True"
proof (unfold_locales, goal_cases)
  case (1 m)
  then show ?case by (simp add: encode_transfer_result_def)
next
  case (2 m f)
  then show ?case by (cases m) (auto simp: decode_transfer_result_def encode_transfer_result_def codec transfer_result.check_code transfer_result.cast_code transfer_result.checked_cast)
next
  case (3 f m)
  then show ?case
    by (auto simp: decode_transfer_result_def run_reader_Inr_iff control_inversion split: if_splits)
next
  case (4 f m)
  then show ?case by (auto simp: decode_transfer_result_def dest: header_peek split: if_splits)
qed

subsection \<open>SECTION_END\<close>

record SectionEndMessage =
  se_transfer_id :: u64
  se_section_id :: u32
  se_round_id :: u32
  se_total_blocks :: u32

definition encode_section_end :: "SectionEndMessage \<Rightarrow> bytes" where
  "encode_section_end message =
     write_control_header CT_SectionEnd
     @ put_u64 (se_transfer_id message)
     @ put_u32 (se_section_id message)
     @ put_u32 (se_round_id message)
     @ put_u32 (se_total_blocks message)"

definition decode_section_end :: "bytes \<Rightarrow> SectionEndMessage result" where
  "decode_section_end frame =
     (if length frame \<noteq> 28 then throw ''invalid SECTION_END size''
      else run_reader (
        bindR read_control_header (\<lambda>ty.
        bindR (requireR (ty = CT_SectionEnd) ''control message is not SECTION_END'') (\<lambda>_.
        bindR get_u64 (\<lambda>transfer_id.
        bindR get_u32 (\<lambda>section_id.
        bindR get_u32 (\<lambda>round_id.
        bindR get_u32 (\<lambda>total_blocks.
        returnR \<lparr>se_transfer_id = transfer_id, se_section_id = section_id,
          se_round_id = round_id, se_total_blocks = total_blocks\<rparr>))))))) frame)"

interpretation section_end: canonical_codec CT_SectionEnd
  "\<lambda>m. Inr (encode_section_end m)" decode_section_end
  "\<lambda>_. True"
proof (unfold_locales, goal_cases)
  case (1 m)
  then show ?case by (simp add: encode_section_end_def)
next
  case (2 m f)
  then show ?case by (cases m) (auto simp: decode_section_end_def encode_section_end_def codec)
next
  case (3 f m)
  then show ?case
    by (auto simp: decode_section_end_def run_reader_Inr_iff control_inversion split: if_splits)
next
  case (4 f m)
  then show ?case by (auto simp: decode_section_end_def dest: header_peek split: if_splits)
next
  case (5 f m)
  then show ?case
    by (auto simp: decode_section_end_def encode_section_end_def run_reader_Inr_iff control_inversion wire_length 
        split: if_splits)
qed

subsection \<open>RECEIVER_READY\<close>

record ReceiverReadyMessage =
  rr_previous_transfer_id :: u64

definition encode_receiver_ready :: "ReceiverReadyMessage \<Rightarrow> bytes" where
  "encode_receiver_ready message =
     write_control_header CT_ReceiverReady
     @ put_u64 (rr_previous_transfer_id message)"

definition decode_receiver_ready :: "bytes \<Rightarrow> ReceiverReadyMessage result" where
  "decode_receiver_ready frame =
     (if length frame \<noteq> 16 then throw ''invalid RECEIVER_READY size''
      else run_reader (
        bindR read_control_header (\<lambda>ty.
        bindR (requireR (ty = CT_ReceiverReady) ''control message is not RECEIVER_READY'') (\<lambda>_.
        bindR get_u64 (\<lambda>previous_transfer_id.
        returnR \<lparr>rr_previous_transfer_id = previous_transfer_id\<rparr>)))) frame)"

interpretation receiver_ready: canonical_codec CT_ReceiverReady
  "\<lambda>m. Inr (encode_receiver_ready m)" decode_receiver_ready
  "\<lambda>_. True"
proof (unfold_locales, goal_cases)
  case (1 m)
  then show ?case by (simp add: encode_receiver_ready_def)
next
  case (2 m f)
  then show ?case by (cases m) (auto simp: decode_receiver_ready_def encode_receiver_ready_def codec)
next
  case (3 f m)
  then show ?case
    by (auto simp: decode_receiver_ready_def run_reader_Inr_iff control_inversion split: if_splits)
next
  case (4 f m)
  then show ?case by (auto simp: decode_receiver_ready_def dest: header_peek split: if_splits)
next
  case (5 f m)
  then show ?case
    by (auto simp: decode_receiver_ready_def encode_receiver_ready_def run_reader_Inr_iff control_inversion wire_length 
        split: if_splits)
qed

subsection \<open>SESSION_END\<close>

definition encode_session_end :: bytes where
  "encode_session_end = write_control_header CT_SessionEnd"

definition decode_session_end :: "bytes \<Rightarrow> unit result" where
  "decode_session_end frame =
     (if length frame \<noteq> 8 then throw ''invalid SESSION_END size''
      else run_reader (
        bindR read_control_header (\<lambda>ty.
        bindR (requireR (ty = CT_SessionEnd) ''control message is not SESSION_END'') (\<lambda>_.
        returnR ()))) frame)"

interpretation session_end: canonical_codec CT_SessionEnd
  "\<lambda>_. Inr encode_session_end" decode_session_end "\<lambda>_. True"
proof (unfold_locales, goal_cases)
  case (1 m)
  show ?case by simp
next
  case (2 m f)
  then show ?case by (auto simp: decode_session_end_def encode_session_end_def codec)
next
  case (3 f m)
  show ?case by simp
next
  case (4 f m)
  then show ?case by (auto simp: decode_session_end_def dest: header_peek split: if_splits)
next
  case (5 f m)
  then show ?case
    by (auto simp: decode_session_end_def encode_session_end_def run_reader_Inr_iff control_inversion
        split: if_splits)
qed

end
