(* ===== verification/Control_Central.thy ===== *)
theory Control_Central
  imports Control
begin

text \<open>
  The remaining control frames of \<open>include/protocol.hpp\<close>: those between the central sender and
  the proxy, the TCP backfill of an isolated receiver and the peer repair task. Each message
  interprets the contract of theory \<open>Control\<close>; DATA-like frames and status frames carry two
  reserved bytes that decoders ignore, so they are not canonical.
\<close>

section \<open>Messages between central sender and proxy\<close>

subsection \<open>CENTRAL_FILE_META\<close>

record CentralFileMetaMessage =
  cfm_transfer_id :: u64
  cfm_file_size :: u64
  cfm_block_size :: u32
  cfm_total_blocks :: u32
  cfm_section_block_count :: u32
  cfm_file_name :: string
  cfm_sha256 :: bytes

definition encode_central_file_meta :: "CentralFileMetaMessage \<Rightarrow> bytes result" where
  "encode_central_file_meta message =
     bindE (validate_file_name_field (cfm_file_name message)) (\<lambda>_.
     bindE (write_file_name (cfm_file_name message)) (\<lambda>name_field.
     Inr (write_control_header CT_CentralFileMeta
       @ put_u64 (cfm_transfer_id message)
       @ put_u64 (cfm_file_size message)
       @ put_u32 (cfm_block_size message)
       @ put_u32 (cfm_total_blocks message)
       @ put_u32 (cfm_section_block_count message)
       @ name_field
       @ cfm_sha256 message)))"

definition decode_central_file_meta :: "bytes \<Rightarrow> CentralFileMetaMessage result" where
  "decode_central_file_meta frame =
     (if length frame < 70 then throw ''invalid CENTRAL_FILE_META size''
      else run_reader (
        bindR read_control_header (\<lambda>ty.
        bindR (requireR (ty = CT_CentralFileMeta) ''control message is not CENTRAL_FILE_META'') (\<lambda>_.
        bindR get_u64 (\<lambda>transfer_id.
        bindR get_u64 (\<lambda>file_size.
        bindR get_u32 (\<lambda>block_size.
        bindR get_u32 (\<lambda>total_blocks.
        bindR get_u32 (\<lambda>section_block_count.
        bindR read_file_name (\<lambda>file_name.
        bindR (get_bytes kSha256Size) (\<lambda>sha256.
        bindR remainingR (\<lambda>rem.
        bindR (requireR (rem = 0) ''invalid CENTRAL_FILE_META size'') (\<lambda>_.
        returnR \<lparr>cfm_transfer_id = transfer_id, cfm_file_size = file_size,
          cfm_block_size = block_size, cfm_total_blocks = total_blocks,
          cfm_section_block_count = section_block_count, cfm_file_name = file_name,
          cfm_sha256 = sha256\<rparr>)))))))))))) frame)"

interpretation central_file_meta: canonical_codec CT_CentralFileMeta
  "encode_central_file_meta" decode_central_file_meta
  "\<lambda>m. file_name_ok (cfm_file_name m) \<and> length (cfm_sha256 m) = kSha256Size"
proof (unfold_locales, goal_cases)
  case (1 m)
  then show ?case by (simp add: encode_central_file_meta_def validate_file_name_field_eq write_file_name_eq kSha256Size_def)
next
  case (2 m f)
  then show ?case by (cases m) (auto simp: decode_central_file_meta_def encode_central_file_meta_def codec  validate_file_name_field_eq write_file_name_eq kSha256Size_def)
next
  case (3 f m)
  then show ?case
    by (auto simp: decode_central_file_meta_def run_reader_Inr_iff control_inversion split: if_splits)
next
  case (4 f m)
  then show ?case by (auto simp: decode_central_file_meta_def dest: header_peek split: if_splits)
next
  case (5 f m)
  then show ?case
    by (auto simp: decode_central_file_meta_def encode_central_file_meta_def run_reader_Inr_iff control_inversion wire_length  validate_file_name_field_eq write_file_name_eq kSha256Size_def
        split: if_splits)
qed

subsection \<open>CENTRAL_DATA\<close>

record CentralDataMessage =
  cd_transfer_id :: u64
  cd_section_id :: u32
  cd_block_id :: u32
  cd_offset :: u64
  cd_payload_size :: u16
  cd_crc32 :: u32
  cd_payload :: bytes

definition encode_central_data :: "CentralDataMessage \<Rightarrow> bytes result" where
  "encode_central_data message =
     (if length (cd_payload message) > kPayloadSize
       \<or> length (cd_payload message) \<noteq> unat (cd_payload_size message)
      then throw ''invalid CENTRAL_DATA payload size''
      else Inr (write_control_header CT_CentralData
        @ put_u64 (cd_transfer_id message)
        @ put_u32 (cd_section_id message)
        @ put_u32 (cd_block_id message)
        @ put_u64 (cd_offset message)
        @ put_u16 (cd_payload_size message)
        @ put_u16 0
        @ put_u32 (cd_crc32 message)
        @ cd_payload message))"

definition decode_central_data :: "bytes \<Rightarrow> CentralDataMessage result" where
  "decode_central_data frame =
     (if length frame < 40 then throw ''CENTRAL_DATA is too short''
      else run_reader (
        bindR read_control_header (\<lambda>ty.
        bindR (requireR (ty = CT_CentralData) ''control message is not CENTRAL_DATA'') (\<lambda>_.
        bindR get_u64 (\<lambda>transfer_id.
        bindR get_u32 (\<lambda>section_id.
        bindR get_u32 (\<lambda>block_id.
        bindR get_u64 (\<lambda>offset.
        bindR get_u16 (\<lambda>payload_size.
        bindR get_u16 (\<lambda>_.
        bindR get_u32 (\<lambda>crc32.
        bindR remainingR (\<lambda>rem.
        bindR (requireR (\<not> (unat payload_size > kPayloadSize \<or> unat payload_size \<noteq> rem))
                 ''invalid CENTRAL_DATA payload length'') (\<lambda>_.
        bindR (get_bytes (unat payload_size)) (\<lambda>payload.
        returnR \<lparr>cd_transfer_id = transfer_id, cd_section_id = section_id,
          cd_block_id = block_id, cd_offset = offset, cd_payload_size = payload_size,
          cd_crc32 = crc32, cd_payload = payload\<rparr>))))))))))))) frame)"

interpretation central_data: message_codec CT_CentralData
  "encode_central_data" decode_central_data
  "\<lambda>m. length (cd_payload m) = unat (cd_payload_size m) \<and> length (cd_payload m) \<le> kPayloadSize"
proof (unfold_locales, goal_cases)
  case (1 m)
  then show ?case by (simp add: encode_central_data_def)
next
  case (2 m f)
  then show ?case by (cases m) (auto simp: decode_central_data_def encode_central_data_def codec)
next
  case (3 f m)
  then show ?case
    by (auto simp: decode_central_data_def run_reader_Inr_iff control_tail_inversion split: if_splits)
next
  case (4 f m)
  then show ?case by (auto simp: decode_central_data_def dest: header_peek split: if_splits)
qed

subsection \<open>CENTRAL_FILE_END\<close>

record CentralFileEndMessage =
  cfe_transfer_id :: u64
  cfe_section_id :: u32
  cfe_total_blocks :: u32

definition encode_central_file_end :: "CentralFileEndMessage \<Rightarrow> bytes" where
  "encode_central_file_end message =
     write_control_header CT_CentralFileEnd
     @ put_u64 (cfe_transfer_id message)
     @ put_u32 (cfe_section_id message)
     @ put_u32 (cfe_total_blocks message)"

definition decode_central_file_end :: "bytes \<Rightarrow> CentralFileEndMessage result" where
  "decode_central_file_end frame =
     (if length frame \<noteq> 24 then throw ''invalid CENTRAL_FILE_END size''
      else run_reader (
        bindR read_control_header (\<lambda>ty.
        bindR (requireR (ty = CT_CentralFileEnd) ''control message is not CENTRAL_FILE_END'') (\<lambda>_.
        bindR get_u64 (\<lambda>transfer_id.
        bindR get_u32 (\<lambda>section_id.
        bindR get_u32 (\<lambda>total_blocks.
        returnR \<lparr>cfe_transfer_id = transfer_id, cfe_section_id = section_id,
          cfe_total_blocks = total_blocks\<rparr>)))))) frame)"

interpretation central_file_end: canonical_codec CT_CentralFileEnd
  "\<lambda>m. Inr (encode_central_file_end m)" decode_central_file_end
  "\<lambda>_. True"
proof (unfold_locales, goal_cases)
  case (1 m)
  then show ?case by (simp add: encode_central_file_end_def)
next
  case (2 m f)
  then show ?case by (cases m) (auto simp: decode_central_file_end_def encode_central_file_end_def codec)
next
  case (3 f m)
  then show ?case
    by (auto simp: decode_central_file_end_def run_reader_Inr_iff control_inversion split: if_splits)
next
  case (4 f m)
  then show ?case by (auto simp: decode_central_file_end_def dest: header_peek split: if_splits)
next
  case (5 f m)
  then show ?case
    by (auto simp: decode_central_file_end_def encode_central_file_end_def run_reader_Inr_iff control_inversion wire_length 
        split: if_splits)
qed

subsection \<open>CENTRAL_STATUS\<close>

record CentralStatusMessage =
  cs_transfer_id :: u64
  cs_status :: CentralStatusCode
  cs_file_size :: u64
  cs_sha256 :: bytes

definition encode_central_status :: "CentralStatusMessage \<Rightarrow> bytes" where
  "encode_central_status message =
     write_control_header CT_CentralStatus
     @ put_u64 (cs_transfer_id message)
     @ put_u16 (central_status_code (cs_status message))
     @ put_u16 0
     @ put_u64 (cs_file_size message)
     @ cs_sha256 message"

definition decode_central_status :: "bytes \<Rightarrow> CentralStatusMessage result" where
  "decode_central_status frame =
     (if length frame \<noteq> 60 then throw ''invalid CENTRAL_STATUS size''
      else run_reader (
        bindR read_control_header (\<lambda>ty.
        bindR (requireR (ty = CT_CentralStatus) ''control message is not CENTRAL_STATUS'') (\<lambda>_.
        bindR get_u64 (\<lambda>transfer_id.
        bindR get_u16 (\<lambda>raw_status.
        bindR get_u16 (\<lambda>_.
        bindR (requireR (\<not> (raw_status < central_status_code CS_Cached \<or> raw_status > central_status_code CS_Failed))
                 ''invalid CENTRAL_STATUS code'') (\<lambda>_.
        bindR get_u64 (\<lambda>file_size.
        bindR (get_bytes kSha256Size) (\<lambda>sha256.
        returnR \<lparr>cs_transfer_id = transfer_id, cs_status = to_central_status raw_status,
          cs_file_size = file_size, cs_sha256 = sha256\<rparr>))))))))) frame)"

interpretation central_status_msg: message_codec CT_CentralStatus
  "\<lambda>m. Inr (encode_central_status m)" decode_central_status
  "\<lambda>m. length (cs_sha256 m) = kSha256Size"
proof (unfold_locales, goal_cases)
  case (1 m)
  then show ?case by (simp add: encode_central_status_def kSha256Size_def)
next
  case (2 m f)
  then show ?case by (cases m) (auto simp: decode_central_status_def encode_central_status_def codec central_status.check_code central_status.cast_code central_status.checked_cast kSha256Size_def)
next
  case (3 f m)
  then show ?case
    by (auto simp: decode_central_status_def run_reader_Inr_iff control_inversion split: if_splits)
next
  case (4 f m)
  then show ?case by (auto simp: decode_central_status_def dest: header_peek split: if_splits)
qed

subsection \<open>CENTRAL_RESUME\<close>

record CentralResumeMessage =
  cr_transfer_id :: u64
  cr_next_section_id :: u32
  cr_total_sections :: u32
  cr_file_size :: u64
  cr_sha256 :: bytes

definition encode_central_resume :: "CentralResumeMessage \<Rightarrow> bytes" where
  "encode_central_resume message =
     write_control_header CT_CentralResume
     @ put_u64 (cr_transfer_id message)
     @ put_u32 (cr_next_section_id message)
     @ put_u32 (cr_total_sections message)
     @ put_u64 (cr_file_size message)
     @ cr_sha256 message"

definition decode_central_resume :: "bytes \<Rightarrow> CentralResumeMessage result" where
  "decode_central_resume frame =
     (if length frame \<noteq> 64 then throw ''invalid CENTRAL_RESUME size''
      else run_reader (
        bindR read_control_header (\<lambda>ty.
        bindR (requireR (ty = CT_CentralResume) ''control message is not CENTRAL_RESUME'') (\<lambda>_.
        bindR get_u64 (\<lambda>transfer_id.
        bindR get_u32 (\<lambda>next_section_id.
        bindR get_u32 (\<lambda>total_sections.
        bindR get_u64 (\<lambda>file_size.
        bindR (get_bytes kSha256Size) (\<lambda>sha256.
        returnR \<lparr>cr_transfer_id = transfer_id, cr_next_section_id = next_section_id,
          cr_total_sections = total_sections, cr_file_size = file_size,
          cr_sha256 = sha256\<rparr>)))))))) frame)"

interpretation central_resume: canonical_codec CT_CentralResume
  "\<lambda>m. Inr (encode_central_resume m)" decode_central_resume
  "\<lambda>m. length (cr_sha256 m) = kSha256Size"
proof (unfold_locales, goal_cases)
  case (1 m)
  then show ?case by (simp add: encode_central_resume_def kSha256Size_def)
next
  case (2 m f)
  then show ?case by (cases m) (auto simp: decode_central_resume_def encode_central_resume_def codec  kSha256Size_def)
next
  case (3 f m)
  then show ?case
    by (auto simp: decode_central_resume_def run_reader_Inr_iff control_inversion split: if_splits)
next
  case (4 f m)
  then show ?case by (auto simp: decode_central_resume_def dest: header_peek split: if_splits)
next
  case (5 f m)
  then show ?case
    by (auto simp: decode_central_resume_def encode_central_resume_def run_reader_Inr_iff control_inversion wire_length  kSha256Size_def
        split: if_splits)
qed

subsection \<open>CENTRAL_SESSION_END\<close>

definition encode_central_session_end :: bytes where
  "encode_central_session_end = write_control_header CT_CentralSessionEnd"

definition decode_central_session_end :: "bytes \<Rightarrow> unit result" where
  "decode_central_session_end frame =
     (if length frame \<noteq> 8 then throw ''invalid CENTRAL_SESSION_END size''
      else run_reader (
        bindR read_control_header (\<lambda>ty.
        bindR (requireR (ty = CT_CentralSessionEnd) ''control message is not CENTRAL_SESSION_END'') (\<lambda>_.
        returnR ()))) frame)"

interpretation central_session_end: canonical_codec CT_CentralSessionEnd
  "\<lambda>_. Inr encode_central_session_end" decode_central_session_end "\<lambda>_. True"
proof (unfold_locales, goal_cases)
  case (1 m)
  show ?case by simp
next
  case (2 m f)
  then show ?case by (auto simp: decode_central_session_end_def encode_central_session_end_def codec)
next
  case (3 f m)
  show ?case by simp
next
  case (4 f m)
  then show ?case by (auto simp: decode_central_session_end_def dest: header_peek split: if_splits)
next
  case (5 f m)
  then show ?case
    by (auto simp: decode_central_session_end_def encode_central_session_end_def run_reader_Inr_iff control_inversion
        split: if_splits)
qed

section \<open>Messages of the TCP backfill\<close>

subsection \<open>BACKFILL_BEGIN\<close>

record BackfillBeginMessage =
  bb_transfer_id :: u64
  bb_total_blocks :: u32

definition encode_backfill_begin :: "BackfillBeginMessage \<Rightarrow> bytes" where
  "encode_backfill_begin message =
     write_control_header CT_BackfillBegin
     @ put_u64 (bb_transfer_id message)
     @ put_u32 (bb_total_blocks message)"

definition decode_backfill_begin :: "bytes \<Rightarrow> BackfillBeginMessage result" where
  "decode_backfill_begin frame =
     (if length frame \<noteq> 20 then throw ''invalid BACKFILL_BEGIN size''
      else run_reader (
        bindR read_control_header (\<lambda>ty.
        bindR (requireR (ty = CT_BackfillBegin) ''control message is not BACKFILL_BEGIN'') (\<lambda>_.
        bindR get_u64 (\<lambda>transfer_id.
        bindR get_u32 (\<lambda>total_blocks.
        returnR \<lparr>bb_transfer_id = transfer_id, bb_total_blocks = total_blocks\<rparr>))))) frame)"

interpretation backfill_begin: canonical_codec CT_BackfillBegin
  "\<lambda>m. Inr (encode_backfill_begin m)" decode_backfill_begin
  "\<lambda>_. True"
proof (unfold_locales, goal_cases)
  case (1 m)
  then show ?case by (simp add: encode_backfill_begin_def)
next
  case (2 m f)
  then show ?case by (cases m) (auto simp: decode_backfill_begin_def encode_backfill_begin_def codec)
next
  case (3 f m)
  then show ?case
    by (auto simp: decode_backfill_begin_def run_reader_Inr_iff control_inversion split: if_splits)
next
  case (4 f m)
  then show ?case by (auto simp: decode_backfill_begin_def dest: header_peek split: if_splits)
next
  case (5 f m)
  then show ?case
    by (auto simp: decode_backfill_begin_def encode_backfill_begin_def run_reader_Inr_iff control_inversion wire_length 
        split: if_splits)
qed

subsection \<open>BACKFILL_DATA\<close>

record BackfillDataMessage =
  bd_transfer_id :: u64
  bd_block_id :: u32
  bd_offset :: u64
  bd_payload_size :: u16
  bd_crc32 :: u32
  bd_payload :: bytes

definition encode_backfill_data :: "BackfillDataMessage \<Rightarrow> bytes result" where
  "encode_backfill_data message =
     (if length (bd_payload message) > kPayloadSize
       \<or> length (bd_payload message) \<noteq> unat (bd_payload_size message)
      then throw ''invalid BACKFILL_DATA payload size''
      else Inr (write_control_header CT_BackfillData
        @ put_u64 (bd_transfer_id message)
        @ put_u32 (bd_block_id message)
        @ put_u64 (bd_offset message)
        @ put_u16 (bd_payload_size message)
        @ put_u16 0
        @ put_u32 (bd_crc32 message)
        @ bd_payload message))"

definition decode_backfill_data :: "bytes \<Rightarrow> BackfillDataMessage result" where
  "decode_backfill_data frame =
     (if length frame < 36 then throw ''BACKFILL_DATA is too short''
      else run_reader (
        bindR read_control_header (\<lambda>ty.
        bindR (requireR (ty = CT_BackfillData) ''control message is not BACKFILL_DATA'') (\<lambda>_.
        bindR get_u64 (\<lambda>transfer_id.
        bindR get_u32 (\<lambda>block_id.
        bindR get_u64 (\<lambda>offset.
        bindR get_u16 (\<lambda>payload_size.
        bindR get_u16 (\<lambda>_.
        bindR get_u32 (\<lambda>crc32.
        bindR remainingR (\<lambda>rem.
        bindR (requireR (\<not> (unat payload_size > kPayloadSize \<or> unat payload_size \<noteq> rem))
                 ''invalid BACKFILL_DATA payload length'') (\<lambda>_.
        bindR (get_bytes (unat payload_size)) (\<lambda>payload.
        returnR \<lparr>bd_transfer_id = transfer_id, bd_block_id = block_id, bd_offset = offset,
          bd_payload_size = payload_size, bd_crc32 = crc32, bd_payload = payload\<rparr>)))))))))))) frame)"

interpretation backfill_data: message_codec CT_BackfillData
  "encode_backfill_data" decode_backfill_data
  "\<lambda>m. length (bd_payload m) = unat (bd_payload_size m) \<and> length (bd_payload m) \<le> kPayloadSize"
proof (unfold_locales, goal_cases)
  case (1 m)
  then show ?case by (simp add: encode_backfill_data_def)
next
  case (2 m f)
  then show ?case by (cases m) (auto simp: decode_backfill_data_def encode_backfill_data_def codec)
next
  case (3 f m)
  then show ?case
    by (auto simp: decode_backfill_data_def run_reader_Inr_iff control_tail_inversion split: if_splits)
next
  case (4 f m)
  then show ?case by (auto simp: decode_backfill_data_def dest: header_peek split: if_splits)
qed

subsection \<open>BACKFILL_END\<close>

record BackfillEndMessage =
  be_transfer_id :: u64
  be_file_size :: u64
  be_total_blocks :: u32
  be_sha256 :: bytes

definition encode_backfill_end :: "BackfillEndMessage \<Rightarrow> bytes" where
  "encode_backfill_end message =
     write_control_header CT_BackfillEnd
     @ put_u64 (be_transfer_id message)
     @ put_u64 (be_file_size message)
     @ put_u32 (be_total_blocks message)
     @ be_sha256 message"

definition decode_backfill_end :: "bytes \<Rightarrow> BackfillEndMessage result" where
  "decode_backfill_end frame =
     (if length frame \<noteq> 60 then throw ''invalid BACKFILL_END size''
      else run_reader (
        bindR read_control_header (\<lambda>ty.
        bindR (requireR (ty = CT_BackfillEnd) ''control message is not BACKFILL_END'') (\<lambda>_.
        bindR get_u64 (\<lambda>transfer_id.
        bindR get_u64 (\<lambda>file_size.
        bindR get_u32 (\<lambda>total_blocks.
        bindR (get_bytes kSha256Size) (\<lambda>sha256.
        returnR \<lparr>be_transfer_id = transfer_id, be_file_size = file_size,
          be_total_blocks = total_blocks, be_sha256 = sha256\<rparr>))))))) frame)"

interpretation backfill_end: canonical_codec CT_BackfillEnd
  "\<lambda>m. Inr (encode_backfill_end m)" decode_backfill_end
  "\<lambda>m. length (be_sha256 m) = kSha256Size"
proof (unfold_locales, goal_cases)
  case (1 m)
  then show ?case by (simp add: encode_backfill_end_def kSha256Size_def)
next
  case (2 m f)
  then show ?case by (cases m) (auto simp: decode_backfill_end_def encode_backfill_end_def codec  kSha256Size_def)
next
  case (3 f m)
  then show ?case
    by (auto simp: decode_backfill_end_def run_reader_Inr_iff control_inversion split: if_splits)
next
  case (4 f m)
  then show ?case by (auto simp: decode_backfill_end_def dest: header_peek split: if_splits)
next
  case (5 f m)
  then show ?case
    by (auto simp: decode_backfill_end_def encode_backfill_end_def run_reader_Inr_iff control_inversion wire_length  kSha256Size_def
        split: if_splits)
qed

section \<open>Peer repair task\<close>

record PeerRepairTaskMessage =
  pt_transfer_id :: u64
  pt_section_id :: u32
  pt_round_id :: u32
  pt_task_id :: u64
  pt_target_ipv4 :: u32
  pt_target_port :: u16
  pt_block_ids :: "u32 list"

definition encode_peer_repair_task :: "PeerRepairTaskMessage \<Rightarrow> bytes result" where
  "encode_peer_repair_task message =
     (if pt_block_ids message = [] \<or> length (pt_block_ids message) > kMaxPeerRepairBlocks
      then throw ''invalid PEER_REPAIR_TASK block count''
      else Inr (write_control_header CT_PeerRepairTask
        @ put_u64 (pt_transfer_id message)
        @ put_u32 (pt_section_id message)
        @ put_u32 (pt_round_id message)
        @ put_u64 (pt_task_id message)
        @ put_u32 (pt_target_ipv4 message)
        @ put_u16 (pt_target_port message)
        @ put_u16 0
        @ put_u32 (of_nat (length (pt_block_ids message)))
        @ concat (map put_u32 (pt_block_ids message))))"

definition decode_peer_repair_task :: "bytes \<Rightarrow> PeerRepairTaskMessage result" where
  "decode_peer_repair_task frame =
     (if length frame < 44 then throw ''PEER_REPAIR_TASK is too short''
      else run_reader (
        bindR read_control_header (\<lambda>ty.
        bindR (requireR (ty = CT_PeerRepairTask) ''control message is not PEER_REPAIR_TASK'') (\<lambda>_.
        bindR get_u64 (\<lambda>transfer_id.
        bindR get_u32 (\<lambda>section_id.
        bindR get_u32 (\<lambda>round_id.
        bindR get_u64 (\<lambda>task_id.
        bindR get_u32 (\<lambda>target_ipv4.
        bindR get_u16 (\<lambda>target_port.
        bindR get_u16 (\<lambda>_.
        bindR get_u32 (\<lambda>block_count.
        bindR remainingR (\<lambda>rem.
        bindR (requireR (\<not> (block_count = 0 \<or> unat block_count > kMaxPeerRepairBlocks
                   \<or> rem \<noteq> unat block_count * 4))
                 ''invalid PEER_REPAIR_TASK block list'') (\<lambda>_.
        bindR (get_many (unat block_count) get_u32) (\<lambda>block_ids.
        returnR \<lparr>pt_transfer_id = transfer_id, pt_section_id = section_id,
          pt_round_id = round_id, pt_task_id = task_id, pt_target_ipv4 = target_ipv4,
          pt_target_port = target_port, pt_block_ids = block_ids\<rparr>)))))))))))))) frame)"

lemma block_ids_codec:
  "field_codec (\<lambda>xs. concat (map put_u32 xs)) (get_many n get_u32) (\<lambda>xs. length xs = n)"
  using u32.many_codec [of n] by (simp add: list_all_iff)

lemma block_ids_read:
  "length xs = n \<Longrightarrow> bindR (get_many n get_u32) f (concat (map put_u32 xs)) = f xs []"
  using field_codec.bindR_put_last [OF block_ids_codec, of xs n f] by simp

lemma block_ids_inversion:
  "bindR (get_many n get_u32) f b = Inr y \<longleftrightarrow>
     (\<exists>xs r. length xs = n \<and> b = concat (map put_u32 xs) @ r \<and> f xs r = Inr y)"
  using field_codec.bindR_Inr [OF block_ids_codec, of n f b y] by simp

lemma length_block_ids: "length (concat (map put_u32 xs)) = length xs * 4"
  by (induction xs) auto

interpretation peer_repair_task: message_codec CT_PeerRepairTask
  encode_peer_repair_task decode_peer_repair_task
  "\<lambda>m. pt_block_ids m \<noteq> [] \<and> length (pt_block_ids m) \<le> kMaxPeerRepairBlocks"
proof (unfold_locales, goal_cases)
  case (1 m)
  then show ?case by (simp add: encode_peer_repair_task_def)
next
  case (2 m f)
  then have n: "unat (of_nat (length (pt_block_ids m)) :: u32) = length (pt_block_ids m)"
    by (simp add: kMaxPeerRepairBlocks_def unat_of_nat_u32)
  from 2 have "(of_nat (length (pt_block_ids m)) :: u32) \<noteq> 0"
    using n by (metis length_0_conv unat_0)
  with 2 n show ?case
    by (cases m) (auto simp: encode_peer_repair_task_def decode_peer_repair_task_def codec
        block_ids_read length_block_ids split: if_splits)
next
  case (3 f m)
  then show ?case
    by (auto simp: decode_peer_repair_task_def run_reader_Inr_iff control_inversion
        block_ids_inversion unat_eq_zero split: if_splits)
next
  case (4 f m)
  then show ?case by (auto simp: decode_peer_repair_task_def dest: header_peek split: if_splits)
qed

end
