(* ===== verification/Messages.thy ===== *)
theory Messages
  imports Control_Central
begin

text \<open>
  The control protocol as one language: a message of any of the 21 types of
  \<open>include/protocol.hpp\<close>, its frame, and reading a frame by its type as the dispatchers of the
  programs do. The lemmas collect what the interpretations of \<open>message_codec\<close> show type by type.
\<close>

datatype control_message =
  M_Register RegisterMessage
| M_SectionStatus SectionStatusMessage
| M_RepairBegin RepairBeginMessage
| M_ReceiverComplete ReceiverCompleteMessage
| M_CompleteAck CompleteAckMessage
| M_TransferResult TransferResultMessage
| M_SectionEnd SectionEndMessage
| M_ReceiverReady ReceiverReadyMessage
| M_SessionEnd
| M_FileMeta FileMetaMessage
| M_MetaReady MetaReadyMessage
| M_CentralFileMeta CentralFileMetaMessage
| M_CentralData CentralDataMessage
| M_CentralFileEnd CentralFileEndMessage
| M_CentralStatus CentralStatusMessage
| M_CentralSessionEnd
| M_CentralResume CentralResumeMessage
| M_BackfillBegin BackfillBeginMessage
| M_BackfillData BackfillDataMessage
| M_BackfillEnd BackfillEndMessage
| M_PeerRepairTask PeerRepairTaskMessage

fun message_type :: "control_message \<Rightarrow> ControlType" where
  "message_type (M_Register m) = CT_Register"
| "message_type (M_SectionStatus m) = CT_SectionStatus"
| "message_type (M_RepairBegin m) = CT_RepairBegin"
| "message_type (M_ReceiverComplete m) = CT_ReceiverComplete"
| "message_type (M_CompleteAck m) = CT_CompleteAck"
| "message_type (M_TransferResult m) = CT_TransferResult"
| "message_type (M_SectionEnd m) = CT_SectionEnd"
| "message_type (M_ReceiverReady m) = CT_ReceiverReady"
| "message_type M_SessionEnd = CT_SessionEnd"
| "message_type (M_FileMeta m) = CT_FileMeta"
| "message_type (M_MetaReady m) = CT_MetaReady"
| "message_type (M_CentralFileMeta m) = CT_CentralFileMeta"
| "message_type (M_CentralData m) = CT_CentralData"
| "message_type (M_CentralFileEnd m) = CT_CentralFileEnd"
| "message_type (M_CentralStatus m) = CT_CentralStatus"
| "message_type M_CentralSessionEnd = CT_CentralSessionEnd"
| "message_type (M_CentralResume m) = CT_CentralResume"
| "message_type (M_BackfillBegin m) = CT_BackfillBegin"
| "message_type (M_BackfillData m) = CT_BackfillData"
| "message_type (M_BackfillEnd m) = CT_BackfillEnd"
| "message_type (M_PeerRepairTask m) = CT_PeerRepairTask"

fun encode_message :: "control_message \<Rightarrow> bytes result" where
  "encode_message (M_Register m) = Inr (encode_register m)"
| "encode_message (M_SectionStatus m) = encode_section_status m"
| "encode_message (M_RepairBegin m) = Inr (encode_repair_begin m)"
| "encode_message (M_ReceiverComplete m) = Inr (encode_receiver_complete m)"
| "encode_message (M_CompleteAck m) = Inr (encode_complete_ack m)"
| "encode_message (M_TransferResult m) = Inr (encode_transfer_result m)"
| "encode_message (M_SectionEnd m) = Inr (encode_section_end m)"
| "encode_message (M_ReceiverReady m) = Inr (encode_receiver_ready m)"
| "encode_message M_SessionEnd = Inr encode_session_end"
| "encode_message (M_FileMeta m) = encode_file_meta m"
| "encode_message (M_MetaReady m) = Inr (encode_meta_ready m)"
| "encode_message (M_CentralFileMeta m) = encode_central_file_meta m"
| "encode_message (M_CentralData m) = encode_central_data m"
| "encode_message (M_CentralFileEnd m) = Inr (encode_central_file_end m)"
| "encode_message (M_CentralStatus m) = Inr (encode_central_status m)"
| "encode_message M_CentralSessionEnd = Inr encode_central_session_end"
| "encode_message (M_CentralResume m) = Inr (encode_central_resume m)"
| "encode_message (M_BackfillBegin m) = Inr (encode_backfill_begin m)"
| "encode_message (M_BackfillData m) = encode_backfill_data m"
| "encode_message (M_BackfillEnd m) = Inr (encode_backfill_end m)"
| "encode_message (M_PeerRepairTask m) = encode_peer_repair_task m"

text \<open>What an encoder relies on: fixed-size arrays have their size, a name fits its field, and
  the stated length of a payload is its length.\<close>

fun valid_message :: "control_message \<Rightarrow> bool" where
  "valid_message (M_SectionStatus m) \<longleftrightarrow> length (ss_missing_bitmap m) < 4294967296"
| "valid_message (M_ReceiverComplete m) \<longleftrightarrow> length (rc_sha256 m) = kSha256Size"
| "valid_message (M_FileMeta m) \<longleftrightarrow> file_name_ok (fm_file_name m) \<and> length (fm_sha256 m) = kSha256Size"
| "valid_message (M_CentralFileMeta m) \<longleftrightarrow> file_name_ok (cfm_file_name m) \<and> length (cfm_sha256 m) = kSha256Size"
| "valid_message (M_CentralData m) \<longleftrightarrow> length (cd_payload m) = unat (cd_payload_size m) \<and> length (cd_payload m) \<le> kPayloadSize"
| "valid_message (M_CentralStatus m) \<longleftrightarrow> length (cs_sha256 m) = kSha256Size"
| "valid_message (M_CentralResume m) \<longleftrightarrow> length (cr_sha256 m) = kSha256Size"
| "valid_message (M_BackfillData m) \<longleftrightarrow> length (bd_payload m) = unat (bd_payload_size m) \<and> length (bd_payload m) \<le> kPayloadSize"
| "valid_message (M_BackfillEnd m) \<longleftrightarrow> length (be_sha256 m) = kSha256Size"
| "valid_message (M_PeerRepairTask m) \<longleftrightarrow> pt_block_ids m \<noteq> [] \<and> length (pt_block_ids m) \<le> kMaxPeerRepairBlocks"
| "valid_message _ \<longleftrightarrow> True"

definition decode_as :: "ControlType \<Rightarrow> bytes \<Rightarrow> control_message result" where
  "decode_as ty frame = (case ty of
    CT_Register \<Rightarrow> bindE (decode_register frame) (\<lambda>m. Inr (M_Register m))
  | CT_SectionStatus \<Rightarrow> bindE (decode_section_status frame) (\<lambda>m. Inr (M_SectionStatus m))
  | CT_RepairBegin \<Rightarrow> bindE (decode_repair_begin frame) (\<lambda>m. Inr (M_RepairBegin m))
  | CT_ReceiverComplete \<Rightarrow> bindE (decode_receiver_complete frame) (\<lambda>m. Inr (M_ReceiverComplete m))
  | CT_CompleteAck \<Rightarrow> bindE (decode_complete_ack frame) (\<lambda>m. Inr (M_CompleteAck m))
  | CT_TransferResult \<Rightarrow> bindE (decode_transfer_result frame) (\<lambda>m. Inr (M_TransferResult m))
  | CT_SectionEnd \<Rightarrow> bindE (decode_section_end frame) (\<lambda>m. Inr (M_SectionEnd m))
  | CT_ReceiverReady \<Rightarrow> bindE (decode_receiver_ready frame) (\<lambda>m. Inr (M_ReceiverReady m))
  | CT_SessionEnd \<Rightarrow> bindE (decode_session_end frame) (\<lambda>_. Inr M_SessionEnd)
  | CT_FileMeta \<Rightarrow> bindE (decode_file_meta frame) (\<lambda>m. Inr (M_FileMeta m))
  | CT_MetaReady \<Rightarrow> bindE (decode_meta_ready frame) (\<lambda>m. Inr (M_MetaReady m))
  | CT_CentralFileMeta \<Rightarrow> bindE (decode_central_file_meta frame) (\<lambda>m. Inr (M_CentralFileMeta m))
  | CT_CentralData \<Rightarrow> bindE (decode_central_data frame) (\<lambda>m. Inr (M_CentralData m))
  | CT_CentralFileEnd \<Rightarrow> bindE (decode_central_file_end frame) (\<lambda>m. Inr (M_CentralFileEnd m))
  | CT_CentralStatus \<Rightarrow> bindE (decode_central_status frame) (\<lambda>m. Inr (M_CentralStatus m))
  | CT_CentralSessionEnd \<Rightarrow> bindE (decode_central_session_end frame) (\<lambda>_. Inr M_CentralSessionEnd)
  | CT_CentralResume \<Rightarrow> bindE (decode_central_resume frame) (\<lambda>m. Inr (M_CentralResume m))
  | CT_BackfillBegin \<Rightarrow> bindE (decode_backfill_begin frame) (\<lambda>m. Inr (M_BackfillBegin m))
  | CT_BackfillData \<Rightarrow> bindE (decode_backfill_data frame) (\<lambda>m. Inr (M_BackfillData m))
  | CT_BackfillEnd \<Rightarrow> bindE (decode_backfill_end frame) (\<lambda>m. Inr (M_BackfillEnd m))
  | CT_PeerRepairTask \<Rightarrow> bindE (decode_peer_repair_task frame) (\<lambda>m. Inr (M_PeerRepairTask m)))"

definition decode_message :: "bytes \<Rightarrow> control_message result" where
  "decode_message frame = bindE (peek_control_type frame) (\<lambda>ty. decode_as ty frame)"

lemmas messages_total =
  register.enc_total
  section_status_msg.enc_total
  repair_begin.enc_total
  receiver_complete.enc_total
  complete_ack.enc_total
  transfer_result_msg.enc_total
  section_end.enc_total
  receiver_ready.enc_total
  session_end.enc_total
  file_meta.enc_total
  meta_ready.enc_total
  central_file_meta.enc_total
  central_data.enc_total
  central_file_end.enc_total
  central_status_msg.enc_total
  central_session_end.enc_total
  central_resume.enc_total
  backfill_begin.enc_total
  backfill_data.enc_total
  backfill_end.enc_total
  peer_repair_task.enc_total

lemmas messages_read =
  register.dec_enc
  section_status_msg.dec_enc
  repair_begin.dec_enc
  receiver_complete.dec_enc
  complete_ack.dec_enc
  transfer_result_msg.dec_enc
  section_end.dec_enc
  receiver_ready.dec_enc
  session_end.dec_enc
  file_meta.dec_enc
  meta_ready.dec_enc
  central_file_meta.dec_enc
  central_data.dec_enc
  central_file_end.dec_enc
  central_status_msg.dec_enc
  central_session_end.dec_enc
  central_resume.dec_enc
  backfill_begin.dec_enc
  backfill_data.dec_enc
  backfill_end.dec_enc
  peer_repair_task.dec_enc

lemmas messages_valid =
  register.dec_valid
  section_status_msg.dec_valid
  repair_begin.dec_valid
  receiver_complete.dec_valid
  complete_ack.dec_valid
  transfer_result_msg.dec_valid
  section_end.dec_valid
  receiver_ready.dec_valid
  session_end.dec_valid
  file_meta.dec_valid
  meta_ready.dec_valid
  central_file_meta.dec_valid
  central_data.dec_valid
  central_file_end.dec_valid
  central_status_msg.dec_valid
  central_session_end.dec_valid
  central_resume.dec_valid
  backfill_begin.dec_valid
  backfill_data.dec_valid
  backfill_end.dec_valid
  peer_repair_task.dec_valid

lemmas messages_type =
  register.peek_enc
  section_status_msg.peek_enc
  repair_begin.peek_enc
  receiver_complete.peek_enc
  complete_ack.peek_enc
  transfer_result_msg.peek_enc
  section_end.peek_enc
  receiver_ready.peek_enc
  session_end.peek_enc
  file_meta.peek_enc
  meta_ready.peek_enc
  central_file_meta.peek_enc
  central_data.peek_enc
  central_file_end.peek_enc
  central_status_msg.peek_enc
  central_session_end.peek_enc
  central_resume.peek_enc
  backfill_begin.peek_enc
  backfill_data.peek_enc
  backfill_end.peek_enc
  peer_repair_task.peek_enc

lemmas messages_canonical =
  register.enc_dec
  repair_begin.enc_dec
  receiver_complete.enc_dec
  complete_ack.enc_dec
  section_end.enc_dec
  receiver_ready.enc_dec
  session_end.enc_dec
  file_meta.enc_dec
  meta_ready.enc_dec
  central_file_meta.enc_dec
  central_file_end.enc_dec
  central_session_end.enc_dec
  central_resume.enc_dec
  backfill_begin.enc_dec
  backfill_end.enc_dec

lemma session_frames [simp]:
  "decode_session_end encode_session_end = Inr ()" "decode_central_session_end encode_central_session_end = Inr ()"
  using session_end.dec_enc central_session_end.dec_enc by blast+

lemma session_frames_read:
  "decode_session_end f = Inr u \<Longrightarrow> encode_session_end = f"
  "decode_central_session_end f = Inr u \<Longrightarrow> encode_central_session_end = f"
  using session_end.enc_dec central_session_end.enc_dec by blast+

lemma encode_message_total: "valid_message m \<Longrightarrow> \<exists>f. encode_message m = Inr f"
  by (cases m) (auto intro: messages_total)

lemma peek_message: "valid_message m \<Longrightarrow> encode_message m = Inr f \<Longrightarrow> peek_control_type f = Inr (message_type m)"
  by (cases m) (auto intro: messages_type)

lemma decode_as_encode: "valid_message m \<Longrightarrow> encode_message m = Inr f \<Longrightarrow> decode_as (message_type m) f = Inr m"
  by (cases m) (auto simp: decode_as_def messages_read)

lemma decode_message_encode: "valid_message m \<Longrightarrow> encode_message m = Inr f \<Longrightarrow> decode_message f = Inr m"
  by (simp add: decode_message_def peek_message decode_as_encode)

lemma decode_as_valid: "decode_as ty f = Inr m \<Longrightarrow> valid_message m"
  by (cases ty) (auto simp: decode_as_def bindE_Inr_iff simp del: is_ok_iff dest: messages_valid)

lemma decode_message_valid: "decode_message f = Inr m \<Longrightarrow> valid_message m"
  by (auto simp: decode_message_def bindE_Inr_iff intro: decode_as_valid)

text \<open>The types whose frames have a reserved field the reader skips.\<close>

definition has_reserved_field :: "ControlType \<Rightarrow> bool" where
  "has_reserved_field ty \<longleftrightarrow> ty \<in> {CT_SectionStatus, CT_TransferResult, CT_CentralData, CT_CentralStatus,
     CT_BackfillData, CT_PeerRepairTask}"

lemma decode_as_canonical:
  "decode_as ty f = Inr m \<Longrightarrow> \<not> has_reserved_field ty \<Longrightarrow> encode_message m = Inr f"
  by (cases ty) (auto simp: decode_as_def bindE_Inr_iff has_reserved_field_def session_frames_read
      dest: messages_canonical)

text \<open>C11: Every control message survives the wire. A message that fits its fields has a frame, the
  frame announces its type, and the reader the dispatchers choose by that type returns the message.\<close>

theorem control_message_roundtrip:
  assumes "valid_message m"
  shows "\<exists>f. encode_message m = Inr f \<and> peek_control_type f = Inr (message_type m) \<and> decode_message f = Inr m"
  using encode_message_total [OF assms] peek_message [OF assms] decode_message_encode [OF assms] by blast

theorem control_message_roundtrip_witness:
  "\<exists>f. encode_message (M_PeerRepairTask \<lparr>pt_transfer_id = 7, pt_section_id = 0, pt_round_id = 1, pt_task_id = 1,
      pt_target_ipv4 = 3232235777, pt_target_port = 9000, pt_block_ids = [3, 5]\<rparr>) = Inr f
    \<and> peek_control_type f = Inr CT_PeerRepairTask \<and> decode_message f = Inr (M_PeerRepairTask
      \<lparr>pt_transfer_id = 7, pt_section_id = 0, pt_round_id = 1, pt_task_id = 1,
      pt_target_ipv4 = 3232235777, pt_target_port = 9000, pt_block_ids = [3, 5]\<rparr>)"
  using control_message_roundtrip [of "M_PeerRepairTask \<lparr>pt_transfer_id = 7, pt_section_id = 0, pt_round_id = 1, pt_task_id = 1,
      pt_target_ipv4 = 3232235777, pt_target_port = 9000, pt_block_ids = [3, 5]\<rparr>"]
  by (simp add: kMaxPeerRepairBlocks_def)



end
