(* ===== verification/Control_Stream.thy ===== *)
theory Control_Stream
  imports Packets
begin

text \<open>
  Control frames over TCP: \<open>include/control_io.hpp\<close> (blocking, used to the central sender and
  to answer a proxy) and \<open>ControlStreamReader\<close> of \<open>src/receiver.cpp\<close> (non-blocking).

  A receiving socket is the peer's byte stream that has not been received yet and the list of
  what the next calls to \<open>recv\<close> do: fail with an errno, or return at most so many bytes. A
  blocking read whose calls are used up is still waiting, which is \<open>None\<close>; a non-blocking one
  would block. For sending, the calls after the listed ones transfer all they are given. The
  loops recurse on the list, so any schedule of partial transfers, interruptions and errors is
  an argument of the model. The lemmas show that the frames obtained do not depend on how the
  stream was cut into reads.
\<close>

section \<open>System calls\<close>

datatype errno = EINTR | EAGAIN | ENOENT | Other_errno string

fun strerror :: "errno \<Rightarrow> string" where
  "strerror EINTR = ''Interrupted system call''"
| "strerror EAGAIN = ''Resource temporarily unavailable''"
| "strerror ENOENT = ''No such file or directory''"
| "strerror (Other_errno text) = text"

definition system_error :: "string \<Rightarrow> errno \<Rightarrow> 'a result" where
  "system_error operation e = throw (operation @ '': '' @ strerror e)"

lemma system_error_not_ok [simp]: "system_error a e \<noteq> Inr x" "Inr x \<noteq> system_error a e"
  by (simp_all add: system_error_def)

text \<open>A call fails or transfers up to so many bytes; \<open>Upto 0\<close> is the call that returns zero
  (on \<open>recv\<close>: the connection is closed).\<close>

datatype io_event = Fails errno | Upto nat

section \<open>Blocking input and output\<close>

type_synonym in_socket = "bytes \<times> io_event list"
type_synonym out_socket = "bytes \<times> io_event list"

fun write_all :: "bytes \<Rightarrow> out_socket \<Rightarrow> unit result \<times> out_socket" where
  "write_all data (sent, []) = (Inr (), sent @ data, [])"
| "write_all data (sent, Fails e # evs) =
     (if data = [] then (Inr (), sent, Fails e # evs)
      else if e = EINTR then write_all data (sent, evs)
      else (system_error ''send control frame'' e, sent, evs))"
| "write_all data (sent, Upto k # evs) =
     (if data = [] then (Inr (), sent, Upto k # evs)
      else if k = 0 then (throw ''control connection made no write progress'', sent, evs)
      else write_all (drop k data) (sent @ take k data, evs))"

fun read_all :: "nat \<Rightarrow> bytes \<Rightarrow> in_socket \<Rightarrow> (bytes result \<times> in_socket) option" where
  "read_all wanted received (incoming, []) =
     (if length received \<ge> wanted then Some (Inr received, incoming, []) else None)"
| "read_all wanted received (incoming, Fails e # evs) =
     (if length received \<ge> wanted then Some (Inr received, incoming, Fails e # evs)
      else if e = EINTR then read_all wanted received (incoming, evs)
      else Some (system_error ''recv control frame'' e, incoming, evs))"
| "read_all wanted received (incoming, Upto k # evs) =
     (if length received \<ge> wanted then Some (Inr received, incoming, Upto k # evs)
      else let count = min (wanted - length received) (min k (length incoming))
           in if count = 0 then Some (throw ''control connection closed'', incoming, evs)
              else read_all wanted (received @ take count incoming) (drop count incoming, evs))"

definition send_control_frame :: "bytes \<Rightarrow> out_socket \<Rightarrow> unit result \<times> out_socket" where
  "send_control_frame frame s =
     (if frame = [] \<or> length frame > kMaxControlFrameSize
      then (throw ''invalid control frame size'', s)
      else case write_all (put_u32 (of_nat (length frame))) s of
        (Inl e, s') \<Rightarrow> (Inl e, s')
      | (Inr _, s') \<Rightarrow> write_all frame s')"

definition receive_control_frame :: "in_socket \<Rightarrow> (bytes result \<times> in_socket) option" where
  "receive_control_frame s =
     (case read_all 4 [] s of
        None \<Rightarrow> None
      | Some (Inl e, s') \<Rightarrow> Some (Inl e, s')
      | Some (Inr size_bytes, s') \<Rightarrow>
          let size = unat (host_order size_bytes :: u32)
          in if size = 0 \<or> size > kMaxControlFrameSize
             then Some (throw ''invalid received control frame size'', s')
             else read_all size [] s')"

text \<open>A frame as it is on the stream.\<close>

definition valid_frame :: "bytes \<Rightarrow> bool" where
  "valid_frame f \<longleftrightarrow> f \<noteq> [] \<and> length f \<le> kMaxControlFrameSize"

definition frame_bytes :: "bytes \<Rightarrow> bytes" where
  "frame_bytes f = put_u32 (of_nat (length f)) @ f"

lemma length_frame_bytes [simp]: "length (frame_bytes f) = 4 + length f"
  by (simp add: frame_bytes_def)

lemma frame_size_u32: "valid_frame f \<Longrightarrow> unat (of_nat (length f) :: u32) = length f"
  by (intro unat_of_nat_u32) (auto simp: valid_frame_def kMaxControlFrameSize_def)

lemma host_order_put_u32: "host_order (put_u32 w) = w"
  by (simp add: put_u32_def host_order_network_order take_bit_word_eq_self)

lemma write_all_prefix:
  "write_all data (sent, evs) = (r, sent', evs') \<Longrightarrow>
     \<exists>n. sent' = sent @ take n data \<and> (is_ok r \<longleftrightarrow> n = length data) \<and> n \<le> length data"
proof (induction data "(sent, evs)" arbitrary: sent evs rule: write_all.induct)
  case (3 data sent k evs)
  show ?case
  proof (cases "data = [] \<or> k = 0")
    case True
    with "3.prems" show ?thesis by (intro exI [of _ 0]) (auto split: if_splits)
  next
    case False
    with 3 obtain n where n: "sent' = (sent @ take k data) @ take n (drop k data)"
      "is_ok r \<longleftrightarrow> n = length (drop k data)" "n \<le> length (drop k data)" by auto
    show ?thesis
    proof (cases "k \<le> length data")
      case True
      with n show ?thesis
        by (intro exI [of _ "k + n"]) (auto simp: take_add)
    next
      case False
      with n show ?thesis by (intro exI [of _ "length data"]) auto
    qed
  qed
next
  case (1 data sent)
  then show ?case by (auto intro!: exI [of _ "length data"])
qed (auto simp: system_error_def split: if_splits intro!: exI [of _ 0])

lemma write_all_Inr: "write_all data (sent, evs) = (Inr u, sent', evs') \<Longrightarrow> sent' = sent @ data"
  by (auto dest!: write_all_prefix)

text \<open>A completed send put exactly the frame on the stream.\<close>

lemma send_control_frame_ok:
  assumes "send_control_frame f (sent, evs) = (Inr u, sent', evs')"
  shows "valid_frame f \<and> sent' = sent @ frame_bytes f"
  using assms
  by (auto simp: send_control_frame_def valid_frame_def frame_bytes_def split: if_splits prod.splits
      sum.splits dest!: write_all_Inr)

lemma send_control_frame_invalid:
  "\<not> valid_frame f \<Longrightarrow> send_control_frame f s = (throw ''invalid control frame size'', s)"
  by (auto simp: send_control_frame_def valid_frame_def)

text \<open>A schedule on which a blocking loop gets through \<open>n\<close> bytes: nothing but interruptions
  fails, and at least \<open>n\<close> calls transfer something.\<close>

fun benign :: "io_event \<Rightarrow> bool" where
  "benign (Fails e) \<longleftrightarrow> e = EINTR"
| "benign (Upto k) \<longleftrightarrow> 0 < k"

definition live :: "nat \<Rightarrow> io_event list \<Rightarrow> bool" where
  "live n evs \<longleftrightarrow> list_all benign evs \<and> n \<le> length (filter (\<lambda>e. e \<noteq> Fails EINTR) evs)"

lemma live_simps [simp]:
  "live n [] \<longleftrightarrow> n = 0"
  "live n (Fails e # evs) \<longleftrightarrow> e = EINTR \<and> live n evs"
  "live n (Upto k # evs) \<longleftrightarrow> 0 < k \<and> live (n - 1) evs"
  by (auto simp: live_def)

lemma live_mono: "live n evs \<Longrightarrow> m \<le> n \<Longrightarrow> live m evs"
  by (simp add: live_def)

lemma read_all_live:
  "live n evs \<Longrightarrow> m \<le> n \<Longrightarrow> m \<le> length incoming \<Longrightarrow> wanted = length received + m \<Longrightarrow>
   \<exists>evs'. read_all wanted received (incoming, evs)
      = Some (Inr (received @ take m incoming), drop m incoming, evs') \<and> live (n - m) evs'"
proof (induction evs arbitrary: n m received incoming)
  case Nil
  then show ?case by simp
next
  case (Cons ev evs)
  show ?case
  proof (cases "m = 0")
    case True
    with Cons.prems show ?thesis by (cases ev) auto
  next
    case False
    show ?thesis
    proof (cases ev)
      case (Fails e)
      with Cons False show ?thesis by auto
    next
      case (Upto k)
      let ?c = "min m (min k (length incoming))"
      have c: "0 < ?c" using Cons.prems False Upto by auto
      have "\<exists>evs'. read_all wanted (received @ take ?c incoming) (drop ?c incoming, evs)
          = Some (Inr ((received @ take ?c incoming) @ take (m - ?c) (drop ?c incoming)),
              drop (m - ?c) (drop ?c incoming), evs') \<and> live (n - 1 - (m - ?c)) evs'"
        by (rule Cons.IH) (use Cons.prems c Upto in auto)
      moreover have "take ?c incoming @ take (m - ?c) (drop ?c incoming) = take m incoming"
        using take_add [of ?c "m - ?c" incoming] by simp
      ultimately obtain evs' where
        "read_all wanted (received @ take ?c incoming) (drop ?c incoming, evs)
           = Some (Inr (received @ take m incoming), drop m incoming, evs')"
        "live (n - 1 - (m - ?c)) evs'" by (auto simp: add.commute)
      moreover have "n - m \<le> n - 1 - (m - ?c)" using c Cons.prems by linarith
      ultimately have "read_all wanted (received @ take ?c incoming) (drop ?c incoming, evs)
           = Some (Inr (received @ take m incoming), drop m incoming, evs')" "live (n - m) evs'"
        by (auto elim: live_mono)
      then show ?thesis using Upto False Cons.prems c by (auto simp: Let_def)
    qed
  qed
qed

lemma write_all_benign:
  "list_all benign evs \<Longrightarrow> \<exists>evs'. write_all data (sent, evs) = (Inr (), sent @ data, evs') \<and> list_all benign evs'"
proof (induction data "(sent, evs)" arbitrary: sent evs rule: write_all.induct)
  case (3 data sent k evs)
  then show ?case by (cases "data = []") force+
qed auto

text \<open>A frame that was sent is received unchanged, whatever the partial reads and writes,
  and what follows it on the stream is left there.\<close>

lemma send_control_frame_benign:
  assumes "valid_frame f" and "list_all benign evs"
  shows "\<exists>evs'. send_control_frame f (sent, evs) = (Inr (), sent @ frame_bytes f, evs') \<and> list_all benign evs'"
proof -
  obtain e1 where e1: "write_all (put_u32 (of_nat (length f))) (sent, evs)
      = (Inr (), sent @ put_u32 (of_nat (length f)), e1)" "list_all benign e1"
    using write_all_benign [OF assms(2)] by blast
  obtain e2 where "write_all f (sent @ put_u32 (of_nat (length f)), e1)
      = (Inr (), (sent @ put_u32 (of_nat (length f))) @ f, e2)" "list_all benign e2"
    using write_all_benign [OF e1(2)] by blast
  with e1(1) assms(1) show ?thesis
    by (simp add: send_control_frame_def frame_bytes_def valid_frame_def)
qed

lemma receive_control_frame_live:
  assumes "valid_frame f" and "live (4 + length f) evs"
  shows "\<exists>evs'. receive_control_frame (frame_bytes f @ rest, evs) = Some (Inr f, rest, evs')"
proof -
  obtain e1 where e1: "read_all 4 [] (frame_bytes f @ rest, evs)
      = Some (Inr (put_u32 (of_nat (length f))), f @ rest, e1)" "live (length f) e1"
    using read_all_live [OF assms(2), of 4 "frame_bytes f @ rest" 4 "[]"]
    by (auto simp: frame_bytes_def)
  have "0 < length f" "length f \<le> kMaxControlFrameSize"
    using assms(1) by (auto simp: valid_frame_def)
  with read_all_live [OF e1(2), of "length f" "f @ rest" "length f" "[]"] e1(1) show ?thesis
    by (auto simp: receive_control_frame_def host_order_put_u32 frame_size_u32 [OF assms(1)])
qed

section \<open>ControlStreamReader\<close>

record control_stream_reader =
  csr_buffer :: bytes
  csr_peer_closed :: bool

definition new_control_reader :: control_stream_reader where
  "new_control_reader = \<lparr>csr_buffer = [], csr_peer_closed = False\<rparr>"

text \<open>The first loop: receive until the socket would block or is closed. \<open>None\<close> in the result
  is a normal end, \<open>Some e\<close> the exception.\<close>

fun fill_buffer ::
  "control_stream_reader \<Rightarrow> in_socket \<Rightarrow> error option \<times> control_stream_reader \<times> in_socket" where
  "fill_buffer r (incoming, []) = (None, r, incoming, [])"
| "fill_buffer r (incoming, Fails e # evs) =
     (if e = EINTR then fill_buffer r (incoming, evs)
      else if e = EAGAIN then (None, r, incoming, evs)
      else (Some (Runtime_error (''recv control stream: '' @ strerror e)), r, incoming, evs))"
| "fill_buffer r (incoming, Upto k # evs) =
     (let count = min 4096 (min k (length incoming))
      in if count = 0 then (None, r\<lparr>csr_peer_closed := True\<rparr>, incoming, evs)
         else fill_buffer (r\<lparr>csr_buffer := csr_buffer r @ take count incoming\<rparr>)
                (drop count incoming, evs))"

text \<open>The second loop: cut the complete frames off the front of the buffer.\<close>

function parse_frames :: "bytes \<Rightarrow> (bytes list \<times> bytes) result" where
  "parse_frames buffer =
     (if length buffer < 4 then Inr ([], buffer)
      else let frame_size = unat (host_order (take 4 buffer) :: u32)
        in if frame_size = 0 \<or> frame_size > kMaxControlFrameSize
           then throw ''invalid control frame length''
           else if length buffer < 4 + frame_size then Inr ([], buffer)
           else bindE (parse_frames (drop (4 + frame_size) buffer)) (\<lambda>(frames, rest).
             Inr (take frame_size (drop 4 buffer) # frames, rest)))"
  by auto
termination
  by (relation "measure length") auto

declare parse_frames.simps [simp del]

definition read_frames ::
  "control_stream_reader \<Rightarrow> in_socket \<Rightarrow> bytes list result \<times> control_stream_reader \<times> in_socket" where
  "read_frames r s =
     (case fill_buffer r s of
        (Some e, r', s') \<Rightarrow> (Inl e, r', s')
      | (None, r', s') \<Rightarrow>
          (case parse_frames (csr_buffer r') of
             Inl e \<Rightarrow> (Inl e, r', s')
           | Inr (frames, rest) \<Rightarrow> (Inr frames, r'\<lparr>csr_buffer := rest\<rparr>, s')))"

subsection \<open>Parsing does not depend on the cuts\<close>

lemma parse_frames_short:
  "length b < 4 \<Longrightarrow> parse_frames b = Inr ([], b)"
  by (simp add: parse_frames.simps)

lemma parse_frames_frame:
  "valid_frame f \<Longrightarrow> parse_frames (frame_bytes f @ b) =
     bindE (parse_frames b) (\<lambda>(frames, rest). Inr (f # frames, rest))"
  by (subst parse_frames.simps)
    (auto simp: frame_bytes_def host_order_put_u32 frame_size_u32 valid_frame_def Let_def)

lemma parse_frames_stream:
  "list_all valid_frame fs \<Longrightarrow> parse_frames (concat (map frame_bytes fs) @ b) =
     bindE (parse_frames b) (\<lambda>(frames, rest). Inr (fs @ frames, rest))"
  by (induction fs)
    (auto simp: parse_frames_frame bindE_def split: sum.splits)

text \<open>What \<open>parse_frames\<close> leaves is what more input is appended to.\<close>

lemma parse_frames_append:
  "parse_frames b = Inr (fs, r) \<Longrightarrow> parse_frames (b @ c) =
     bindE (parse_frames (r @ c)) (\<lambda>(frames, rest). Inr (fs @ frames, rest))"
proof (induction b arbitrary: fs r rule: parse_frames.induct)
  case (1 b)
  let ?n = "unat (host_order (take 4 b) :: u32)"
  show ?case
  proof (cases "length b < 4 \<or> length b < 4 + ?n")
    case True
    with "1.prems" have "fs = [] \<and> r = b"
      by (auto simp: parse_frames.simps [of b] Let_def split: if_splits)
    then show ?thesis by (cases "parse_frames (b @ c)") auto
  next
    case False
    with "1.prems" obtain fs' where ok: "\<not> (?n = 0 \<or> ?n > kMaxControlFrameSize)"
      and rest: "parse_frames (drop (4 + ?n) b) = Inr (fs', r)"
      and fs: "fs = take ?n (drop 4 b) # fs'"
      by (subst (asm) parse_frames.simps) (auto simp: Let_def bindE_Inr_iff split: if_splits)
    have IH: "parse_frames (drop (4 + ?n) b @ c) =
        bindE (parse_frames (r @ c)) (\<lambda>(frames, rest). Inr (fs' @ frames, rest))"
      using "1.IH" False ok rest by blast
    have "parse_frames (b @ c) = bindE (parse_frames (drop (4 + ?n) b @ c))
        (\<lambda>(frames, rest). Inr (take ?n (drop 4 b) # frames, rest))"
      using False ok by (subst parse_frames.simps) (auto simp: Let_def)
    then show ?thesis by (cases "parse_frames (r @ c)") (auto simp: IH fs)
  qed
qed

subsection \<open>A session of reads\<close>

text \<open>The event loop calls \<open>read_frames\<close> each time the socket is readable and handles the
  frames it returns; an exception ends the use of this reader.\<close>

fun read_session ::
  "control_stream_reader \<Rightarrow> bytes \<Rightarrow> io_event list list \<Rightarrow> bytes list result \<times> control_stream_reader \<times> bytes"
where
  "read_session r incoming [] = (Inr [], r, incoming)"
| "read_session r incoming (evs # evss) =
     (case read_frames r (incoming, evs) of
        (Inl e, r', incoming', _) \<Rightarrow> (Inl e, r', incoming')
      | (Inr frames, r', incoming', _) \<Rightarrow>
          (case read_session r' incoming' evss of
             (res, r'', incoming'') \<Rightarrow> (bindE res (\<lambda>fs. Inr (frames @ fs)), r'', incoming'')))"

lemma fill_buffer_prefix:
  "fill_buffer r (incoming, evs) = (e, r', incoming', evs') \<Longrightarrow>
     csr_buffer r' @ incoming' = csr_buffer r @ incoming"
  by (induction r "(incoming, evs)" arbitrary: incoming evs rule: fill_buffer.induct)
    (auto simp: Let_def split: if_splits)

lemma parse_frames_rest: "parse_frames b = Inr (fs, r) \<Longrightarrow> parse_frames r = Inr ([], r)"
proof (induction b arbitrary: fs r rule: parse_frames.induct)
  case (1 b)
  let ?n = "unat (host_order (take 4 b) :: u32)"
  show ?case
  proof (cases "length b < 4 \<or> length b < 4 + ?n")
    case True
    with "1.prems" have "fs = [] \<and> r = b"
      by (auto simp: parse_frames.simps [of b] Let_def split: if_splits)
    with "1.prems" show ?thesis by simp
  next
    case False
    with "1.prems" obtain fs' where ok: "\<not> (?n = 0 \<or> ?n > kMaxControlFrameSize)"
      and rest: "parse_frames (drop (4 + ?n) b) = Inr (fs', r)"
      by (subst (asm) parse_frames.simps) (auto simp: Let_def bindE_Inr_iff split: if_splits)
    with "1.IH" False show ?thesis by blast
  qed
qed

lemma parse_frames_throws: "parse_frames b = Inl e \<Longrightarrow> parse_frames (b @ c) = Inl e"
proof (induction b rule: parse_frames.induct)
  case (1 b)
  let ?n = "unat (host_order (take 4 b) :: u32)"
  have long: "\<not> length b < 4" using "1.prems" by (auto simp: parse_frames.simps [of b])
  show ?case
  proof (cases "?n = 0 \<or> ?n > kMaxControlFrameSize")
    case True
    with "1.prems" long show ?thesis
      by (subst (asm) parse_frames.simps, subst parse_frames.simps) (auto simp: Let_def)
  next
    case False
    have enough: "\<not> length b < 4 + ?n"
      using "1.prems" long False by (subst (asm) parse_frames.simps) (auto simp: Let_def)
    have "parse_frames (drop (4 + ?n) b) = Inl e"
      using "1.prems" long False enough
      by (subst (asm) parse_frames.simps) (auto simp: Let_def bindE_def split: sum.splits)
    with "1.IH" long False enough have "parse_frames (drop (4 + ?n) b @ c) = Inl e" by blast
    with long False enough show ?thesis
      by (subst parse_frames.simps) (auto simp: Let_def)
  qed
qed

lemma read_frames_stream:
  assumes "read_frames r (incoming, evs) = (Inr frames, r', incoming', evs')"
  shows "parse_frames (csr_buffer r @ incoming) =
      bindE (parse_frames (csr_buffer r' @ incoming')) (\<lambda>(hs, rest). Inr (frames @ hs, rest))
    \<and> parse_frames (csr_buffer r') = Inr ([], csr_buffer r')"
proof -
  from assms obtain q where fill: "fill_buffer r (incoming, evs) = (None, q, incoming', evs')"
    and parse: "parse_frames (csr_buffer q) = Inr (frames, csr_buffer r')"
    by (auto simp: read_frames_def split: prod.splits option.splits sum.splits)
  show ?thesis
    using parse_frames_append [OF parse, of incoming'] fill_buffer_prefix [OF fill]
      parse_frames_rest [OF parse] by simp
qed

lemma read_session_stream:
  "read_session r incoming evss = (Inr frames, r', incoming') \<Longrightarrow>
   parse_frames (csr_buffer r) = Inr ([], csr_buffer r) \<Longrightarrow>
   parse_frames (csr_buffer r @ incoming) =
      bindE (parse_frames (csr_buffer r' @ incoming')) (\<lambda>(hs, rest). Inr (frames @ hs, rest))
    \<and> parse_frames (csr_buffer r') = Inr ([], csr_buffer r')"
proof (induction evss arbitrary: r incoming frames)
  case Nil
  then show ?case by (cases "parse_frames (csr_buffer r' @ incoming')") auto
next
  case (Cons evs evss)
  from Cons.prems(1) obtain f1 r1 i1 e1 f2 where
    one: "read_frames r (incoming, evs) = (Inr f1, r1, i1, e1)"
    and rest: "read_session r1 i1 evss = (Inr f2, r', incoming')" and frames: "frames = f1 @ f2"
    by (auto simp: bindE_Inr_iff split: prod.splits sum.splits)
  note s1 = read_frames_stream [OF one]
  note s2 = Cons.IH [OF rest conjunct2 [OF s1]]
  show ?case
    using s1 s2 by (cases "parse_frames (csr_buffer r' @ incoming')") (auto simp: frames)
qed

text \<open>A schedule of a non-blocking socket on which nothing but interruption and
  would-block is reported.\<close>

fun calm :: "io_event \<Rightarrow> bool" where
  "calm (Fails e) \<longleftrightarrow> e = EINTR \<or> e = EAGAIN"
| "calm (Upto k) \<longleftrightarrow> True"

lemma fill_buffer_calm: "list_all calm evs \<Longrightarrow> fst (fill_buffer r (incoming, evs)) = None"
  by (induction evs arbitrary: r incoming rule: list.induct)
    (auto simp: Let_def split: io_event.split elim!: calm.elims)

lemma read_session_calm:
  "list_all (list_all calm) evss \<Longrightarrow> parse_frames (csr_buffer r @ incoming) = Inr res \<Longrightarrow>
     \<exists>frames r' incoming'. read_session r incoming evss = (Inr frames, r', incoming')"
proof (induction evss arbitrary: r incoming res)
  case Nil
  then show ?case by simp
next
  case (Cons evs evss)
  obtain q i1 e1 where fill: "fill_buffer r (incoming, evs) = (None, q, i1, e1)"
    using fill_buffer_calm [of evs r incoming] Cons.prems(1)
    by (cases "fill_buffer r (incoming, evs)") auto
  have "parse_frames (csr_buffer q @ i1) = Inr res"
    using Cons.prems(2) fill_buffer_prefix [OF fill] by simp
  then obtain f1 b1 where parse: "parse_frames (csr_buffer q) = Inr (f1, b1)"
    using parse_frames_throws [of "csr_buffer q" _ i1] by (cases "parse_frames (csr_buffer q)") auto
  have one: "read_frames r (incoming, evs) = (Inr f1, q\<lparr>csr_buffer := b1\<rparr>, i1, e1)"
    by (simp add: read_frames_def fill parse)
  from read_frames_stream [OF one] Cons.prems(2) obtain res' where
    "parse_frames (csr_buffer (q\<lparr>csr_buffer := b1\<rparr>) @ i1) = Inr res'"
    by (cases "parse_frames (b1 @ i1)") auto
  with Cons.IH [of "q\<lparr>csr_buffer := b1\<rparr>" i1 res'] Cons.prems(1) one show ?case by auto
qed

section \<open>Properties\<close>

text \<open>C14: A blocking control connection is transparent to partial transfers. When interruptions are
  the only failures, sending a frame puts exactly its length and bytes on the stream, however the
  calls split it, and receiving takes exactly that frame off, leaving what follows it.\<close>

theorem control_frame_transfer:
  assumes "valid_frame f" and "list_all benign evs" and "live (4 + length f) evs'"
  shows "(\<exists>e. send_control_frame f (sent, evs) = (Inr (), sent @ frame_bytes f, e))
    \<and> (\<exists>e. receive_control_frame (frame_bytes f @ rest, evs') = Some (Inr f, rest, e))"
  using send_control_frame_benign [OF assms(1,2)] receive_control_frame_live [OF assms(1,3)] by blast

theorem control_frame_transfer_witness:
  "(\<exists>e. send_control_frame [7, 8] ([1], [Fails EINTR, Upto 3, Upto 1, Upto 1]) = (Inr (), [1] @ frame_bytes [7, 8], e))
    \<and> (\<exists>e. receive_control_frame (frame_bytes [7, 8] @ [9], [Upto 1, Upto 1, Upto 1, Upto 1, Upto 1, Upto 1]) = Some (Inr [7, 8], [9], e))"
  by (rule control_frame_transfer) (simp_all add: valid_frame_def kMaxControlFrameSize_def)

text \<open>C15: A failed send leaves a proper prefix. Whatever the calls do, what is on the stream after
  sending a frame is a prefix of its length and bytes, all of it exactly when no exception was
  thrown; a frame of invalid size is refused before anything is sent.\<close>

theorem control_frame_send_prefix:
  assumes "send_control_frame f (sent, evs) = (res, sent', evs')"
  shows "(valid_frame f \<longrightarrow> (\<exists>n \<le> length (frame_bytes f). sent' = sent @ take n (frame_bytes f)
      \<and> (is_ok res \<longleftrightarrow> n = length (frame_bytes f))))
    \<and> (\<not> valid_frame f \<longrightarrow> \<not> is_ok res \<and> sent' = sent)"
proof (cases "valid_frame f")
  case True
  let ?h = "put_u32 (of_nat (length f))"
  obtain r1 s1 e1 where w1: "write_all ?h (sent, evs) = (r1, s1, e1)" by (cases "write_all ?h (sent, evs)") auto
  obtain n1 where n1: "s1 = sent @ take n1 ?h" "is_ok r1 \<longleftrightarrow> n1 = 4" "n1 \<le> 4"
    using write_all_prefix [OF w1] by auto
  show ?thesis
  proof (cases r1)
    case (Inl e)
    with assms True w1 have "res = Inl e \<and> sent' = s1"
      by (auto simp: send_control_frame_def valid_frame_def)
    with n1 Inl True show ?thesis
      by (auto simp: frame_bytes_def valid_frame_def intro!: exI [of _ n1])
  next
    case (Inr u)
    then have s1: "s1 = sent @ ?h" using n1 by simp
    obtain r2 s2 e2 where w2: "write_all f (s1, e1) = (r2, s2, e2)" by (cases "write_all f (s1, e1)") auto
    obtain n2 where n2: "s2 = s1 @ take n2 f" "is_ok r2 \<longleftrightarrow> n2 = length f" "n2 \<le> length f"
      using write_all_prefix [OF w2] by auto
    from assms True w1 w2 Inr have "res = r2 \<and> sent' = s2"
      by (auto simp: send_control_frame_def valid_frame_def)
    with n2 s1 True show ?thesis
      by (auto simp: frame_bytes_def intro!: exI [of _ "4 + n2"])
  qed
next
  case False
  with assms show ?thesis by (auto simp: send_control_frame_invalid)
qed

theorem control_frame_send_prefix_witness:
  "\<not> is_ok (fst (send_control_frame [7, 8] ([], [Upto 3, Fails EAGAIN])))
    \<and> (\<exists>n < 6. fst (snd (send_control_frame [7, 8] ([], [Upto 3, Fails EAGAIN]))) = take n (frame_bytes [7, 8]))"
proof -
  obtain res sent' evs' where run: "send_control_frame [7, 8] ([], [Upto 3, Fails EAGAIN]) = (res, sent', evs')"
    by (cases "send_control_frame [7, 8] ([], [Upto 3, Fails EAGAIN])") auto
  have "put_u32 2 = [0, 0, 0, 2]" by code_simp
  then have "\<not> is_ok res"
    using run by (auto simp: send_control_frame_def system_error_def kMaxControlFrameSize_def)
  with control_frame_send_prefix [OF run] run show ?thesis
    by (auto simp: valid_frame_def kMaxControlFrameSize_def intro: le_neq_implies_less)
qed

text \<open>C13: The non-blocking reader reassembles the stream. However the network cuts a sequence of
  frames and however the wake-ups and interruptions fall, \<open>ControlStreamReader\<close> does not throw, and
  what it has returned so far is a prefix of the frames sent; once everything has been received it
  is all of them, and the buffer is empty.\<close>

theorem control_stream_reassembly:
  assumes "list_all valid_frame fs" and "list_all (list_all calm) evss"
  shows "\<exists>frames r incoming. read_session new_control_reader (concat (map frame_bytes fs)) evss = (Inr frames, r, incoming)
    \<and> (\<exists>later. fs = frames @ later) \<and> (incoming = [] \<longrightarrow> frames = fs \<and> csr_buffer r = [])"
proof -
  have new: "csr_buffer new_control_reader = []" by (simp add: new_control_reader_def)
  have all: "parse_frames (concat (map frame_bytes fs)) = Inr (fs, [])"
    using parse_frames_stream [OF assms(1), of "[]"] by (simp add: parse_frames_short)
  then obtain frames r incoming where
    run: "read_session new_control_reader (concat (map frame_bytes fs)) evss = (Inr frames, r, incoming)"
    using read_session_calm [OF assms(2)] new by (metis append_Nil)
  from read_session_stream [OF run] new all
  have "Inr (fs, []) = bindE (parse_frames (csr_buffer r @ incoming)) (\<lambda>(hs, rest). Inr (frames @ hs, rest))"
    and rest: "parse_frames (csr_buffer r) = Inr ([], csr_buffer r)"
    by (simp_all add: parse_frames_short)
  then obtain hs where "fs = frames @ hs" and "parse_frames (csr_buffer r @ incoming) = Inr (hs, [])"
    by (cases "parse_frames (csr_buffer r @ incoming)") auto
  with rest run show ?thesis by auto
qed

theorem control_stream_reassembly_witness:
  "\<exists>frames r incoming. read_session new_control_reader (concat (map frame_bytes [[1], [2, 3]]))
      [[Upto 3, Fails EAGAIN], [Fails EINTR, Upto 5, Fails EAGAIN], [Upto 100]] = (Inr frames, r, incoming)
    \<and> (\<exists>later. [[1], [2, 3]] = frames @ later) \<and> (incoming = [] \<longrightarrow> frames = [[1], [2, 3]] \<and> csr_buffer r = [])"
  by (rule control_stream_reassembly) (simp_all add: valid_frame_def kMaxControlFrameSize_def)

end
