(* ===== verification/Numbers.thy ===== *)
theory Numbers
  imports Prelude
begin

text \<open>
  Text and numbers, as the standard library reads and writes them for this program:
  \<open>std::to_string\<close> and \<open>operator<<\<close> on unsigned integers, \<open>strtoul\<close>/\<open>strtoull\<close> (64-bit on
  the program's platform), and the extractions \<open>>>\<close> of a word, of an unsigned number and of
  a \<open>std::quoted\<close> string from an input stream. A stream is the text left to read; an
  extraction that sets the fail bit is \<open>None\<close>. The lemmas are the round trips of each pair.
\<close>

section \<open>Characters\<close>

definition char_code :: "char \<Rightarrow> nat" where
  "char_code c = of_char c"

definition is_digit :: "char \<Rightarrow> bool" where
  "is_digit c \<longleftrightarrow> 48 \<le> char_code c \<and> char_code c \<le> 57"

text \<open>\<open>isspace\<close> in the "C" locale: the codes 9 to 13 and the blank.\<close>

definition is_space :: "char \<Rightarrow> bool" where
  "is_space c \<longleftrightarrow> char_code c = 32 \<or> (9 \<le> char_code c \<and> char_code c \<le> 13)"

definition digit_char :: "nat \<Rightarrow> char" where
  "digit_char d = char_of (48 + d)"

definition digit_value :: "char \<Rightarrow> nat" where
  "digit_value c = char_code c - 48"

lemma char_code_digit_char: "d < 10 \<Longrightarrow> char_code (digit_char d) = 48 + d"
  by (simp add: char_code_def digit_char_def)

lemma digit_char_props:
  assumes "d < 10"
  shows "is_digit (digit_char d)" "digit_value (digit_char d) = d" "\<not> is_space (digit_char d)"
    "digit_char d \<noteq> CHR ''-''" "digit_char d \<noteq> CHR ''+''"
proof -
  note code = char_code_digit_char [OF assms]
  show "is_digit (digit_char d)" "digit_value (digit_char d) = d" "\<not> is_space (digit_char d)"
    using assms code by (simp_all add: is_digit_def digit_value_def is_space_def)
  have "char_code (CHR ''-'') = 45" "char_code (CHR ''+'') = 43"
    by (simp_all add: char_code_def)
  with code show "digit_char d \<noteq> CHR ''-''" "digit_char d \<noteq> CHR ''+''" by auto
qed

section \<open>Decimal numbers\<close>

fun print_dec :: "nat \<Rightarrow> string" where
  "print_dec n = (if n < 10 then [digit_char n] else print_dec (n div 10) @ [digit_char (n mod 10)])"

declare print_dec.simps [simp del]

definition digits_value :: "string \<Rightarrow> nat" where
  "digits_value ds = foldl (\<lambda>n c. 10 * n + digit_value c) 0 ds"

lemma print_dec_digits: "list_all is_digit (print_dec n)"
  by (induction n rule: print_dec.induct) (subst print_dec.simps, simp add: digit_char_props)

lemma digits_value_print_dec [simp]: "digits_value (print_dec n) = n"
proof (induction n rule: print_dec.induct)
  case (1 n)
  then show ?case
    by (subst print_dec.simps) (auto simp: digits_value_def digit_char_props)
qed

lemma print_dec_Cons: "\<exists>d ds. print_dec n = digit_char d # ds \<and> d < 10"
proof (induction n rule: print_dec.induct)
  case (1 n)
  show ?case
  proof (cases "n < 10")
    case True
    then show ?thesis by (auto simp: print_dec.simps)
  next
    case False
    with 1 obtain d ds where "print_dec (n div 10) = digit_char d # ds" "d < 10" by auto
    with False show ?thesis by (subst print_dec.simps) auto
  qed
qed

lemma print_dec_not_Nil [simp]: "print_dec n \<noteq> []"
  using print_dec_Cons [of n] by auto

lemma hd_print_dec: "\<not> is_space (hd (print_dec n))" "hd (print_dec n) \<noteq> CHR ''-''"
    "hd (print_dec n) \<noteq> CHR ''+''"
  using print_dec_Cons [of n] digit_char_props by auto

definition no_digit :: "string \<Rightarrow> bool" where
  "no_digit s \<longleftrightarrow> (case s of [] \<Rightarrow> True | c # _ \<Rightarrow> \<not> is_digit c)"

lemma takeWhile_print_dec:
  "no_digit rest \<Longrightarrow> takeWhile is_digit (print_dec n @ rest) = print_dec n"
  "no_digit rest \<Longrightarrow> dropWhile is_digit (print_dec n @ rest) = rest"
  using print_dec_digits [of n]
  by (auto simp: takeWhile_append2 dropWhile_append2 list_all_iff no_digit_def split: list.splits)

section \<open>strtoul and strtoull\<close>

text \<open>The optional sign of the C and stream number formats.\<close>

definition take_sign :: "string \<Rightarrow> bool \<times> string" where
  "take_sign s = (case s of
      [] \<Rightarrow> (False, [])
    | c # cs \<Rightarrow> if c = CHR ''-'' then (True, cs) else if c = CHR ''+'' then (False, cs) else (False, s))"

text \<open>\<open>std::strtoull(nptr, &end, 10)\<close>: the value, the text from \<open>end\<close> on, and whether
  \<open>errno\<close> became \<open>ERANGE\<close>. Without a digit there is no conversion and \<open>end\<close> is \<open>nptr\<close>. A
  minus sign negates the value in the unsigned type.\<close>

definition strtoull :: "string \<Rightarrow> u64 \<times> string \<times> bool" where
  "strtoull nptr =
     (let (negative, s) = take_sign (dropWhile is_space nptr);
          digits = takeWhile is_digit s; rest = dropWhile is_digit s; n = digits_value digits
      in if digits = [] then (0, nptr, False)
         else if n > 18446744073709551615 then (18446744073709551615, rest, True)
         else (if negative then - of_nat n else of_nat n, rest, False))"

lemma take_sign_print_dec [simp]: "take_sign (print_dec n @ rest) = (False, print_dec n @ rest)"
  using hd_print_dec [of n] print_dec_Cons [of n] by (auto simp: take_sign_def)

lemma dropWhile_space_print_dec [simp]: "dropWhile is_space (print_dec n @ rest) = print_dec n @ rest"
  using hd_print_dec [of n] print_dec_Cons [of n] by auto

lemma strtoull_print_dec:
  "n < 18446744073709551616 \<Longrightarrow> no_digit rest \<Longrightarrow> strtoull (print_dec n @ rest) = (of_nat n, rest, False)"
  by (simp add: strtoull_def takeWhile_print_dec)

section \<open>Extraction from a stream\<close>

type_synonym 'a extraction = "string \<Rightarrow> ('a \<times> string) option"

definition skip_ws :: "string \<Rightarrow> string" where
  "skip_ws s = dropWhile is_space s"

text \<open>\<open>input >> std::string\<close>: the next word.\<close>

definition extract_word :: "string extraction" where
  "extract_word s =
     (let s' = skip_ws s in
      if s' = [] then None
      else Some (takeWhile (\<lambda>c. \<not> is_space c) s', dropWhile (\<lambda>c. \<not> is_space c) s'))"

text \<open>\<open>input >> n\<close> for an unsigned type of the given largest value, and for \<open>int\<close>.\<close>

definition extract_nat :: "nat \<Rightarrow> (bool \<times> nat) extraction" where
  "extract_nat limit s =
     (let (negative, s') = take_sign (skip_ws s);
          digits = takeWhile is_digit s'; n = digits_value digits
      in if digits = [] \<or> n > limit then None
         else Some ((negative, n), dropWhile is_digit s'))"

definition extract_u32 :: "u32 extraction" where
  "extract_u32 s = map_option (\<lambda>((negative, n), r). (if negative then - of_nat n else of_nat n, r))
     (extract_nat 4294967295 s)"

definition extract_u64 :: "u64 extraction" where
  "extract_u64 s = map_option (\<lambda>((negative, n), r). (if negative then - of_nat n else of_nat n, r))
     (extract_nat 18446744073709551615 s)"

definition extract_int :: "int extraction" where
  "extract_int s = Option.bind (extract_nat 2147483648 s) (\<lambda>((negative, n), r).
     if negative then Some (- int n, r) else if n = 2147483648 then None else Some (int n, r))"

text \<open>\<open>std::quoted\<close>: written between quotes with a backslash before quotes and backslashes; read
  back up to the closing quote. Text that does not start with a quote is read as a word.\<close>

fun quoted_body :: "string \<Rightarrow> string" where
  "quoted_body [] = [CHR 0x22]"
| "quoted_body (c # cs) =
     (if c = CHR 0x22 \<or> c = CHR 0x5C then CHR 0x5C # c # quoted_body cs else c # quoted_body cs)"

definition print_quoted :: "string \<Rightarrow> string" where
  "print_quoted s = CHR 0x22 # quoted_body s"

fun unquote :: "string extraction" where
  "unquote [] = None"
| "unquote [c] = (if c = CHR 0x22 then Some ([], []) else None)"
| "unquote (c # d # s) =
     (if c = CHR 0x22 then Some ([], d # s)
      else if c = CHR 0x5C then map_option (\<lambda>(t, r). (d # t, r)) (unquote s)
      else map_option (\<lambda>(t, r). (c # t, r)) (unquote (d # s)))"

definition extract_quoted :: "string extraction" where
  "extract_quoted s = (case skip_ws s of
      [] \<Rightarrow> None
    | c # cs \<Rightarrow> if c = CHR 0x22 then unquote cs else extract_word (c # cs))"

subsection \<open>Round trips\<close>

lemma space_newline [simp]: "is_space (CHR 0x0A)" "\<not> is_digit (CHR 0x0A)"
  by (simp_all add: is_space_def is_digit_def char_code_def)

lemma space_blank [simp]: "is_space (CHR '' '')" "\<not> is_digit (CHR '' '')"
  by (simp_all add: is_space_def is_digit_def char_code_def)

lemma skip_ws_newline [simp]: "skip_ws (CHR 0x0A # s) = skip_ws s"
  by (simp add: skip_ws_def)

definition is_word :: "string \<Rightarrow> bool" where
  "is_word w \<longleftrightarrow> w \<noteq> [] \<and> list_all (\<lambda>c. \<not> is_space c) w"

definition ends_word :: "string \<Rightarrow> bool" where
  "ends_word s \<longleftrightarrow> (case s of [] \<Rightarrow> True | c # _ \<Rightarrow> is_space c)"

lemma ends_word_newline [simp]: "ends_word (CHR 0x0A # s)" "no_digit (CHR 0x0A # s)"
  by (simp_all add: ends_word_def no_digit_def)

lemma skip_ws_word: "is_word w \<Longrightarrow> skip_ws (w @ s) = w @ s"
  by (cases w) (auto simp: is_word_def skip_ws_def)

lemma extract_word_append: "is_word w \<Longrightarrow> ends_word s \<Longrightarrow> extract_word (w @ s) = Some (w, s)"
  by (auto simp: extract_word_def skip_ws_word is_word_def takeWhile_append2 dropWhile_append2
      list_all_iff ends_word_def split: list.splits)

lemma is_word_print_dec: "is_word (print_dec n)"
proof -
  have "is_digit c \<Longrightarrow> \<not> is_space c" for c by (auto simp: is_digit_def is_space_def)
  with print_dec_digits [of n] show ?thesis by (auto simp: is_word_def list_all_iff)
qed

lemma extract_nat_print:
  "n \<le> limit \<Longrightarrow> no_digit s \<Longrightarrow> extract_nat limit (print_dec n @ s) = Some ((False, n), s)"
  by (simp add: extract_nat_def skip_ws_def takeWhile_print_dec)

lemma extract_u32_print: "no_digit s \<Longrightarrow> extract_u32 (print_dec (unat n) @ s) = Some (n, s)"
  using unat_u32_less [of n] by (simp add: extract_u32_def extract_nat_print)

lemma extract_u64_print: "no_digit s \<Longrightarrow> extract_u64 (print_dec (unat n) @ s) = Some (n, s)"
  using unat_u64_less [of n] by (simp add: extract_u64_def extract_nat_print)

lemma extract_int_print:
  "n < 2147483648 \<Longrightarrow> no_digit s \<Longrightarrow> extract_int (print_dec n @ s) = Some (int n, s)"
  by (simp add: extract_int_def extract_nat_print)

lemma extract_newline:
  "extract_word (CHR 0x0A # s) = extract_word s" "extract_u32 (CHR 0x0A # s) = extract_u32 s"
  "extract_u64 (CHR 0x0A # s) = extract_u64 s" "extract_quoted (CHR 0x0A # s) = extract_quoted s"
  by (simp_all add: extract_word_def extract_u32_def extract_u64_def extract_nat_def
      extract_quoted_def)

lemma unquote_body: "unquote (quoted_body t @ s) = Some (t, s)"
proof (induction t)
  case Nil
  then show ?case by (cases s) auto
next
  case (Cons c t)
  obtain d ds where q: "quoted_body t @ s = d # ds"
    by (cases "quoted_body t @ s") (auto elim: quoted_body.elims split: if_splits)
  with Cons show ?case by (auto simp del: quoted_body.simps(1))
qed

lemma extract_quoted_print: "extract_quoted (print_quoted t @ s) = Some (t, s)"
proof -
  have "\<not> is_space (CHR 0x22)" by (simp add: is_space_def char_code_def)
  then show ?thesis by (simp add: extract_quoted_def print_quoted_def skip_ws_def unquote_body)
qed

end
