(* ===== verification/Sections.thy ===== *)
theory Sections
  imports Control_Central
begin

text \<open>
  The missing-block bitmap and the Section arithmetic of \<open>include/protocol.hpp\<close>. Block and
  Section numbers are 32-bit words, and \<open>*\<close>, \<open>+\<close> and \<open>-\<close> wrap as in the code.

  The locale \<open>bitset\<close> is the contract of the bitmap (test, set, size): what receivers and
  proxy rely on when one builds a bitmap bit by bit and the other counts it. Its lemma on
  building a bitmap from a list of indexes is proved once and used by both. The Section lemmas
  show that, as long as the block count does not wrap, every block lies in exactly one
  Section, at one local index.
\<close>

section \<open>Bitmap\<close>

definition bitmap_test :: "bytes \<Rightarrow> u32 \<Rightarrow> bool result" where
  "bitmap_test bitmap block_id =
     (let byte_index = unat (block_id div 8); bit_index = unat (block_id mod 8)
      in if byte_index \<ge> length bitmap then throw ''bitmap index out of range''
         else Inr (bitmap ! byte_index AND push_bit bit_index 1 \<noteq> 0))"

definition bitmap_set :: "bytes \<Rightarrow> u32 \<Rightarrow> bytes result" where
  "bitmap_set bitmap block_id =
     (let byte_index = unat (block_id div 8); bit_index = unat (block_id mod 8)
      in if byte_index \<ge> length bitmap then throw ''bitmap index out of range''
         else Inr (bitmap[byte_index := bitmap ! byte_index OR push_bit bit_index 1]))"

definition bitmap_size_for_blocks :: "u32 \<Rightarrow> nat" where
  "bitmap_size_for_blocks total_blocks = (unat total_blocks + 7) div 8"

locale bitset =
  fixes test :: "'b \<Rightarrow> u32 \<Rightarrow> bool result" and ins :: "'b \<Rightarrow> u32 \<Rightarrow> 'b result"
    and cap :: "'b \<Rightarrow> nat"
  assumes test_ok: "unat i < cap b \<Longrightarrow> \<exists>v. test b i = Inr v"
    and ins_ok: "unat i < cap b \<Longrightarrow> \<exists>b'. ins b i = Inr b'"
    and test_ins: "ins b i = Inr b' \<Longrightarrow> unat j < cap b \<Longrightarrow>
      test b' j = (if j = i then Inr True else test b j)"
    and cap_ins: "ins b i = Inr b' \<Longrightarrow> cap b' = cap b"
begin

text \<open>Setting the bits of a list of indexes within the capacity succeeds, and afterwards exactly
  these bits are set beside those that were set before.\<close>

lemma ins_all_ok:
  "list_all (\<lambda>i. unat i < cap b) is \<Longrightarrow> \<exists>b'. foldE (\<lambda>i b. ins b i) is b = Inr b' \<and> cap b' = cap b"
proof (induction "is" arbitrary: b)
  case Nil
  then show ?case by simp
next
  case (Cons i "is")
  then obtain b1 where b1: "ins b i = Inr b1" using ins_ok [of i b] by auto
  then have cap: "cap b1 = cap b" by (rule cap_ins)
  with Cons.prems have "list_all (\<lambda>i. unat i < cap b1) is" by simp
  from Cons.IH [OF this] b1 cap show ?case by simp
qed

lemma test_ins_all:
  "foldE (\<lambda>i b. ins b i) is b = Inr b' \<Longrightarrow> unat j < cap b \<Longrightarrow>
     test b' j = (if j \<in> set is then Inr True else test b j)"
proof (induction "is" arbitrary: b)
  case Nil
  then show ?case by simp
next
  case (Cons i "is")
  then obtain b1 where b1: "ins b i = Inr b1" "foldE (\<lambda>i b. ins b i) is b1 = Inr b'"
    by (auto simp: bindE_Inr_iff)
  have "unat j < cap b1" using cap_ins [OF b1(1)] Cons.prems by simp
  from Cons.IH [OF b1(2) this] test_ins [OF b1(1) Cons.prems(2)] show ?case by auto
qed

end

text \<open>The bit that stands for block \<open>n\<close>, and the two operations in terms of it.\<close>

definition bitmap_bit :: "bytes \<Rightarrow> nat \<Rightarrow> bool" where
  "bitmap_bit bitmap n \<longleftrightarrow> bit (bitmap ! (n div 8)) (n mod 8)"

lemma bitmap_test_eq:
  "bitmap_test bitmap i =
     (if unat i < 8 * length bitmap then Inr (bitmap_bit bitmap (unat i))
      else throw ''bitmap index out of range'')"
proof -
  have "unat i div 8 < length bitmap \<longleftrightarrow> unat i < 8 * length bitmap" by linarith
  then show ?thesis
    by (auto simp: bitmap_test_def bitmap_bit_def Let_def and_exp_eq_0_iff_not_bit unat_div unat_mod)
qed

lemma bitmap_set_eq:
  "bitmap_set bitmap i =
     (if unat i < 8 * length bitmap
      then Inr (bitmap[unat i div 8 := bitmap ! (unat i div 8) OR push_bit (unat i mod 8) 1])
      else throw ''bitmap index out of range'')"
proof -
  have "unat i div 8 < length bitmap \<longleftrightarrow> unat i < 8 * length bitmap" by linarith
  then show ?thesis
    by (auto simp: bitmap_set_def Let_def unat_div unat_mod)
qed

interpretation bitmap: bitset bitmap_test bitmap_set "\<lambda>b. 8 * length b"
proof
  show "\<exists>v. bitmap_test b i = Inr v" if "unat i < 8 * length b" for i b
    using that by (simp add: bitmap_test_eq)
  show "\<exists>b'. bitmap_set b i = Inr b'" if "unat i < 8 * length b" for i b
    using that by (simp add: bitmap_set_eq)
  show "8 * length b' = 8 * length b" if "bitmap_set b i = Inr b'" for b i b'
    using that by (auto simp: bitmap_set_eq split: if_splits)
  show "bitmap_test b' j = (if j = i then Inr True else bitmap_test b j)"
    if "bitmap_set b i = Inr b'" "unat j < 8 * length b" for b i b' j
  proof -
    have i: "unat i < 8 * length b"
      and b': "b' = b[unat i div 8 := b ! (unat i div 8) OR push_bit (unat i mod 8) 1]"
      using that(1) by (auto simp: bitmap_set_eq split: if_splits)
    have bit: "bit ((x :: byte) OR push_bit (unat i mod 8) 1) n \<longleftrightarrow> n = unat i mod 8 \<or> bit x n"
      if "n < 8" for x n using that by (auto simp: bit_simps)
    have "bitmap_bit b' (unat j) \<longleftrightarrow> j = i \<or> bitmap_bit b (unat j)"
    proof (cases "unat j div 8 = unat i div 8")
      case True
      have "unat j mod 8 = unat i mod 8 \<longleftrightarrow> j = i"
        using True by (metis div_mod_decomp word_unat_eq_iff)
      moreover have "bitmap_bit b' (unat j) \<longleftrightarrow>
          bit (b ! (unat i div 8) OR push_bit (unat i mod 8) 1) (unat j mod 8)"
        using i True by (simp add: bitmap_bit_def b')
      ultimately show ?thesis using True bit [of "unat j mod 8" "b ! (unat i div 8)"]
        by (auto simp: bitmap_bit_def)
    next
      case False
      then have "j \<noteq> i" by auto
      with False show ?thesis by (simp add: bitmap_bit_def b')
    qed
    then show ?thesis using that(2) by (auto simp: bitmap_test_eq b')
  qed
qed

lemma bitmap_zero: "unat j < 8 * n \<Longrightarrow> bitmap_test (replicate n 0) j = Inr False"
proof -
  assume j: "unat j < 8 * n"
  then have "unat j div 8 < n" by linarith
  with j show ?thesis by (simp add: bitmap_test_eq bitmap_bit_def)
qed

lemma bitmap_size_covers: "n \<le> 8 * ((n + 7) div 8)" for n :: nat
  by linarith

section \<open>Section arithmetic\<close>

definition validate_section_block_count :: "u32 \<Rightarrow> unit result" where
  "validate_section_block_count section_blocks =
     (if section_blocks = 0 then throw ''section block count must not be zero'' else Inr ())"

definition section_id_for_block :: "u32 \<Rightarrow> u32 \<Rightarrow> u32 result" where
  "section_id_for_block block_id section_blocks =
     bindE (validate_section_block_count section_blocks) (\<lambda>_. Inr (block_id div section_blocks))"

definition section_first_block :: "u32 \<Rightarrow> u32 \<Rightarrow> u32 result" where
  "section_first_block section_id section_blocks =
     bindE (validate_section_block_count section_blocks) (\<lambda>_. Inr (section_id * section_blocks))"

definition section_count_for_blocks :: "u32 \<Rightarrow> u32 \<Rightarrow> u32 result" where
  "section_count_for_blocks total_blocks section_blocks =
     bindE (validate_section_block_count section_blocks) (\<lambda>_.
       if total_blocks = 0 then Inr 0
       else Inr ((total_blocks + section_blocks - 1) div section_blocks))"

definition section_block_count :: "u32 \<Rightarrow> u32 \<Rightarrow> u32 \<Rightarrow> u32 result" where
  "section_block_count total_blocks section_id section_blocks =
     bindE (validate_section_block_count section_blocks) (\<lambda>_.
     bindE (section_first_block section_id section_blocks) (\<lambda>first.
       if first \<ge> total_blocks then throw ''section_id out of range''
       else Inr (min section_blocks (total_blocks - first))))"

lemmas section_defs = validate_section_block_count_def section_id_for_block_def
  section_first_block_def section_count_for_blocks_def section_block_count_def

text \<open>The same quantities over natural numbers: how many Sections a file of \<open>total\<close> blocks has,
  and which block numbers Section \<open>s\<close> holds.\<close>

definition sections :: "nat \<Rightarrow> nat \<Rightarrow> nat" where
  "sections tot sb = (tot + sb - 1) div sb"

definition section_len :: "nat \<Rightarrow> nat \<Rightarrow> nat \<Rightarrow> nat" where
  "section_len tot sb s = min sb (tot - s * sb)"

definition section_range :: "nat \<Rightarrow> nat \<Rightarrow> nat \<Rightarrow> nat list" where
  "section_range tot sb s = [s * sb ..< s * sb + section_len tot sb s]"

lemma less_sections_iff: "0 < sb \<Longrightarrow> s < sections tot sb \<longleftrightarrow> s * sb < tot"
proof -
  assume sb: "0 < sb"
  have "s < sections tot sb \<longleftrightarrow> Suc s \<le> (tot + sb - 1) div sb" by (simp add: sections_def Suc_le_eq)
  also have "\<dots> \<longleftrightarrow> Suc s * sb \<le> tot + sb - 1" using sb by (simp add: less_eq_div_iff_mult_less_eq)
  also have "\<dots> \<longleftrightarrow> s * sb < tot" using sb by auto
  finally show ?thesis .
qed

lemma concat_section_ranges:
  "0 < sb \<Longrightarrow> n \<le> sections tot sb \<Longrightarrow>
     concat (map (section_range tot sb) [0..<n]) = [0..<min tot (n * sb)]"
proof (induction n)
  case 0
  then show ?case by simp
next
  case (Suc n)
  then have lt: "n * sb < tot" using less_sections_iff [of sb n tot] by simp
  have "[0..<n * sb] @ [n * sb..<n * sb + section_len tot sb n] = [0..<n * sb + section_len tot sb n]"
    by (rule upt_add_eq_append [symmetric, of 0, simplified])
  moreover have "n * sb + section_len tot sb n = min tot (Suc n * sb)"
    using lt by (simp add: section_len_def)
  ultimately show ?case using Suc lt by (simp add: section_range_def)
qed

lemma sections_cover: "0 < sb \<Longrightarrow> tot \<le> sections tot sb * sb"
  using less_sections_iff [of sb "sections tot sb" tot] by simp

lemma unat_sb_pos: "sb \<noteq> 0 \<Longrightarrow> 0 < unat (sb :: u32)"
  by (simp add: unat_gt_0)

lemma section_count_no_wrap:
  assumes "sb \<noteq> 0" and "unat tot + unat sb \<le> 2 ^ 32"
  shows "section_count_for_blocks tot sb = Inr (of_nat (sections (unat tot) (unat sb)))"
    and "unat (of_nat (sections (unat tot) (unat sb)) :: u32) = sections (unat tot) (unat sb)"
proof -
  have pos: "0 < unat sb" using assms(1) by (rule unat_sb_pos)
  have "sections (unat tot) (unat sb) \<le> unat tot + unat sb - 1"
    by (simp add: sections_def)
  then have small: "sections (unat tot) (unat sb) < 2 ^ 32" using assms(2) pos by linarith
  then show "unat (of_nat (sections (unat tot) (unat sb)) :: u32) = sections (unat tot) (unat sb)"
    by (simp add: unat_of_nat_u32)
  have "unat (tot + sb - 1) = unat tot + unat sb - 1"
  proof -
    have "tot + sb - 1 = of_nat (unat tot + unat sb - 1)"
      using pos by (simp add: of_nat_diff)
    moreover have "unat (of_nat (unat tot + unat sb - 1) :: u32) = unat tot + unat sb - 1"
      using assms(2) pos by (intro unat_of_nat_u32) simp
    ultimately show ?thesis by metis
  qed
  then have "unat ((tot + sb - 1) div sb) = sections (unat tot) (unat sb)"
    by (simp add: unat_div sections_def)
  then have "(tot + sb - 1) div sb = of_nat (sections (unat tot) (unat sb))"
    by (auto dest: arg_cong [of _ _ "of_nat :: nat \<Rightarrow> u32"])
  moreover have "tot = 0 \<Longrightarrow> sections (unat tot) (unat sb) = 0"
    using pos by (simp add: sections_def)
  ultimately show "section_count_for_blocks tot sb = Inr (of_nat (sections (unat tot) (unat sb)))"
    using assms(1) by (simp add: section_defs)
qed

text \<open>When the rounding addition wraps, the count is zero.\<close>

lemma section_count_wrap:
  assumes "unat tot + unat sb > 2 ^ 32"
  shows "section_count_for_blocks tot sb = Inr 0"
proof -
  have sb: "sb \<noteq> 0" and tot: "tot \<noteq> 0"
    using assms unat_u32_less [of tot] unat_u32_less [of sb] by auto
  let ?n = "unat tot + unat sb - 1 - 2 ^ 32"
  have "unat (tot + sb - 1) = ?n"
  proof -
    have "tot + sb - 1 = of_nat (unat tot + unat sb - 1)"
      using unat_sb_pos [OF sb] by (simp add: of_nat_diff)
    also have "unat tot + unat sb - 1 = ?n + 2 ^ 32" using assms by simp
    finally have "unat (tot + sb - 1) = (?n + 2 ^ 32) mod 2 ^ 32"
      by (simp only: unat_of_nat) simp
    then show ?thesis
      using unat_u32_less [of tot] unat_u32_less [of sb] by simp
  qed
  moreover have "?n < unat sb" using unat_u32_less [of tot] unat_sb_pos [OF sb] by simp
  ultimately have "unat ((tot + sb - 1) div sb) = 0" by (simp add: unat_div)
  then have "(tot + sb - 1) div sb = 0" by (simp add: unat_eq_zero)
  with sb show ?thesis by (simp add: section_defs)
qed

text \<open>Within the count, first block and size of a Section are the unwrapped ones.\<close>

lemma section_first_no_wrap:
  fixes sb s tot :: u32
  assumes "sb \<noteq> 0" and "unat s < sections (unat tot) (unat sb)"
  shows "section_first_block s sb = Inr (s * sb)" and "unat (s * sb) = unat s * unat sb"
    and "unat (s * sb) < unat tot"
proof -
  have lt: "unat s * unat sb < unat tot"
    using assms less_sections_iff [of "unat sb" "unat s" "unat tot"] unat_sb_pos by simp
  then show "unat (s * sb) = unat s * unat sb"
    using unat_u32_less [of tot] unat_mult_lem [of s sb] by simp
  with lt show "unat (s * sb) < unat tot" by simp
  show "section_first_block s sb = Inr (s * sb)" using assms(1) by (simp add: section_defs)
qed

lemma section_block_count_no_wrap:
  fixes sb s tot :: u32
  assumes "sb \<noteq> 0" and "unat s < sections (unat tot) (unat sb)"
  shows "\<exists>n. section_block_count tot s sb = Inr n
    \<and> unat n = section_len (unat tot) (unat sb) (unat s) \<and> 0 < unat n"
proof -
  note f = section_first_no_wrap [OF assms]
  have lt: "s * sb < tot" using f(3) by (simp add: word_less_nat_alt)
  then have sub: "unat (tot - s * sb) = unat tot - unat s * unat sb"
    using f(2) by (simp add: unat_sub less_imp_le)
  have "unat (min sb (tot - s * sb)) = section_len (unat tot) (unat sb) (unat s)"
    by (simp add: section_len_def sub [symmetric] min_def word_le_nat_alt)
  moreover have "section_block_count tot s sb = Inr (min sb (tot - s * sb))"
    using assms(1) lt by (simp add: section_defs)
  ultimately show ?thesis using f assms(1) unat_sb_pos by (simp add: section_len_def)
qed

lemma section_block_count_Inr:
  assumes "section_block_count tot s sb = Inr n"
  shows "sb \<noteq> 0 \<and> s * sb < tot \<and> n = min sb (tot - s * sb) \<and> section_first_block s sb = Inr (s * sb)
    \<and> unat (s * sb) + unat n \<le> unat tot"
proof -
  from assms have sb: "sb \<noteq> 0" and lt: "s * sb < tot" and n: "n = min sb (tot - s * sb)"
    by (auto simp: section_defs bindE_Inr_iff not_le split: if_splits)
  have "unat (tot - s * sb) = unat tot - unat (s * sb)"
    using lt by (simp add: unat_sub less_imp_le)
  moreover have "unat n \<le> unat (tot - s * sb)" by (simp add: n word_le_nat_alt [symmetric])
  moreover have "unat (s * sb) < unat tot" using lt by (simp add: word_less_nat_alt)
  ultimately show ?thesis using sb lt n by (simp add: section_defs)
qed

text \<open>The values of the loop \<open>for(std::uint32_t local_block=0;local_block<n;local_block++)\<close>.\<close>

definition local_blocks :: "u32 \<Rightarrow> u32 list" where
  "local_blocks n = map of_nat [0..<unat n]"

lemma set_local_blocks: "set (local_blocks n) = {i. i < n}"
proof (rule set_eqI)
  fix i :: u32
  have "i \<in> set (local_blocks n) \<longleftrightarrow> unat i < unat n"
  proof
    assume "i \<in> set (local_blocks n)"
    then obtain k where "i = of_nat k" "k < unat n" by (auto simp: local_blocks_def)
    then show "unat i < unat n" using unat_u32_less [of n] by (simp add: unat_of_nat_u32)
  next
    assume "unat i < unat n"
    moreover have "i = of_nat (unat i)" by simp
    ultimately show "i \<in> set (local_blocks n)"
      by (auto simp: local_blocks_def intro!: image_eqI [of _ _ "unat i"])
  qed
  then show "i \<in> set (local_blocks n) \<longleftrightarrow> i \<in> {i. i < n}" by (simp add: word_less_nat_alt)
qed

lemma distinct_local_blocks: "distinct (local_blocks n)"
proof -
  have "inj_on (of_nat :: nat \<Rightarrow> u32) {0..<unat n}"
  proof (rule inj_onI)
    fix x y assume "x \<in> {0..<unat n}" "y \<in> {0..<unat n}" and eq: "(of_nat x :: u32) = of_nat y"
    then have lt: "x < unat n" "y < unat n" by simp_all
    have "unat (of_nat x :: u32) = unat (of_nat y :: u32)" by (rule arg_cong [OF eq])
    then show "x = y"
      unfolding unat_of_nat_u32 [OF order.strict_trans [OF lt(1) unat_u32_less]]
        unat_of_nat_u32 [OF order.strict_trans [OF lt(2) unat_u32_less]] .
  qed
  then show ?thesis by (simp add: local_blocks_def distinct_map)
qed

lemma length_local_blocks [simp]: "length (local_blocks n) = unat n"
  by (simp add: local_blocks_def)

lemma local_blocks_fit:
  "list_all (\<lambda>i. unat i < 8 * length (replicate (bitmap_size_for_blocks n) (0 :: byte))) (local_blocks n)"
  unfolding list_all_iff set_local_blocks
proof
  fix i assume "i \<in> {i. i < n}"
  then have "unat i < unat n" by (simp add: word_less_nat_alt)
  then show "unat i < 8 * length (replicate (bitmap_size_for_blocks n) (0 :: byte))"
    using bitmap_size_covers [of "unat n"] by (simp add: bitmap_size_for_blocks_def)
qed

section \<open>Properties\<close>

text \<open>The blocks of a Section as the programs enumerate them, from its first block and size.\<close>

definition blocks_of_section :: "u32 \<Rightarrow> u32 \<Rightarrow> u32 \<Rightarrow> u32 list" where
  "blocks_of_section total_blocks section_blocks s =
     (case (section_first_block s section_blocks, section_block_count total_blocks s section_blocks) of
        (Inr first, Inr n) \<Rightarrow> map (\<lambda>j. first + j) (local_blocks n)
      | _ \<Rightarrow> [])"

lemma blocks_of_section_range:
  assumes "sb \<noteq> 0" and "unat s < sections (unat tot) (unat sb)"
  shows "blocks_of_section tot sb s = map of_nat (section_range (unat tot) (unat sb) (unat s))"
proof -
  note f = section_first_no_wrap [OF assms]
  obtain n where n: "section_block_count tot s sb = Inr n"
    "unat n = section_len (unat tot) (unat sb) (unat s)"
    using section_block_count_no_wrap [OF assms] by blast
  have "s * sb + of_nat j = of_nat (unat s * unat sb + j)" for j
    by simp
  then have "blocks_of_section tot sb s = map (\<lambda>j. of_nat (unat s * unat sb + j)) [0..<unat n]"
    by (simp add: blocks_of_section_def f n(1) local_blocks_def del: of_nat_add of_nat_mult)
  also have "\<dots> = map of_nat (map (\<lambda>j. j + unat s * unat sb) [0..<unat n])"
    by (simp add: add.commute del: of_nat_add of_nat_mult)
  also have "map (\<lambda>j. j + unat s * unat sb) [0..<unat n] = section_range (unat tot) (unat sb) (unat s)"
    by (simp add: map_add_upt section_range_def n(2) add.commute)
  finally show ?thesis .
qed

lemma blocks_of_section_id:
  assumes "sb \<noteq> 0" and "unat s < sections (unat tot) (unat sb)" and "b \<in> set (blocks_of_section tot sb s)"
  shows "section_id_for_block b sb = Inr s"
proof -
  from assms(3) obtain k where k: "b = of_nat k" "unat s * unat sb \<le> k"
    "k < unat s * unat sb + section_len (unat tot) (unat sb) (unat s)"
    by (auto simp: blocks_of_section_range [OF assms(1,2)] section_range_def)
  have "k < unat tot" using k section_first_no_wrap [OF assms(1,2)] by (simp add: section_len_def)
  then have "k < 4294967296" using unat_u32_less [of tot] by (rule order.strict_trans)
  then have uk: "unat b = k" using k(1) by (simp only: unat_of_nat_u32)
  have "k < unat s * unat sb + unat sb" using k(3) by (simp add: section_len_def)
  then have "k div unat sb = unat s"
    using k(2) unat_sb_pos [OF assms(1)] by (intro div_nat_eqI) (simp_all add: mult.commute)
  then have "unat (b div sb) = unat s" by (simp only: unat_div uk)
  then have "b div sb = s" by (simp only: word_unat_eq_iff)
  then show ?thesis using assms(1) by (simp add: section_defs)
qed

lemma blocks_of_section_less: "b \<in> set (blocks_of_section tot sb s) \<Longrightarrow> b < tot"
proof -
  assume "b \<in> set (blocks_of_section tot sb s)"
  then obtain first n j where f: "section_first_block s sb = Inr first" and n: "section_block_count tot s sb = Inr n"
    and j: "j \<in> set (local_blocks n)" "b = first + j"
    by (cases "section_first_block s sb"; cases "section_block_count tot s sb")
      (auto simp: blocks_of_section_def)
  from section_block_count_Inr [OF n] f have "unat first + unat n \<le> unat tot" by auto
  moreover have "unat j < unat n" using j(1) by (simp add: set_local_blocks word_less_nat_alt)
  ultimately have "unat first + unat j < unat tot" by linarith
  moreover from this have "unat (first + j) = unat first + unat j"
    using unat_u32_less [of tot] by (simp add: unat_word_ariths)
  ultimately show "b < tot" by (simp add: j(2) word_less_nat_alt)
qed

text \<open>C20: The Sections partition the file. Unless the rounding addition wraps, going through the
  Sections 0, 1, ... up to the Section count, and in each through its blocks, visits every block
  of the file exactly once and in order, and each visited block maps back to its Section.\<close>

theorem sections_partition_blocks:
  assumes "sb \<noteq> 0" and "unat tot + unat sb \<le> 2 ^ 32"
  shows "\<exists>c. section_count_for_blocks tot sb = Inr c
    \<and> concat (map (blocks_of_section tot sb) (local_blocks c)) = local_blocks tot
    \<and> (\<forall>s < c. \<forall>b \<in> set (blocks_of_section tot sb s). section_id_for_block b sb = Inr s)"
proof -
  let ?n = "sections (unat tot) (unat sb)"
  note count = section_count_no_wrap [OF assms]
  have small: "unat (of_nat i :: u32) = i" if "i < ?n" for i
  proof -
    have "?n < 4294967296" using count(2) unat_u32_less [of "of_nat ?n"] by simp
    with that show ?thesis by (intro unat_of_nat_u32) (rule order.strict_trans)
  qed
  have range: "blocks_of_section tot sb (of_nat i) = map of_nat (section_range (unat tot) (unat sb) i)"
    if "i < ?n" for i
    using blocks_of_section_range [OF assms(1), of "of_nat i" tot] that by (simp only: small)
  have "map (blocks_of_section tot sb) (local_blocks (of_nat ?n))
      = map (map of_nat) (map (section_range (unat tot) (unat sb)) [0..<?n])"
    by (simp add: local_blocks_def count(2) range)
  then have "concat (map (blocks_of_section tot sb) (local_blocks (of_nat ?n)))
      = map of_nat (concat (map (section_range (unat tot) (unat sb)) [0..<?n]))"
    by (simp only: map_concat)
  also have "concat (map (section_range (unat tot) (unat sb)) [0..<?n]) = [0..<unat tot]"
    using concat_section_ranges [OF unat_sb_pos [OF assms(1)] order_refl, of "unat tot"]
      sections_cover [OF unat_sb_pos [OF assms(1)], of "unat tot"] by (simp add: min_absorb1)
  finally have "concat (map (blocks_of_section tot sb) (local_blocks (of_nat ?n))) = local_blocks tot"
    by (simp add: local_blocks_def)
  moreover have "section_id_for_block b sb = Inr s" if "s < of_nat ?n" "b \<in> set (blocks_of_section tot sb s)" for s b
    using blocks_of_section_id [OF assms(1) _ that(2)] that(1) by (simp add: word_less_nat_alt count(2))
  ultimately show ?thesis using count(1) by blast
qed

theorem sections_partition_blocks_witness:
  "\<exists>c. section_count_for_blocks 130 64 = Inr c
    \<and> concat (map (blocks_of_section 130 64) (local_blocks c)) = local_blocks 130
    \<and> (\<forall>s < c. \<forall>b \<in> set (blocks_of_section 130 64 s). section_id_for_block b 64 = Inr s)"
  by (rule sections_partition_blocks) simp_all

text \<open>C21: The Section count is wrong for the largest files. When the number of blocks and the Section
  size add up to more than 2^32, the 32-bit rounding addition wraps and the count is zero, although
  the file has blocks: Section 0 exists and holds some.\<close>

theorem section_count_wraps_to_zero:
  assumes "unat tot + unat sb > 2 ^ 32"
  shows "section_count_for_blocks tot sb = Inr 0
    \<and> (\<exists>n. section_block_count tot 0 sb = Inr n \<and> 0 < unat n)"
proof -
  have sb: "sb \<noteq> 0" and tot: "0 < unat tot"
    using assms unat_u32_less [of tot] unat_u32_less [of sb] by auto
  then have "unat (0 :: u32) < sections (unat tot) (unat sb)"
    using less_sections_iff [of "unat sb" 0 "unat tot"] unat_sb_pos [of sb] by simp
  with section_block_count_no_wrap [OF sb] section_count_wrap [OF assms] show ?thesis by blast
qed

theorem section_count_wraps_to_zero_witness:
  "section_count_for_blocks 0xffffffff 64 = Inr 0
    \<and> (\<exists>n. section_block_count 0xffffffff 0 64 = Inr n \<and> 0 < unat n)"
  by (rule section_count_wraps_to_zero) simp

end
