(* ===== verification/Cli.thy ===== *)
theory Cli
  imports Numbers Sections
begin

text \<open>
  Configuration: \<open>include/cli_utils.hpp\<close>, \<open>include/storage_utils.hpp\<close>,
  \<open>include/transfer_options.hpp\<close>, the environment variables, and \<open>parse_options\<close> of the three
  programs. \<open>getenv\<close> is the environment as a function to options. An IPv4 address is the
  32-bit number in host order that \<open>ntohl\<close> gives. The lemmas show which texts are accepted
  and that accepted options satisfy what the rest of the program relies on.
\<close>

section \<open>Numbers on the command line\<close>

text \<open>\<open>c_str\<close>: a C function sees the string up to its first NUL.\<close>

definition c_str :: "string \<Rightarrow> string" where
  "c_str s = takeWhile (\<lambda>c. c \<noteq> CHR 0x00) s"

definition invalid_option :: "string \<Rightarrow> string \<Rightarrow> string" where
  "invalid_option option v = ''invalid '' @ option @ '': '' @ v"

definition parse_unsigned :: "string \<Rightarrow> string \<Rightarrow> u64 result" where
  "parse_unsigned option v =
     (if v = [] \<or> hd v = CHR ''-'' then throw (invalid_option option v)
      else let (parsed, rest, erange) = strtoull (c_str v)
        in if c_str v = rest \<or> rest \<noteq> [] \<or> erange then throw (invalid_option option v)
           else Inr parsed)"

definition parse_port :: "string \<Rightarrow> string \<Rightarrow> int result" where
  "parse_port option v =
     bindE (parse_unsigned option v) (\<lambda>parsed.
       if parsed = 0 \<or> parsed > 65535 then throw (invalid_option option v)
       else Inr (uint parsed))"

definition parse_nonnegative_int :: "string \<Rightarrow> string \<Rightarrow> int result" where
  "parse_nonnegative_int option v =
     bindE (parse_unsigned option v) (\<lambda>parsed.
       if parsed > 2147483647 then throw (invalid_option option v)
       else Inr (uint parsed))"

definition parse_positive_int :: "string \<Rightarrow> string \<Rightarrow> int result" where
  "parse_positive_int option v =
     bindE (parse_nonnegative_int option v) (\<lambda>parsed.
       if parsed = 0 then throw (invalid_option option v) else Inr parsed)"

definition parse_positive_u32 :: "string \<Rightarrow> string \<Rightarrow> u32 result" where
  "parse_positive_u32 option v =
     bindE (parse_unsigned option v) (\<lambda>parsed.
       if parsed = 0 \<or> parsed > 4294967295 then throw (invalid_option option v)
       else Inr (ucast parsed))"

subsection \<open>Addresses\<close>

fun split_on :: "char \<Rightarrow> string \<Rightarrow> string list" where
  "split_on d [] = [[]]"
| "split_on d (c # cs) =
     (if c = d then [] # split_on d cs
      else (case split_on d cs of [] \<Rightarrow> [[c]] | p # ps \<Rightarrow> (c # p) # ps))"

text \<open>\<open>inet_pton\<close> for \<open>AF_INET\<close>: four decimal numbers below 256, separated by dots, without
  leading zeros.\<close>

definition parse_octet :: "string \<Rightarrow> nat option" where
  "parse_octet s =
     (if s \<noteq> [] \<and> list_all is_digit s \<and> digits_value s \<le> 255 \<and> s = print_dec (digits_value s)
      then Some (digits_value s) else None)"

definition octets_address :: "nat \<Rightarrow> nat \<Rightarrow> nat \<Rightarrow> nat \<Rightarrow> u32" where
  "octets_address a b c d = of_nat (a * 16777216 + b * 65536 + c * 256 + d)"

definition inet_pton :: "string \<Rightarrow> u32 option" where
  "inet_pton s = (case map parse_octet (split_on (CHR ''.'') s) of
      [Some a, Some b, Some c, Some d] \<Rightarrow> Some (octets_address a b c d)
    | _ \<Rightarrow> None)"

definition in_multicast :: "u32 \<Rightarrow> bool" where
  "in_multicast address \<longleftrightarrow> address AND 0xf0000000 = 0xe0000000"

definition parse_ipv4 :: "string \<Rightarrow> string \<Rightarrow> u32 result" where
  "parse_ipv4 option v =
     (case inet_pton (c_str v) of
        None \<Rightarrow> throw (invalid_option option v @ '' is not IPv4'')
      | Some address \<Rightarrow> Inr address)"

definition parse_multicast_ipv4 :: "string \<Rightarrow> string \<Rightarrow> u32 result" where
  "parse_multicast_ipv4 option v =
     bindE (parse_ipv4 option v) (\<lambda>address.
       if \<not> in_multicast address then throw (invalid_option option v @ '' is not multicast'')
       else Inr address)"

text \<open>\<open>inet_ntop\<close> and the endpoint key made with it (\<open>src/sender.cpp\<close>).\<close>

definition ipv4_address_string :: "u32 \<Rightarrow> string" where
  "ipv4_address_string a =
     (let n = unat a in
      print_dec (n div 16777216) @ ''.'' @ print_dec (n div 65536 mod 256) @ ''.'' @
      print_dec (n div 256 mod 256) @ ''.'' @ print_dec (n mod 256))"

definition receiver_endpoint_key :: "u32 \<Rightarrow> u16 \<Rightarrow> string" where
  "receiver_endpoint_key peer endpoint_port =
     ipv4_address_string peer @ '':'' @ print_dec (unat endpoint_port)"

section \<open>Environment variables\<close>

type_synonym environment = "string \<Rightarrow> string option"

text \<open>The common shape: unset or empty is absent, and the rest must be one number.\<close>

definition env_number :: "environment \<Rightarrow> string \<Rightarrow> (string \<times> (u64 \<times> string \<times> bool)) option" where
  "env_number getenv name = (case getenv name of
      None \<Rightarrow> None
    | Some raw \<Rightarrow> if raw = [] then None else Some (raw, strtoull raw))"

definition section_blocks_from_env :: "environment \<Rightarrow> u32 result" where
  "section_blocks_from_env getenv = (case env_number getenv ''SRCAST_SECTION_BLOCKS'' of
      None \<Rightarrow> Inr kDefaultSectionBlockCount
    | Some (raw, v, rest, erange) \<Rightarrow>
        if raw = rest \<or> rest \<noteq> [] \<or> erange \<or> v = 0 \<or> v > 4294967295
        then throw ''invalid SRCAST_SECTION_BLOCKS value''
        else Inr (ucast v))"

definition backfill_rounds :: "environment \<Rightarrow> int \<Rightarrow> u32 result" where
  "backfill_rounds getenv max_repair_rounds = (case env_number getenv ''SRCAST_BACKFILL_ROUNDS'' of
      None \<Rightarrow> Inr (word_of_int max_repair_rounds)
    | Some (raw, v, rest, erange) \<Rightarrow>
        if raw = rest \<or> rest \<noteq> [] \<or> erange \<or> v > 4294967295
        then throw ''invalid SRCAST_BACKFILL_ROUNDS value''
        else Inr (ucast v))"

definition stop_after_sections_for_test :: "environment \<Rightarrow> u32 result" where
  "stop_after_sections_for_test getenv = (case env_number getenv ''SRCAST_STOP_AFTER_SECTIONS'' of
      None \<Rightarrow> Inr 0
    | Some (raw, v, rest, erange) \<Rightarrow>
        if raw = rest \<or> rest \<noteq> [] \<or> erange \<or> v > 4294967295
        then throw ''invalid SRCAST_STOP_AFTER_SECTIONS value''
        else Inr (ucast v))"

definition storage_limit :: "environment \<Rightarrow> string \<Rightarrow> u64 result" where
  "storage_limit getenv name = (case env_number getenv name of
      None \<Rightarrow> Inr 0
    | Some (raw, v, rest, erange) \<Rightarrow>
        if raw = rest \<or> rest \<noteq> [] \<or> erange then throw (''invalid '' @ name @ '' value'')
        else Inr v)"

definition env_flag_enabled :: "environment \<Rightarrow> string \<Rightarrow> bool" where
  "env_flag_enabled getenv name = (case getenv name of
      None \<Rightarrow> False | Some raw \<Rightarrow> raw \<noteq> [] \<and> raw \<noteq> ''0'')"

text \<open>\<open>parse_block_set_env\<close> and \<open>parse_initial_drop_blocks\<close>: a comma-separated list of block
  numbers, with the same loop and messages.\<close>

lemma strtoull_rest_le: "strtoull s = (v, rest, e) \<Longrightarrow> length rest \<le> length s"
proof -
  have "length (dropWhile P s) \<le> length s" for P and s :: string by (rule length_dropWhile_le)
  moreover have "length (snd (take_sign s)) \<le> length s" for s
    by (cases s) (auto simp: take_sign_def)
  ultimately have "length (dropWhile is_digit (snd (take_sign (dropWhile is_space s)))) \<le> length s"
    by (meson order_trans)
  then show "strtoull s = (v, rest, e) \<Longrightarrow> length rest \<le> length s"
    by (auto simp: strtoull_def Let_def split: prod.splits if_splits)
qed

function parse_blocks :: "string \<Rightarrow> string \<Rightarrow> u32 list \<Rightarrow> u32 list result" where
  "parse_blocks name cursor blocks =
     (if cursor = [] then Inr blocks
      else let (v, rest, erange) = strtoull cursor
        in if cursor = rest \<or> erange \<or> v > 4294967295
           then throw (''invalid '' @ name @ '' value'')
           else let blocks' = List.insert (ucast v) blocks
             in (case rest of
                   [] \<Rightarrow> Inr blocks'
                 | c # cs \<Rightarrow>
                     if c \<noteq> CHR '','' then throw (name @ '' must be a comma-separated list'')
                     else if cs = [] then throw (name @ '' has a trailing comma'')
                     else parse_blocks name cs blocks'))"
  by pat_completeness auto
termination
  by (relation "measure (\<lambda>(name, cursor, blocks). length cursor)") (auto dest!: sym [of _ "strtoull _"] strtoull_rest_le)

declare parse_blocks.simps [simp del]

definition parse_block_set_env :: "environment \<Rightarrow> string \<Rightarrow> u32 list result" where
  "parse_block_set_env getenv name = (case getenv name of
      None \<Rightarrow> Inr []
    | Some raw \<Rightarrow> if raw = [] then Inr [] else parse_blocks name raw [])"

section \<open>Storage checks\<close>

definition kDiskSafetyMarginBytes :: u64 where
  "kDiskSafetyMarginBytes = 4 * 1024 * 1024"

text \<open>\<open>statvfs\<close> is the error text or the free block count and fragment size.\<close>

definition require_disk_space :: "string + u64 \<times> u64 \<Rightarrow> u64 \<Rightarrow> string \<Rightarrow> unit result" where
  "require_disk_space statvfs bytes_needed label = (case statvfs of
      Inl text \<Rightarrow> throw (''statvfs '' @ label @ '': '' @ text)
    | Inr (f_bavail, f_frsize) \<Rightarrow>
        let available = f_bavail * f_frsize; required = bytes_needed + kDiskSafetyMarginBytes
        in if available < required then throw (label @ '' has insufficient disk space'')
           else Inr ())"

text \<open>The directory scan: what each entry turns out to be, and the error the scan began with.\<close>

datatype dir_entry =
    Not_regular
  | Stat_failed string
  | Size_failed
  | Regular_file u64
  | Advance_failed string

fun add_entry :: "dir_entry \<Rightarrow> u64 \<Rightarrow> u64 result" where
  "add_entry Not_regular used = Inr used"
| "add_entry (Stat_failed text) used = throw (''stat storage file failed: '' @ text)"
| "add_entry Size_failed used = throw ''storage usage is too large''"
| "add_entry (Regular_file n) used =
     (if n > 18446744073709551615 - used then throw ''storage usage is too large''
      else Inr (used + n))"
| "add_entry (Advance_failed text) used = throw text"

definition directory_usage :: "string + dir_entry list \<Rightarrow> u64 result" where
  "directory_usage scan = (case scan of
      Inl text \<Rightarrow> throw (''scan storage directory failed: '' @ text)
    | Inr entries \<Rightarrow> foldE add_entry entries 0)"

definition require_storage_limit ::
  "environment \<Rightarrow> string + dir_entry list \<Rightarrow> u64 \<Rightarrow> string \<Rightarrow> string \<Rightarrow> unit result" where
  "require_storage_limit getenv scan additional limit_name label =
     bindE (storage_limit getenv limit_name) (\<lambda>limit.
       if limit = 0 then Inr ()
       else bindE (directory_usage scan) (\<lambda>used.
         if used > limit \<or> additional > limit - used then throw (label @ '' exceeds '' @ limit_name)
         else Inr ()))"

section \<open>What is accepted\<close>

lemma c_str_print_dec [simp]: "c_str (print_dec n) = print_dec n"
proof -
  have "is_digit c \<Longrightarrow> c \<noteq> CHR 0x00" for c by (auto simp: is_digit_def char_code_def)
  with print_dec_digits [of n] show ?thesis by (auto simp: c_str_def list_all_iff intro: takeWhile_eq_all_conv [THEN iffD2])
qed

lemma parse_unsigned_print:
  "n < 18446744073709551616 \<Longrightarrow> parse_unsigned option (print_dec n) = Inr (of_nat n)"
  using strtoull_print_dec [of n "[]"] hd_print_dec [of n]
  by (simp add: parse_unsigned_def no_digit_def)

lemma parse_port_range: "parse_port option v = Inr p \<Longrightarrow> 0 < p \<and> p \<le> 65535"
proof -
  assume "parse_port option v = Inr p"
  then obtain w :: u64 where w: "w \<noteq> 0" "w \<le> 65535" "p = uint w"
    by (auto simp: parse_port_def bindE_Inr_iff not_less split: if_splits)
  then have "uint w \<noteq> 0" "uint w \<le> uint (65535 :: u64)"
    by (simp_all add: uint_0_iff word_le_def)
  then show ?thesis using w(3) by (simp add: order.not_eq_order_implies_strict)
qed

lemma parse_nonnegative_int_range: "parse_nonnegative_int option v = Inr n \<Longrightarrow> 0 \<le> n \<and> n \<le> 2147483647"
proof -
  assume "parse_nonnegative_int option v = Inr n"
  then obtain w :: u64 where w: "w \<le> 2147483647" "n = uint w"
    by (auto simp: parse_nonnegative_int_def bindE_Inr_iff not_less split: if_splits)
  then have "uint w \<le> uint (2147483647 :: u64)" by (simp add: word_le_def)
  then show ?thesis using w(2) by simp
qed

lemma parse_positive_int_range: "parse_positive_int option v = Inr n \<Longrightarrow> 0 < n \<and> n \<le> 2147483647"
  using parse_nonnegative_int_range [of option v n]
  by (auto simp: parse_positive_int_def bindE_Inr_iff split: if_splits)

lemma ucast_u64_u32_nonzero: "w \<noteq> 0 \<Longrightarrow> w \<le> 4294967295 \<Longrightarrow> (ucast w :: u32) \<noteq> 0" for w :: u64
proof
  assume w: "w \<noteq> 0" "w \<le> 4294967295" and "(ucast w :: u32) = 0"
  then have "unat (ucast w :: u32) = 0" by simp
  then have "unat w mod 2 ^ 32 = 0" by (simp add: unsigned_ucast_eq take_bit_eq_mod)
  moreover have "unat w \<le> unat (4294967295 :: u64)" using w(2) by (simp add: word_le_nat_alt)
  ultimately have "unat w = 0" by simp
  with w(1) show False by (simp add: unat_eq_zero)
qed

lemma parse_positive_u32_nonzero: "parse_positive_u32 option v = Inr n \<Longrightarrow> n \<noteq> 0"
  by (auto simp: parse_positive_u32_def bindE_Inr_iff not_less ucast_u64_u32_nonzero split: if_splits)

lemma section_blocks_from_env_nonzero: "section_blocks_from_env getenv = Inr n \<Longrightarrow> n \<noteq> 0"
  by (auto simp: section_blocks_from_env_def kDefaultSectionBlockCount_def not_less
      ucast_u64_u32_nonzero split: option.splits if_splits)

lemma split_on_append:
  "d \<notin> set p \<Longrightarrow> split_on d (p @ d # s) = p # split_on d s"
  by (induction p) auto

lemma split_on_last: "d \<notin> set p \<Longrightarrow> split_on d p = [p]"
  by (induction p) auto

lemma set_print_dec: "c \<in> set (print_dec n) \<Longrightarrow> is_digit c"
  using print_dec_digits [of n] by (simp add: list_all_iff)

lemma dot_not_digit: "CHR ''.'' \<notin> set (print_dec n)"
  using print_dec_digits [of n] by (auto simp: list_all_iff is_digit_def char_code_def)

lemma parse_octet_print: "n < 256 \<Longrightarrow> parse_octet (print_dec n) = Some n"
  using print_dec_digits [of n] by (simp add: parse_octet_def)

lemma inet_pton_ipv4_string: "inet_pton (ipv4_address_string a) = Some a"
proof -
  let ?n = "unat a"
  have small: "?n div 16777216 < 256" using unat_u32_less [of a] by (simp add: less_mult_imp_div_less)
  have dots: "split_on (CHR ''.'') (ipv4_address_string a) =
      [print_dec (?n div 16777216), print_dec (?n div 65536 mod 256),
       print_dec (?n div 256 mod 256), print_dec (?n mod 256)]"
    using dot_not_digit by (simp add: ipv4_address_string_def Let_def split_on_append split_on_last)
  have "?n = ?n div 16777216 * 16777216 + ?n div 65536 mod 256 * 65536 + ?n div 256 mod 256 * 256 + ?n mod 256"
  proof -
    have "?n div 65536 = ?n div 16777216 * 256 + ?n div 65536 mod 256"
      using div_mult_mod_eq [of "?n div 65536" 256] by (simp add: div_mult2_eq [symmetric])
    moreover have "?n div 256 = ?n div 65536 * 256 + ?n div 256 mod 256"
      using div_mult_mod_eq [of "?n div 256" 256] by (simp add: div_mult2_eq [symmetric])
    moreover have "?n = ?n div 256 * 256 + ?n mod 256" by simp
    ultimately show ?thesis by linarith
  qed
  then have "octets_address (?n div 16777216) (?n div 65536 mod 256) (?n div 256 mod 256) (?n mod 256) = of_nat ?n"
    by (simp only: octets_address_def [symmetric] octets_address_def)
  then show ?thesis using small by (simp add: inet_pton_def dots parse_octet_print)
qed

lemma parse_ipv4_string: "parse_ipv4 option (ipv4_address_string a) = Inr a"
proof -
  have "is_digit c \<Longrightarrow> c \<noteq> CHR 0x00" for c by (auto simp: is_digit_def char_code_def)
  then have "list_all (\<lambda>c. c \<noteq> CHR 0x00) (ipv4_address_string a)"
    using print_dec_digits by (auto simp: ipv4_address_string_def Let_def list_all_iff)
  then have "c_str (ipv4_address_string a) = ipv4_address_string a"
    by (simp add: c_str_def takeWhile_eq_all_conv list_all_iff)
  then show ?thesis by (simp add: parse_ipv4_def inet_pton_ipv4_string)
qed

lemma ipv4_address_string_inj: "ipv4_address_string a = ipv4_address_string b \<Longrightarrow> a = b"
  by (drule arg_cong [of _ _ inet_pton]) (simp only: inet_pton_ipv4_string option.inject)

lemma colon_not_digit: "CHR '':'' \<notin> set (print_dec n)"
  using print_dec_digits [of n] by (auto simp: list_all_iff is_digit_def char_code_def)

lemma colon_not_address: "CHR '':'' \<notin> set (ipv4_address_string x)"
  by (simp add: ipv4_address_string_def Let_def colon_not_digit)

text \<open>An endpoint key identifies the address and port it was made from.\<close>

lemma receiver_endpoint_key_inj:
  assumes "receiver_endpoint_key a p = receiver_endpoint_key b q"
  shows "a = b \<and> p = q"
proof -
  have parts: "split_on (CHR '':'') (receiver_endpoint_key x r) = ipv4_address_string x # split_on (CHR '':'') (print_dec (unat r))"
    for x r by (simp add: receiver_endpoint_key_def split_on_append [OF colon_not_address])
  from arg_cong [OF assms, of "split_on (CHR '':'')"]
  have "ipv4_address_string a = ipv4_address_string b" by (simp only: parts list.inject)
  then have ab: "a = b" by (rule ipv4_address_string_inj)
  have "print_dec (unat p) = print_dec (unat q)"
    using assms unfolding ab receiver_endpoint_key_def by (simp only: same_append_eq)
  from arg_cong [OF this, of digits_value] have "p = q"
    by (simp only: digits_value_print_dec word_unat_eq_iff)
  with ab show ?thesis by (rule conjI)
qed

text \<open>A comma-separated list of printed block numbers is read as the set of these numbers.\<close>

lemma parse_blocks_last:
  "parse_blocks name (print_dec (unat w)) acc = Inr (List.insert w acc)"
proof -
  have "unat w < 4294967296" by (rule unat_u32_less)
  then have s: "strtoull (print_dec (unat w)) = (ucast w, [], False)"
    using strtoull_print_dec [of "unat w" "[]"] by (simp add: no_digit_def unsigned_ucast_eq)
  have le: "\<not> (ucast w :: u64) > 4294967295"
    using unat_u32_less [of w] by (simp add: word_le_nat_alt unsigned_ucast_eq take_bit_nat_eq_self not_less)
  have "(ucast (ucast w :: u64) :: u32) = w"
    by (rule bit_word_eqI) (auto simp: bit_simps)
  then show ?thesis by (subst parse_blocks.simps) (use le in \<open>simp add: s\<close>)
qed

text \<open>The accumulated size of a directory is the exact sum.\<close>

fun entry_size :: "dir_entry \<Rightarrow> nat" where
  "entry_size (Regular_file n) = unat n"
| "entry_size _ = 0"

lemma foldE_add_entry:
  "foldE add_entry es used = Inr r \<Longrightarrow> unat r = unat used + sum_list (map entry_size es)"
proof (induction es arbitrary: used)
  case Nil
  then show ?case by simp
next
  case (Cons e es)
  then obtain u where u: "add_entry e used = Inr u" "foldE add_entry es u = Inr r"
    by (auto simp: bindE_Inr_iff)
  have "unat u = unat used + entry_size e"
  proof (cases e)
    case (Regular_file n)
    with u(1) have "n \<le> 18446744073709551615 - used" "u = used + n"
      by (auto simp: not_less split: if_splits)
    moreover have "unat (18446744073709551615 - used) = 18446744073709551615 - unat used"
      using unat_sub [of used "18446744073709551615"] unat_u64_less [of used]
      by (simp add: word_le_nat_alt)
    ultimately have "unat used + unat n < 2 ^ 64"
      using unat_u64_less [of used] by (simp add: word_le_nat_alt)
    then show ?thesis using \<open>u = used + n\<close> Regular_file by (simp add: unat_add_lem [THEN iffD1])
  qed (use u(1) in auto)
  with Cons.IH [OF u(2)] show ?case by simp
qed

lemma require_storage_limit_ok:
  assumes "require_storage_limit getenv (Inr entries) additional limit_name label = Inr ()"
    and "storage_limit getenv limit_name = Inr limit" and "limit \<noteq> 0"
  shows "sum_list (map entry_size entries) + unat additional \<le> unat limit"
proof -
  from assms obtain used where used: "foldE add_entry entries 0 = Inr used"
    and le: "used \<le> limit" "additional \<le> limit - used"
    by (auto simp: require_storage_limit_def directory_usage_def bindE_Inr_iff not_less split: if_splits)
  have "unat additional \<le> unat limit - unat used"
    using le by (simp add: word_le_nat_alt unat_sub)
  moreover have "unat used \<le> unat limit" using le(1) by (simp add: word_le_nat_alt)
  ultimately show ?thesis using foldE_add_entry [OF used] by simp
qed

section \<open>Properties\<close>

text \<open>C23: A receiver's endpoint key identifies it: two keys are equal exactly when both the address
  and the port they were made from are.\<close>

theorem endpoint_key_identifies:
  "receiver_endpoint_key a p = receiver_endpoint_key b q \<longleftrightarrow> a = b \<and> p = q"
  using receiver_endpoint_key_inj by blast

text \<open>A port option is accepted exactly when it is a port. For every number in decimal that a
  64-bit integer holds, \<open>parse_port\<close> returns it when it lies between 1 and 65535, and otherwise
  throws.\<close>

theorem parse_port_decimal:
  assumes "n < 2 ^ 64"
  shows "parse_port option (print_dec n) =
    (if 0 < n \<and> n \<le> 65535 then Inr (int n) else throw (invalid_option option (print_dec n)))"
proof -
  have n: "unat (of_nat n :: u64) = n" using assms by (intro unat_of_nat_u64) simp
  have i: "uint (of_nat n :: u64) = int n" by (simp only: uint_nat n)
  have "(of_nat n :: u64) = 0 \<longleftrightarrow> n = 0" "(of_nat n :: u64) > 65535 \<longleftrightarrow> n > 65535"
    using n by (simp_all add: word_unat_eq_iff word_less_nat_alt)
  then show ?thesis
    using assms n i by (auto simp: parse_port_def parse_unsigned_print)
qed

theorem parse_port_decimal_witness:
  "parse_port ''--udp-port'' (print_dec 9000) = Inr 9000"
  using parse_port_decimal [of 9000 "''--udp-port''"] by simp

text \<open>C24: The storage limit is respected. When \<open>require_storage_limit\<close> does not throw and a limit is
  set, the sizes of all files of the directory and the additional bytes sum, without wrap-around,
  to at most the limit.\<close>

theorem storage_limit_respected:
  assumes "require_storage_limit getenv (Inr entries) additional limit_name label = Inr ()"
    and "storage_limit getenv limit_name = Inr limit" and "limit \<noteq> 0"
  shows "sum_list (map entry_size entries) + unat additional \<le> unat limit"
  using assms by (rule require_storage_limit_ok)

lemma example_limit: "storage_limit (\<lambda>_. Some (print_dec 100)) name = Inr 100"
  using strtoull_print_dec [of 100 "[]"] by (simp add: storage_limit_def env_number_def no_digit_def)

theorem storage_limit_respected_witness:
  "sum_list (map entry_size [Regular_file 40, Regular_file 50]) + unat (10 :: u64) \<le> unat (100 :: u64)"
proof (rule storage_limit_respected)
  show "require_storage_limit (\<lambda>_. Some (print_dec 100)) (Inr [Regular_file 40, Regular_file 50]) 10 ''L'' ''dir'' = Inr ()"
    by (simp add: require_storage_limit_def example_limit directory_usage_def)
  show "storage_limit (\<lambda>_. Some (print_dec 100)) ''L'' = Inr 100" by (rule example_limit)
qed simp

end
