(* ===== verification/Effects.thy ===== *)
theory Effects
  imports Prelude
begin

text \<open>
  Code that changes state and may throw: a computation takes the state and returns the value or
  the exception together with the state reached, so what was changed before the exception stays
  changed. The combinators are the statements of the code: sequence, \<open>throw\<close>, \<open>try\<close>/\<open>catch\<close>,
  conditional, and \<open>for\<close> over a range. \<open>keeps P m\<close> says that \<open>m\<close> preserves \<open>P\<close> on every
  path, the throwing ones included; its rules carry the invariant proofs of the components.
\<close>

type_synonym ('s, 'a) eff = "'s \<Rightarrow> 'a result \<times> 's"

definition returnS :: "'a \<Rightarrow> ('s, 'a) eff" where
  "returnS x s = (Inr x, s)"

definition throwS :: "string \<Rightarrow> ('s, 'a) eff" where
  "throwS msg s = (throw msg, s)"

definition bindS :: "('s, 'a) eff \<Rightarrow> ('a \<Rightarrow> ('s, 'b) eff) \<Rightarrow> ('s, 'b) eff" where
  "bindS m f s = (case m s of (Inl e, s') \<Rightarrow> (Inl e, s') | (Inr x, s') \<Rightarrow> f x s')"

definition liftE :: "'a result \<Rightarrow> ('s, 'a) eff" where
  "liftE r s = (r, s)"

definition getS :: "('s \<Rightarrow> 'a) \<Rightarrow> ('s, 'a) eff" where
  "getS f s = (Inr (f s), s)"

definition modifyS :: "('s \<Rightarrow> 's) \<Rightarrow> ('s, unit) eff" where
  "modifyS f s = (Inr (), f s)"

definition whenS :: "bool \<Rightarrow> ('s, unit) eff \<Rightarrow> ('s, unit) eff" where
  "whenS c m = (if c then m else returnS ())"

text \<open>\<open>try { m } catch(const std::exception &e) { h e }\<close>.\<close>

definition tryS :: "('s, 'a) eff \<Rightarrow> (error \<Rightarrow> ('s, 'a) eff) \<Rightarrow> ('s, 'a) eff" where
  "tryS m h s = (case m s of (Inl e, s') \<Rightarrow> h e s' | (Inr x, s') \<Rightarrow> (Inr x, s'))"

fun forS :: "'x list \<Rightarrow> ('x \<Rightarrow> ('s, unit) eff) \<Rightarrow> ('s, unit) eff" where
  "forS [] body = returnS ()"
| "forS (x # xs) body = bindS (body x) (\<lambda>_. forS xs body)"

text \<open>A loop that carries a local variable.\<close>

fun foldS :: "('x \<Rightarrow> 'a \<Rightarrow> ('s, 'a) eff) \<Rightarrow> 'x list \<Rightarrow> 'a \<Rightarrow> ('s, 'a) eff" where
  "foldS body [] acc = returnS acc"
| "foldS body (x # xs) acc = bindS (body x acc) (\<lambda>acc. foldS body xs acc)"

section \<open>Evaluation\<close>

named_theorems eff_run "evaluation of computations"

lemma returnS_run [eff_run]: "returnS x s = (Inr x, s)"
  by (simp add: returnS_def)

lemma throwS_run [eff_run]: "throwS msg s = (throw msg, s)"
  by (simp add: throwS_def)

lemma liftE_run [eff_run]: "liftE r s = (r, s)"
  by (simp add: liftE_def)

lemma getS_run [eff_run]: "getS f s = (Inr (f s), s)"
  by (simp add: getS_def)

lemma modifyS_run [eff_run]: "modifyS f s = (Inr (), f s)"
  by (simp add: modifyS_def)

lemma bindS_run [eff_run]:
  "bindS m f s = (case fst (m s) of Inl e \<Rightarrow> (Inl e, snd (m s)) | Inr x \<Rightarrow> f x (snd (m s)))"
  by (simp add: bindS_def split: prod.split sum.split)

lemma tryS_run [eff_run]:
  "tryS m h s = (case fst (m s) of Inl e \<Rightarrow> h e (snd (m s)) | Inr x \<Rightarrow> (Inr x, snd (m s)))"
  by (simp add: tryS_def split: prod.split sum.split)

lemma whenS_run [eff_run]: "whenS c m s = (if c then m s else (Inr (), s))"
  by (simp add: whenS_def returnS_def)

lemma bindS_returnS [simp]: "bindS (returnS x) f = f x"
  by (simp add: bindS_def returnS_def fun_eq_iff)

lemma bindS_throwS [simp]: "bindS (throwS msg) f = throwS msg"
  by (simp add: bindS_def throwS_def fun_eq_iff)

text \<open>Steps that never throw, as rewrite rules.\<close>

named_theorems eff_step "one step of a computation"

lemma bindS_getS [eff_step]: "bindS (getS g) k s = k (g s) s"
  by (simp add: bindS_run getS_run)

lemma bindS_modifyS [eff_step]: "bindS (modifyS f) k s = k () (f s)"
  by (simp add: bindS_run modifyS_run)

lemma bindS_liftE [eff_step]: "bindS (liftE r) k s = (case r of Inl e \<Rightarrow> (Inl e, s) | Inr x \<Rightarrow> k x s)"
  by (simp add: bindS_run liftE_run split: sum.split)

lemma bindS_whenS [eff_step]: "bindS (whenS c m) k s = (if c then bindS m k s else k () s)"
  by (simp add: bindS_run whenS_def returnS_run)

lemma bindS_returned [eff_step]: "m s = (Inr x, t) \<Longrightarrow> bindS m k s = k x t"
  by (simp add: bindS_run)

lemma bindS_returned_bool [eff_step]:
  "m s = (Inr True, t) \<Longrightarrow> bindS m k s = k True t" "m s = (Inr False, t) \<Longrightarrow> bindS m k s = k False t"
  by (simp_all add: bindS_run)

lemma bindS_threw [eff_step]: "m s = (Inl e, t) \<Longrightarrow> bindS m k s = (Inl e, t)"
  by (simp add: bindS_run)

lemma bindS_assoc: "bindS (bindS m f) g = bindS m (\<lambda>x. bindS (f x) g)"
  by (simp add: bindS_def fun_eq_iff split: prod.split sum.split)

lemma bindS_Inr:
  "bindS m f s = (Inr y, t) \<longleftrightarrow> (\<exists>x u. m s = (Inr x, u) \<and> f x u = (Inr y, t))"
  by (auto simp: bindS_def split: prod.splits sum.splits)

lemma liftE_Inr [simp]: "liftE r s = (Inr x, t) \<longleftrightarrow> r = Inr x \<and> t = s"
  by (auto simp: liftE_def)

lemma getS_Inr [simp]: "getS f s = (Inr x, t) \<longleftrightarrow> x = f s \<and> t = s"
  by (auto simp: getS_def)

lemma modifyS_Inr [simp]: "modifyS f s = (Inr x, t) \<longleftrightarrow> t = f s"
  by (auto simp: modifyS_def)

lemma returnS_Inr [simp]: "returnS x s = (Inr y, t) \<longleftrightarrow> y = x \<and> t = s"
  by (auto simp: returnS_def)

lemma throwS_Inr [simp]: "throwS msg s \<noteq> (Inr y, t)"
  by (simp add: throwS_def)

lemmas eff_Inr = bindS_Inr liftE_Inr getS_Inr modifyS_Inr returnS_Inr throwS_Inr

lemma forS_append: "forS (xs @ ys) body = bindS (forS xs body) (\<lambda>_. forS ys body)"
  by (induction xs) (simp_all add: bindS_assoc)

section \<open>Preserved properties\<close>

definition keeps :: "('s \<Rightarrow> bool) \<Rightarrow> ('s, 'a) eff \<Rightarrow> bool" where
  "keeps P m \<longleftrightarrow> (\<forall>s. P s \<longrightarrow> P (snd (m s)))"

named_theorems keep "rules for preserved properties"

lemma keepsD: "keeps P m \<Longrightarrow> P s \<Longrightarrow> P (snd (m s))"
  by (simp add: keeps_def)

lemma keepsI: "(\<And>s. P s \<Longrightarrow> P (snd (m s))) \<Longrightarrow> keeps P m"
  by (simp add: keeps_def)

lemma keeps_pure [keep, simp]:
  "keeps P (returnS x)" "keeps P (throwS msg)" "keeps P (liftE r)" "keeps P (getS f)"
  by (simp_all add: keeps_def eff_run)

lemma keeps_bind [keep]: "keeps P m \<Longrightarrow> (\<And>x. keeps P (f x)) \<Longrightarrow> keeps P (bindS m f)"
  by (auto simp: keeps_def eff_run split: sum.splits)

lemma keeps_bind_getS: "(\<And>s. P s \<Longrightarrow> P (snd (f (g s) s))) \<Longrightarrow> keeps P (bindS (getS g) f)"
  by (simp add: keeps_def eff_run)

lemma keeps_try [keep]: "keeps P m \<Longrightarrow> (\<And>e. keeps P (h e)) \<Longrightarrow> keeps P (tryS m h)"
  by (auto simp: keeps_def eff_run split: sum.splits)

lemma keeps_when [keep]: "(c \<Longrightarrow> keeps P m) \<Longrightarrow> keeps P (whenS c m)"
  by (auto simp: keeps_def eff_run)

lemma keeps_for [keep]: "(\<And>x. x \<in> set xs \<Longrightarrow> keeps P (body x)) \<Longrightarrow> keeps P (forS xs body)"
  by (induction xs) (auto intro: keeps_bind)

lemma keeps_fold [keep]: "(\<And>x acc. x \<in> set xs \<Longrightarrow> keeps P (body x acc)) \<Longrightarrow> keeps P (foldS body xs acc)"
  by (induction xs arbitrary: acc) (auto intro: keeps_bind)

lemma keeps_modify: "(\<And>s. P s \<Longrightarrow> P (f s)) \<Longrightarrow> keeps P (modifyS f)"
  by (simp add: keeps_def eff_run)

lemma keeps_if [keep]: "(c \<Longrightarrow> keeps P m) \<Longrightarrow> (\<not> c \<Longrightarrow> keeps P n) \<Longrightarrow> keeps P (if c then m else n)"
  by simp

lemma keeps_case_option [keep]:
  "(x = None \<Longrightarrow> keeps P m) \<Longrightarrow> (\<And>y. x = Some y \<Longrightarrow> keeps P (f y)) \<Longrightarrow>
     keeps P (case x of None \<Rightarrow> m | Some y \<Rightarrow> f y)"
  by (cases x) auto

lemma keeps_let [keep]: "keeps P (f x) \<Longrightarrow> keeps P (let y = x in f y)"
  by simp

end
