(* ===== verification/Checksum.thy ===== *)
theory Checksum
  imports Prelude
begin

text \<open>
  \<open>src/checksum.cpp\<close>: the table-driven CRC-32 of DATA payloads, the chunked SHA-256 of a file
  and the hexadecimal form of a digest.

  The table of the code is computed by the same eight shift steps as there. The lemmas show
  that the table-driven loop is the bit-serial division register, that the register map is
  linear and injective, and so that a corruption confined to four consecutive bytes always
  changes the checksum. OpenSSL's digest is a parameter (its three functions); chunking does
  not change the result when its update function is a streaming one.
\<close>

section \<open>CRC-32\<close>

definition crc_shift :: "u32 \<Rightarrow> u32" where
  "crc_shift value =
     (if value AND 1 \<noteq> 0 then 0xedb88320 XOR drop_bit 1 value else drop_bit 1 value)"

definition crc_table :: "u32 list" where
  "crc_table = map (\<lambda>i. (crc_shift ^^ 8) (of_nat i)) [0..<256]"

definition crc_step :: "u32 \<Rightarrow> byte \<Rightarrow> u32" where
  "crc_step value b = (crc_table ! unat ((value XOR ucast b) AND 0xff)) XOR drop_bit 8 value"

definition crc32 :: "bytes \<Rightarrow> u32" where
  "crc32 data = foldl crc_step 0xffffffff data XOR 0xffffffff"

text \<open>The register without the table: eight shifts per byte.\<close>

definition crc_step_bits :: "u32 \<Rightarrow> byte \<Rightarrow> u32" where
  "crc_step_bits value b = (crc_shift ^^ 8) (value XOR ucast b)"

definition crc32_bits :: "bytes \<Rightarrow> u32" where
  "crc32_bits data = foldl crc_step_bits 0xffffffff data XOR 0xffffffff"

subsection \<open>The register map is linear and injective\<close>

lemma crc_shift_alt:
  "crc_shift v = drop_bit 1 v XOR (if bit v 0 then 0xedb88320 else 0)"
proof -
  have "v AND 1 \<noteq> 0 \<longleftrightarrow> bit v 0" by (simp add: and_one_eq bit_0 mod2_eq_if)
  then show ?thesis by (simp only: crc_shift_def) (simp add: xor.commute)
qed

lemma crc_shift_xor: "crc_shift (a XOR b) = crc_shift a XOR crc_shift b"
proof -
  have "drop_bit 1 (a XOR b) = drop_bit 1 a XOR drop_bit 1 b"
    by (rule bit_word_eqI) (simp add: bit_simps)
  then show ?thesis by (auto simp: crc_shift_alt bit_simps ac_simps)
qed

lemma crc_shifts_xor: "(crc_shift ^^ n) (a XOR b) = (crc_shift ^^ n) a XOR (crc_shift ^^ n) b"
  by (induction n) (simp_all add: crc_shift_xor)

lemma crc_shift_0 [simp]: "crc_shift 0 = 0"
  by (simp add: crc_shift_def)

text \<open>The top bit of the result is the bit shifted out, since the polynomial's bit 31 is set;
  so nothing is lost.\<close>

lemma crc_shift_eq_0: "crc_shift v = 0 \<Longrightarrow> v = 0"
proof -
  assume z: "crc_shift v = 0"
  have poly: "bit (0xedb88320 :: u32) 31" by code_simp
  have "\<not> bit v 0"
  proof
    assume "bit v 0"
    then have "bit (crc_shift v) 31"
      using poly by (simp add: crc_shift_alt bit_xor_iff bit_drop_bit_eq impossible_bit)
    with z show False by simp
  qed
  then have d: "drop_bit 1 v = 0" using z by (simp add: crc_shift_alt)
  show "v = 0"
  proof (rule bit_word_eqI)
    fix n assume "n < LENGTH(32)"
    show "bit v n = bit (0 :: u32) n"
    proof (cases n)
      case (Suc m)
      have "bit (drop_bit 1 v) m = bit v (Suc m)" by (simp add: bit_drop_bit_eq)
      with d Suc show ?thesis by simp
    qed (use \<open>\<not> bit v 0\<close> in simp)
  qed
qed

lemma xor_eq_0_iff: "a XOR b = 0 \<longleftrightarrow> a = b" for a b :: u32
  by (metis xor.assoc xor.left_neutral xor.right_neutral xor_self_eq)

lemma xor_cancel: "a XOR c = b XOR c \<longleftrightarrow> a = b" for a b c :: u32
  by (metis xor.assoc xor.right_neutral xor_self_eq)

lemma crc_shifts_inj: "(crc_shift ^^ n) a = (crc_shift ^^ n) b \<longleftrightarrow> a = b"
proof -
  have "(crc_shift ^^ n) v = 0 \<Longrightarrow> v = 0" for v
    by (induction n arbitrary: v) (auto dest: crc_shift_eq_0)
  from this [of "a XOR b"] show ?thesis by (auto simp: crc_shifts_xor xor_eq_0_iff)
qed

lemma crc_shifts_push: "n \<le> 32 \<Longrightarrow> drop_bit (32 - n) w = 0 \<Longrightarrow> (crc_shift ^^ n) (push_bit n w) = w"
proof (induction n arbitrary: w)
  case 0
  then show ?case by simp
next
  case (Suc n)
  have high: "\<not> bit w k" if "32 - Suc n \<le> k" for k
  proof -
    have "bit (drop_bit (32 - Suc n) w) (k - (32 - Suc n)) = bit w k"
      using that by (simp add: bit_drop_bit_eq)
    with Suc.prems(2) show ?thesis by simp
  qed
  have "crc_shift (push_bit (Suc n) w) = push_bit n w"
  proof -
    have "drop_bit 1 (push_bit (Suc n) w) = push_bit n w"
    proof (rule bit_word_eqI)
      fix k assume k: "k < LENGTH(32)"
      then show "bit (drop_bit 1 (push_bit (Suc n) w)) k = bit (push_bit n w) k"
        using high [of "k - n"] Suc.prems(1)
        by (cases "k = 31") (auto simp: bit_drop_bit_eq bit_push_bit_iff impossible_bit simp del: push_bit_Suc)
    qed
    moreover have "\<not> bit (push_bit (Suc n) w) 0" by (simp add: bit_push_bit_iff del: push_bit_Suc)
    ultimately show ?thesis by (simp add: crc_shift_alt)
  qed
  moreover have "drop_bit (32 - n) w = 0"
    by (rule bit_word_eqI) (use high Suc.prems(1) in \<open>auto simp: bit_simps\<close>)
  ultimately show ?case using Suc by (simp add: funpow_swap1)
qed

subsection \<open>The table computes the register\<close>

lemma crc_table_nth: "n < 256 \<Longrightarrow> crc_table ! n = (crc_shift ^^ 8) (of_nat n)"
  by (simp add: crc_table_def)

lemma crc_step_eq: "crc_step v b = crc_step_bits v b"
proof -
  let ?x = "v XOR ucast b"
  have low: "?x AND 0xff = take_bit 8 ?x" using take_bit_eq_mask [of 8 ?x] by (simp add: mask_eq_exp_minus_1)
  have "unat (take_bit 8 ?x) = take_bit 8 (unat ?x)" by (simp only: unsigned_take_bit_eq)
  then have "unat (take_bit 8 ?x) < 256"
    using take_bit_nat_less_exp [of 8 "unat ?x"] by simp
  then have t: "crc_table ! unat (?x AND 0xff) = (crc_shift ^^ 8) (take_bit 8 ?x)"
    by (simp only: low crc_table_nth) simp
  have split: "?x = take_bit 8 ?x XOR push_bit 8 (drop_bit 8 v)"
    by (rule bit_word_eqI) (auto simp: bit_simps dest: bit_imp_le_length)
  have "(crc_shift ^^ 8) (push_bit 8 (drop_bit 8 v)) = drop_bit 8 v"
    by (rule crc_shifts_push) (auto intro!: bit_word_eqI simp: bit_simps dest: bit_imp_le_length)
  then have "(crc_shift ^^ 8) ?x = (crc_shift ^^ 8) (take_bit 8 ?x) XOR drop_bit 8 v"
    by (subst split) (simp only: crc_shifts_xor)
  then show ?thesis by (simp only: crc_step_def crc_step_bits_def t)
qed

lemma crc32_eq_bits: "crc32 data = crc32_bits data"
  by (simp add: crc32_def crc32_bits_def crc_step_eq [abs_def])

subsection \<open>Four consecutive bytes\<close>

text \<open>Up to four bytes enter the register as one little-endian word.\<close>

fun little_endian :: "bytes \<Rightarrow> u32" where
  "little_endian [] = 0"
| "little_endian (b # bs) = ucast b XOR push_bit 8 (little_endian bs)"

lemma bit_little_endian:
  "bit (little_endian bs) n \<longleftrightarrow> n < 32 \<and> n < 8 * length bs \<and> bit (bs ! (n div 8)) (n mod 8)"
proof (induction bs arbitrary: n)
  case Nil
  then show ?case by simp
next
  case (Cons b bs)
  show ?case
  proof (cases "n < 8")
    case True
    then show ?thesis by (auto simp: bit_simps)
  next
    case False
    then have "n div 8 = Suc ((n - 8) div 8)" "n mod 8 = (n - 8) mod 8"
      by (simp_all add: le_div_geq le_mod_geq)
    with False show ?thesis
      by (auto simp: bit_simps Cons.IH dest: bit_imp_le_length)
  qed
qed

lemma little_endian_inj:
  assumes "length xs = length ys" and "length xs \<le> 4" and "little_endian xs = little_endian ys"
  shows "xs = ys"
proof (rule nth_equalityI)
  show "length xs = length ys" by (rule assms(1))
  fix i assume i: "i < length xs"
  show "xs ! i = ys ! i"
  proof (rule bit_word_eqI)
    fix n assume n: "n < LENGTH(8)"
    have "bit (little_endian xs) (8 * i + n) = bit (little_endian ys) (8 * i + n)"
      using assms(3) by simp
    then show "bit (xs ! i) n = bit (ys ! i) n"
      using i n assms(1,2) by (auto simp: bit_little_endian)
  qed
qed

lemma crc_steps_word:
  "length xs \<le> 4 \<Longrightarrow>
     foldl crc_step_bits v xs = (crc_shift ^^ (8 * length xs)) (v XOR little_endian xs)"
proof (induction xs arbitrary: v)
  case Nil
  then show ?case by simp
next
  case (Cons x xs)
  have fit: "(crc_shift ^^ 8) (push_bit 8 (little_endian xs)) = little_endian xs"
    using Cons.prems
    by (intro crc_shifts_push) (auto intro!: bit_word_eqI simp: bit_drop_bit_eq bit_little_endian)
  have "crc_step_bits v x XOR little_endian xs
      = (crc_shift ^^ 8) (v XOR ucast x) XOR (crc_shift ^^ 8) (push_bit 8 (little_endian xs))"
    by (simp only: crc_step_bits_def fit)
  also have "\<dots> = (crc_shift ^^ 8) (v XOR little_endian (x # xs))"
    by (simp only: crc_shifts_xor [symmetric] little_endian.simps xor.assoc)
  finally have "foldl crc_step_bits v (x # xs)
      = (crc_shift ^^ (8 * length xs)) ((crc_shift ^^ 8) (v XOR little_endian (x # xs)))"
    using Cons by simp
  also have "\<dots> = (crc_shift ^^ (8 * length xs + 8)) (v XOR little_endian (x # xs))"
    by (simp only: funpow_add o_apply)
  finally show ?case by (simp add: add.commute)
qed

lemma crc_steps_inj: "foldl crc_step_bits v s = foldl crc_step_bits w s \<longleftrightarrow> v = w"
proof (induction s arbitrary: v w)
  case Nil
  then show ?case by simp
next
  case (Cons b s)
  have "crc_step_bits v b = crc_step_bits w b \<longleftrightarrow> v = w"
    by (simp only: crc_step_bits_def crc_shifts_inj xor_cancel)
  with Cons show ?case by simp
qed

lemma crc32_bits_burst:
  assumes "length xs = length ys" and "length xs \<le> 4" and "xs \<noteq> ys"
  shows "crc32_bits (p @ xs @ s) \<noteq> crc32_bits (p @ ys @ s)"
proof
  assume eq: "crc32_bits (p @ xs @ s) = crc32_bits (p @ ys @ s)"
  let ?v = "foldl crc_step_bits 0xffffffff p"
  have "foldl crc_step_bits (foldl crc_step_bits ?v xs) s
      = foldl crc_step_bits (foldl crc_step_bits ?v ys) s"
    using eq by (simp only: crc32_bits_def foldl_append xor_cancel)
  then have "foldl crc_step_bits ?v xs = foldl crc_step_bits ?v ys" by (simp only: crc_steps_inj)
  then have "?v XOR little_endian xs = ?v XOR little_endian ys"
    using assms(1,2) by (simp only: crc_steps_word crc_shifts_inj)
  then have "little_endian xs = little_endian ys"
    by (simp only: xor.commute [of ?v] xor_cancel)
  with assms little_endian_inj show False by blast
qed

section \<open>SHA-256 of a file\<close>

text \<open>\<open>sha256_file\<close> feeds the file to the digest in reads of 64 KiB. \<open>file = None\<close> is a
  file that cannot be opened. The digest library is given by \<open>EVP_DigestInit_ex\<close> (the fresh
  context, if there is one), \<open>EVP_DigestUpdate\<close> and \<open>EVP_DigestFinal_ex\<close>.\<close>

function file_chunks :: "nat \<Rightarrow> bytes \<Rightarrow> bytes list" where
  "file_chunks n data =
     (if n = 0 then [] else if data = [] then [] else take n data # file_chunks n (drop n data))"
  by auto
termination
  by (relation "measure (\<lambda>(n, data). length data)") auto

declare file_chunks.simps [simp del]

fun digest_updates :: "('c \<Rightarrow> bytes \<Rightarrow> 'c option) \<Rightarrow> bytes list \<Rightarrow> 'c \<Rightarrow> 'c result" where
  "digest_updates update [] c = Inr c"
| "digest_updates update (b # bs) c =
     (case update c b of None \<Rightarrow> throw ''EVP_DigestUpdate failed''
      | Some c' \<Rightarrow> digest_updates update bs c')"

definition sha256_file ::
  "'c option \<Rightarrow> ('c \<Rightarrow> bytes \<Rightarrow> 'c option) \<Rightarrow> ('c \<Rightarrow> bytes option) \<Rightarrow> string \<Rightarrow> bytes option \<Rightarrow> bytes result"
where
  "sha256_file init update final path file =
     (case file of
        None \<Rightarrow> throw (''cannot open file for SHA-256: '' @ path)
      | Some data \<Rightarrow>
          (case init of
             None \<Rightarrow> throw ''EVP_DigestInit_ex failed''
           | Some c \<Rightarrow>
               bindE (digest_updates update (file_chunks (64 * 1024) data) c) (\<lambda>c'.
               (case final c' of
                  None \<Rightarrow> throw ''EVP_DigestFinal_ex failed''
                | Some digest \<Rightarrow>
                    if length digest \<noteq> 32 then throw ''EVP_DigestFinal_ex failed''
                    else Inr digest))))"

text \<open>What the code relies on: updating with two chunks is updating with their concatenation,
  and updating with nothing changes nothing.\<close>

definition streaming :: "('c \<Rightarrow> bytes \<Rightarrow> 'c option) \<Rightarrow> bool" where
  "streaming update \<longleftrightarrow> (\<forall>c. update c [] = Some c) \<and>
     (\<forall>c a b. Option.bind (update c a) (\<lambda>c'. update c' b) = update c (a @ b))"

lemma concat_file_chunks: "0 < n \<Longrightarrow> concat (file_chunks n data) = data"
  by (induction n data rule: file_chunks.induct) (simp add: file_chunks.simps)

lemma digest_updates_streaming:
  assumes "streaming update"
  shows "digest_updates update bs c =
    (case update c (concat bs) of None \<Rightarrow> throw ''EVP_DigestUpdate failed'' | Some c' \<Rightarrow> Inr c')"
proof (induction bs arbitrary: c)
  case Nil
  then show ?case using assms by (simp add: streaming_def)
next
  case (Cons b bs)
  have "update c (b @ concat bs) = Option.bind (update c b) (\<lambda>c'. update c' (concat bs))"
    using assms by (simp add: streaming_def)
  with Cons show ?case by (simp split: option.split)
qed

lemma sha256_file_one_update:
  assumes "streaming update"
  shows "sha256_file init update final path (Some data) =
    (case init of None \<Rightarrow> throw ''EVP_DigestInit_ex failed''
     | Some c \<Rightarrow> (case update c data of
         None \<Rightarrow> throw ''EVP_DigestUpdate failed''
       | Some c' \<Rightarrow> (case final c' of
           None \<Rightarrow> throw ''EVP_DigestFinal_ex failed''
         | Some digest \<Rightarrow> if length digest \<noteq> 32 then throw ''EVP_DigestFinal_ex failed''
                         else Inr digest)))"
  by (simp add: sha256_file_def digest_updates_streaming [OF assms] concat_file_chunks
      split: option.split)

section \<open>Hexadecimal digits\<close>

text \<open>\<open>hex_digest\<close> prints each byte with \<open>std::hex\<close>, width two, filled with \<open>0\<close>:
  \<open>print_hex\<close> is the stream's formatting of an unsigned number, \<open>pad\<close> the filling.\<close>

definition hex_char :: "nat \<Rightarrow> char" where
  "hex_char n = ''0123456789abcdef'' ! n"

fun print_hex :: "nat \<Rightarrow> string" where
  "print_hex n = (if n < 16 then [hex_char n] else print_hex (n div 16) @ [hex_char (n mod 16)])"

declare print_hex.simps [simp del]

definition pad :: "nat \<Rightarrow> char \<Rightarrow> string \<Rightarrow> string" where
  "pad width c s = replicate (width - length s) c @ s"

definition hex_digest :: "bytes \<Rightarrow> string" where
  "hex_digest digest = concat (map (\<lambda>b. pad 2 CHR ''0'' (print_hex (unat b))) digest)"

lemma pad_print_hex:
  "n < 256 \<Longrightarrow> pad 2 CHR ''0'' (print_hex n) = [hex_char (n div 16), hex_char (n mod 16)]"
proof -
  assume n: "n < 256"
  then have d: "n div 16 < 16" by linarith
  show ?thesis
  proof (cases "n < 16")
    case True
    then show ?thesis by (simp add: print_hex.simps [of n] pad_def hex_char_def)
  next
    case False
    with d show ?thesis
      by (simp add: print_hex.simps [of n] print_hex.simps [of "n div 16"] pad_def)
  qed
qed

section \<open>Properties\<close>

text \<open>C18: The lookup table computes the polynomial division. For every input, the table-driven
  loop gives the register of the bit-serial division by the reflected polynomial 0xedb88320,
  eight shifts per byte.\<close>

theorem crc32_table_is_division: "crc32 data = crc32_bits data"
  by (rule crc32_eq_bits)

text \<open>C19: The checksum detects every corruption confined to four consecutive bytes: payloads of the
  same length that differ, and only within such a window, have different checksums.\<close>

theorem crc32_detects_burst:
  assumes "length xs = length ys" and "length xs \<le> 4" and "xs \<noteq> ys"
  shows "crc32 (p @ xs @ s) \<noteq> crc32 (p @ ys @ s)"
  using crc32_bits_burst [OF assms] by (simp only: crc32_eq_bits not_False_eq_True)

theorem crc32_detects_burst_witness: "crc32 [1, 2, 3, 4] \<noteq> crc32 [1, 9, 3, 4]"
  using crc32_detects_burst [of "[2]" "[9]" "[1]" "[3, 4]"] by simp

end
