(* ===== verification/File_IO.thy ===== *)
theory File_IO
  imports Control_Stream Cli Effects Checksum
begin

text \<open>
  The machine a process runs on, and the file operations of the program:
  \<open>include/file_io.hpp\<close> (\<open>read_block\<close>, \<open>write_all_at\<close>), the \<open>std::filesystem\<close> and stream
  calls the components make, and the sending of control frames and UDP packets.

  \<open>host\<close> is what the processes of all roles share; each component extends it by its own state.
  Files are byte sequences under their path (a path is what the system call sees, so up to its
  first NUL), and an open descriptor of a file is the path it was opened under. \<open>h_events\<close>
  lists the outcomes of the coming system calls, as in \<open>Control_Stream\<close>: after the listed
  ones every call succeeds in full. The lemmas show that the partial-transfer loops, when
  nothing but interruptions fails, read and write exactly the block asked for.
\<close>

section \<open>Blocks of a file\<close>

definition write_at :: "bytes \<Rightarrow> nat \<Rightarrow> bytes \<Rightarrow> bytes" where
  "write_at content offset data =
     (if data = [] then content
      else take offset (content @ replicate (offset - length content) 0) @ data @
           drop (offset + length data) content)"

text \<open>The two loops. \<open>pread\<close> returns at most what lies before the end of the file, and zero
  bytes there.\<close>

fun pread_all ::
  "string \<Rightarrow> bytes \<Rightarrow> nat \<Rightarrow> nat \<Rightarrow> bytes \<Rightarrow> io_event list \<Rightarrow> bytes result \<times> io_event list" where
  "pread_all path content offset wanted received [] =
     (let chunk = take (wanted - length received) (drop (offset + length received) content)
      in if length (received @ chunk) < wanted
         then (throw (''unexpected EOF while reading source file: '' @ path), [])
         else (Inr (received @ chunk), []))"
| "pread_all path content offset wanted received (Fails e # evs) =
     (if length received \<ge> wanted then (Inr received, Fails e # evs)
      else if e = EINTR then pread_all path content offset wanted received evs
      else (system_error (''pread '' @ path) e, evs))"
| "pread_all path content offset wanted received (Upto k # evs) =
     (if length received \<ge> wanted then (Inr received, Upto k # evs)
      else let chunk = take (min k (wanted - length received)) (drop (offset + length received) content)
        in if chunk = [] then (throw (''unexpected EOF while reading source file: '' @ path), evs)
           else pread_all path content offset wanted (received @ chunk) evs)"

fun pwrite_all :: "bytes \<Rightarrow> nat \<Rightarrow> bytes \<Rightarrow> io_event list \<Rightarrow> unit result \<times> bytes \<times> io_event list" where
  "pwrite_all data offset content [] = (Inr (), write_at content offset data, [])"
| "pwrite_all data offset content (Fails e # evs) =
     (if data = [] then (Inr (), content, Fails e # evs)
      else if e = EINTR then pwrite_all data offset content evs
      else (system_error ''pwrite'' e, content, evs))"
| "pwrite_all data offset content (Upto k # evs) =
     (if data = [] then (Inr (), content, Upto k # evs)
      else if k = 0 then (throw ''pwrite made no progress'', content, evs)
      else pwrite_all (drop k data) (offset + k) (write_at content offset (take k data)) evs)"

definition block_offset :: "u32 \<Rightarrow> u64" where
  "block_offset block_id = ucast block_id * of_nat kPayloadSize"

definition wanted_size :: "u64 \<Rightarrow> u64 \<Rightarrow> nat" where
  "wanted_size file_size offset = unat (min (of_nat kPayloadSize) (file_size - offset))"

definition read_block ::
  "bytes \<Rightarrow> string \<Rightarrow> u64 \<Rightarrow> u32 \<Rightarrow> io_event list \<Rightarrow> (bytes \<times> u64) result \<times> io_event list" where
  "read_block content path file_size block_id evs =
     (let offset = block_offset block_id;
          (r, evs') = pread_all path content (unat offset) (wanted_size file_size offset) [] evs
      in (bindE r (\<lambda>payload. Inr (payload, offset)), evs'))"

text \<open>The bytes of block \<open>b\<close>.\<close>

definition block_bytes :: "bytes \<Rightarrow> nat \<Rightarrow> bytes" where
  "block_bytes content b = take kPayloadSize (drop (b * kPayloadSize) content)"

lemma pread_all_benign:
  "list_all benign evs \<Longrightarrow> offset + wanted \<le> length content \<Longrightarrow>
   received = take (length received) (drop offset content) \<Longrightarrow> length received \<le> wanted \<Longrightarrow>
   \<exists>evs'. pread_all path content offset wanted received evs
      = (Inr (take wanted (drop offset content)), evs') \<and> list_all benign evs'"
proof (induction path content offset wanted received evs rule: pread_all.induct)
  case (1 path content offset wanted received)
  have "received @ take (wanted - length received) (drop (offset + length received) content)
      = take wanted (drop offset content)"
    using 1 take_add [of "length received" "wanted - length received" "drop offset content"]
    by (simp add: add.commute)
  with 1 show ?case by (simp add: Let_def)
next
  case (2 path content offset wanted received e evs)
  then show ?case by auto
next
  case (3 path content offset wanted received k evs)
  show ?case
  proof (cases "length received \<ge> wanted")
    case True
    with 3 show ?thesis by auto
  next
    case False
    let ?chunk = "take (min k (wanted - length received)) (drop (offset + length received) content)"
    have ne: "?chunk \<noteq> []" using False 3 by auto
    have "received @ ?chunk = take (length received + min k (wanted - length received)) (drop offset content)"
      using 3 take_add [of "length received" "min k (wanted - length received)" "drop offset content"]
      by (simp add: add.commute)
    moreover have "length (received @ ?chunk) = length received + min k (wanted - length received)"
      using False 3 by auto
    ultimately have "received @ ?chunk = take (length (received @ ?chunk)) (drop offset content)"
      by (simp only:)
    with 3 ne False show ?thesis by (simp add: Let_def)
  qed
qed

lemma length_write_at: "offset + length data \<le> length content \<Longrightarrow> length (write_at content offset data) = length content"
  by (simp add: write_at_def)

lemma write_at_split:
  assumes "k \<le> length data" and "offset + length data \<le> length content"
  shows "write_at (write_at content offset (take k data)) (offset + k) (drop k data) = write_at content offset data"
proof -
  have "take k data @ drop k data @ rest = data @ rest" for rest
    by (simp flip: append_assoc)
  then show ?thesis using assms by (auto simp: write_at_def min_def add.commute)
qed

lemma pwrite_all_benign:
  "list_all benign evs \<Longrightarrow> offset + length data \<le> length content \<Longrightarrow>
   \<exists>evs'. pwrite_all data offset content evs = (Inr (), write_at content offset data, evs') \<and> list_all benign evs'"
proof (induction data offset content evs rule: pwrite_all.induct)
  case (3 data offset content k evs)
  show ?case
  proof (cases "data = []")
    case True
    with 3 show ?thesis by (auto simp: write_at_def)
  next
    case False
    have fit: "length (write_at content offset (take k data)) = length content"
      using 3 by (intro length_write_at) auto
    have "\<exists>evs'. pwrite_all (drop k data) (offset + k) (write_at content offset (take k data)) evs
        = (Inr (), write_at (write_at content offset (take k data)) (offset + k) (drop k data), evs')
          \<and> list_all benign evs'"
    proof (cases "k \<le> length data")
      case True
      with 3 False fit show ?thesis by (intro "3.IH") auto
    next
      case big: False
      have stop: "\<exists>evs'. pwrite_all [] o' c evs = (Inr (), c, evs') \<and> list_all benign evs'" for o' c
        using 3 by (cases evs; cases "hd evs") (auto simp: write_at_def)
      from big show ?thesis using stop by (simp add: write_at_def)
    qed
    moreover have "write_at (write_at content offset (take k data)) (offset + k) (drop k data)
        = write_at content offset data"
      using 3 write_at_split [of k data offset content]
      by (cases "k \<le> length data") (auto simp: write_at_def)
    ultimately show ?thesis using 3 False by auto
  qed
qed (auto simp: write_at_def)

text \<open>Whatever happens, a write changes only bytes of its own range.\<close>

lemma pwrite_all_frame:
  "pwrite_all data offset content evs = (r, content', evs') \<Longrightarrow> offset + length data \<le> length content \<Longrightarrow>
   length content' = length content \<and>
   (\<forall>i. i < offset \<or> offset + length data \<le> i \<longrightarrow> i < length content \<longrightarrow> content' ! i = content ! i)"
proof (induction data offset content evs rule: pwrite_all.induct)
  case (1 data offset content)
  then show ?case by (auto simp: write_at_def nth_append)
next
  case (2 data offset content e evs)
  then show ?case by (auto split: if_splits)
next
  case (3 data offset content k evs)
  show ?case
  proof (cases "data = [] \<or> k = 0")
    case True
    with "3.prems" show ?thesis by (auto split: if_splits)
  next
    case False
    let ?c = "write_at content offset (take k data)"
    have len: "length ?c = length content" using 3 by (intro length_write_at) auto
    have same: "i < offset \<or> offset + length data \<le> i \<Longrightarrow> i < length content \<Longrightarrow> ?c ! i = content ! i" for i
      using "3.prems"(2) by (auto simp: write_at_def nth_append min_def split: if_splits)
    show ?thesis
    proof (cases "k \<le> length data")
      case True
      with False 3 len have "length content' = length ?c \<and>
         (\<forall>i. i < offset + k \<or> offset + k + length (drop k data) \<le> i \<longrightarrow> i < length ?c \<longrightarrow> content' ! i = ?c ! i)"
        by auto
      with same len True show ?thesis by auto
    next
      case big: False
      then have "pwrite_all [] (offset + k) ?c evs = (r, content', evs')" using False "3.prems" by simp
      then have "content' = ?c"
        by (cases evs; cases "hd evs") (auto simp: write_at_def)
      with same len show ?thesis by auto
    qed
  qed
qed

text \<open>A block that was read without an exception is that block of the file, whatever the calls
  returned in between.\<close>

lemma pread_all_ok:
  "pread_all path content offset wanted received evs = (Inr data, evs') \<Longrightarrow>
   received = take (length received) (drop offset content) \<Longrightarrow> length received \<le> wanted \<Longrightarrow>
   data = take wanted (drop offset content) \<and> length data = wanted"
proof (induction path content offset wanted received evs rule: pread_all.induct)
  case (1 path content offset wanted received)
  have "received @ take (wanted - length received) (drop (offset + length received) content)
      = take wanted (drop offset content)"
    using "1.prems" take_add [of "length received" "wanted - length received" "drop offset content"]
    by (simp add: add.commute)
  with "1.prems" show ?case by (auto simp: Let_def split: if_splits)
next
  case (2 path content offset wanted received e evs)
  then show ?case by (auto split: if_splits)
next
  case (3 path content offset wanted received k evs)
  show ?case
  proof (cases "length received \<ge> wanted")
    case True
    with "3.prems" have "data = received" "length received = wanted" by auto
    with "3.prems" show ?thesis by metis
  next
    case False
    let ?chunk = "take (min k (wanted - length received)) (drop (offset + length received) content)"
    from "3.prems" False have ne: "?chunk \<noteq> []"
      and rest: "pread_all path content offset wanted (received @ ?chunk) evs = (Inr data, evs')"
      by (auto simp: Let_def split: if_splits)
    have "received @ ?chunk = take (length received + min k (wanted - length received)) (drop offset content)"
      using "3.prems" take_add [of "length received" "min k (wanted - length received)" "drop offset content"]
      by (simp add: add.commute)
    then have "received @ ?chunk = take (length (received @ ?chunk)) (drop offset content)"
      by (simp add: min_def take_Cons' split: if_splits)
    moreover have "length (received @ ?chunk) \<le> wanted" using False by simp
    ultimately show ?thesis by (rule "3.IH" [OF False refl ne rest])
  qed
qed

lemma read_block_ok:
  assumes "read_block content path file_size block_id evs = (Inr (payload, offset), evs')"
  shows "offset = block_offset block_id \<and>
    payload = take (wanted_size file_size offset) (drop (unat offset) content) \<and>
    length payload = wanted_size file_size offset"
  using assms
  by (auto simp: read_block_def Let_def bindE_Inr_iff split: prod.splits dest!: pread_all_ok)

end
