(* ===== verification/Blocks.thy ===== *)
theory Blocks
  imports File_IO
begin

text \<open>
  A file as a sequence of blocks of \<open>kPayloadSize\<close> bytes: how many there are, the check of an
  announced number of blocks, where a block lies, and what reading and writing one does. The
  lemmas are about natural numbers, with the sizes for which the 64-bit arithmetic does not wrap.
\<close>

section \<open>The number of blocks\<close>

text \<open>The senders count the blocks of their file.\<close>

definition blocks_of_file :: "u64 \<Rightarrow> u64" where
  "blocks_of_file file_size = (file_size + of_nat kPayloadSize - 1) div of_nat kPayloadSize"

text \<open>The check of the block number that both receiver and proxy make of a file they are offered.\<close>

definition expected_blocks :: "u64 \<Rightarrow> u32 \<Rightarrow> u64" where
  "expected_blocks file_size block_size = (file_size + ucast block_size - 1) div ucast block_size"

definition blocks_consistent :: "u64 \<Rightarrow> u32 \<Rightarrow> u32 \<Rightarrow> bool" where
  "blocks_consistent file_size block_size total_blocks \<longleftrightarrow>
     \<not> (expected_blocks file_size block_size > 0xffffffff
        \<or> ucast (expected_blocks file_size block_size) \<noteq> total_blocks)"

text \<open>The block count as a number, rounded up.\<close>

definition exact_blocks :: "u64 \<Rightarrow> u32 \<Rightarrow> bool" where
  "exact_blocks file_size total_blocks \<longleftrightarrow>
     unat total_blocks = (unat file_size + (kPayloadSize - 1)) div kPayloadSize"

lemma expected_blocks_no_wrap:
  assumes "unat file_size + 1199 < 2 ^ 64"
  shows "unat (expected_blocks file_size (of_nat kPayloadSize)) = (unat file_size + (kPayloadSize - 1)) div kPayloadSize"
proof -
  have "file_size + ucast (of_nat kPayloadSize :: u32) - 1 = file_size + 1199"
    by (simp add: kPayloadSize_def)
  moreover have "unat (file_size + 1199) = unat file_size + 1199"
    using assms by (simp add: unat_word_ariths)
  ultimately have "unat ((file_size + ucast (of_nat kPayloadSize :: u32) - 1) div 1200) = (unat file_size + 1199) div 1200"
    by (simp only: unat_div) simp
  then show ?thesis by (simp add: expected_blocks_def kPayloadSize_def)
qed

lemma unat_ucast_small: "x \<le> 0xffffffff \<Longrightarrow> unat (ucast (x :: u64) :: u32) = unat x"
proof -
  assume "x \<le> 0xffffffff"
  then have "unat x \<le> unat (0xffffffff :: u64)" by (simp only: word_le_nat_alt)
  then show ?thesis by (simp add: unsigned_ucast_eq take_bit_nat_eq_self)
qed

lemma blocks_consistent_exact:
  assumes "blocks_consistent file_size (of_nat kPayloadSize) total_blocks" and "unat file_size + 1199 < 2 ^ 64"
  shows "exact_blocks file_size total_blocks"
proof -
  let ?e = "expected_blocks file_size (of_nat kPayloadSize)"
  from assms(1) have "?e \<le> 0xffffffff" and total: "total_blocks = ucast ?e"
    by (auto simp: blocks_consistent_def not_less)
  with unat_ucast_small have "unat total_blocks = unat ?e" by blast
  with expected_blocks_no_wrap [OF assms(2)] show ?thesis by (simp add: exact_blocks_def)
qed

lemma blocks_of_file_expected: "blocks_of_file file_size = expected_blocks file_size (of_nat kPayloadSize)"
  by (simp add: blocks_of_file_def expected_blocks_def kPayloadSize_def)

lemma blocks_of_file_exact:
  assumes "\<not> blocks_of_file file_size > 0xffffffff" and "unat file_size + 1199 < 2 ^ 64"
  shows "exact_blocks file_size (ucast (blocks_of_file file_size))"
  using assms by (intro blocks_consistent_exact) (simp_all add: blocks_consistent_def blocks_of_file_expected)

section \<open>The place of a block\<close>

lemma unat_block_offset: "unat (block_offset b) = unat b * kPayloadSize"
proof -
  have "unat (ucast b :: u64) = unat b"
    using unat_u32_less [of b] by (simp add: unsigned_ucast_eq take_bit_nat_eq_self)
  moreover have "unat b * 1200 < 2 ^ 64" using unat_u32_less [of b] by simp
  ultimately show ?thesis by (simp add: block_offset_def kPayloadSize_def unat_word_ariths)
qed

lemma block_inside:
  assumes "exact_blocks file_size total_blocks" and "b < total_blocks"
  shows "unat b * kPayloadSize < unat file_size"
proof -
  have "unat b < (unat file_size + (kPayloadSize - 1)) div kPayloadSize"
    using assms by (simp add: exact_blocks_def word_less_nat_alt)
  then have "Suc (unat b) * kPayloadSize \<le> unat file_size + (kPayloadSize - 1)"
    by (simp add: Suc_le_eq [symmetric] less_eq_div_iff_mult_less_eq kPayloadSize_def del: mult_Suc)
  then show ?thesis by (simp add: kPayloadSize_def)
qed

lemma wanted_in_file:
  assumes "exact_blocks file_size total_blocks" and "b < total_blocks"
  shows "wanted_size file_size (block_offset b) = min kPayloadSize (unat file_size - unat b * kPayloadSize)"
proof -
  have "block_offset b \<le> file_size"
    using block_inside [OF assms] by (simp add: word_le_nat_alt unat_block_offset)
  then have "unat (file_size - block_offset b) = unat file_size - unat b * kPayloadSize"
    by (simp add: unat_sub unat_block_offset)
  then show ?thesis by (simp add: wanted_size_def min_def word_le_nat_alt kPayloadSize_def)
qed

section \<open>Contents\<close>

lemma length_block_bytes: "length (block_bytes content b) = min kPayloadSize (length content - b * kPayloadSize)"
  by (simp add: block_bytes_def min.commute)

text \<open>A block read without an exception is that block of the file, whatever the calls returned in
  between.\<close>

lemma read_block_bytes:
  assumes "read_block content path file_size b evs = (Inr (payload, offset), evs')"
    and "exact_blocks file_size total_blocks" and "b < total_blocks" and "unat file_size = length content"
  shows "offset = block_offset b \<and> payload = block_bytes content (unat b)"
proof -
  from read_block_ok [OF assms(1)] have off: "offset = block_offset b"
    and p: "payload = take (wanted_size file_size offset) (drop (unat offset) content)" by blast+
  from p have "payload = take (min kPayloadSize (length content - unat b * kPayloadSize))
      (drop (unat b * kPayloadSize) content)"
    by (simp add: off wanted_in_file [OF assms(2,3)] unat_block_offset assms(4))
  also have "\<dots> = block_bytes content (unat b)"
    by (simp add: block_bytes_def min_def)
  finally show ?thesis using off by simp
qed

lemma concat_blocks: "concat (map (block_bytes content) [0..<n]) = take (n * kPayloadSize) content"
proof (induction n)
  case 0
  then show ?case by simp
next
  case (Suc n)
  have "take (Suc n * kPayloadSize) content = take (n * kPayloadSize) content @ block_bytes content n"
    using take_add [of "n * kPayloadSize" kPayloadSize content]
    by (simp add: block_bytes_def add.commute)
  with Suc show ?case by simp
qed

lemma blocks_determine:
  assumes "length a \<le> n * kPayloadSize" and "length b \<le> n * kPayloadSize"
    and "\<And>i. i < n \<Longrightarrow> block_bytes a i = block_bytes b i"
  shows "a = b"
proof -
  have "concat (map (block_bytes a) [0..<n]) = concat (map (block_bytes b) [0..<n])"
    using assms(3) by (intro arg_cong [where f = concat]) simp
  with assms(1,2) show ?thesis by (simp add: concat_blocks)
qed

lemma pwrite_all_Nil: "pwrite_all [] offset c evs = (Inr (), c, evs)"
  by (cases evs; cases "hd evs") (auto simp: write_at_def)

lemma pwrite_all_Inr:
  "pwrite_all data offset content evs = (Inr u, content', evs') \<Longrightarrow>
   offset + length data \<le> length content \<Longrightarrow> content' = write_at content offset data"
proof (induction evs arbitrary: data offset content)
  case Nil
  then show ?case by simp
next
  case (Cons ev evs)
  show ?case
  proof (cases "data = []")
    case True
    with Cons.prems show ?thesis by (simp add: pwrite_all_Nil write_at_def)
  next
    case False
    show ?thesis
    proof (cases ev)
      case (Fails e)
      with Cons False show ?thesis by (auto split: if_splits)
    next
      case (Upto k)
      let ?c = "write_at content offset (take k data)"
      from Upto Cons.prems False
      have rest: "pwrite_all (drop k data) (offset + k) ?c evs = (Inr u, content', evs')"
        by (auto split: if_splits)
      have len: "length ?c = length content" using Cons.prems(2) by (intro length_write_at) auto
      show ?thesis
      proof (cases "k \<le> length data")
        case True
        have "content' = write_at ?c (offset + k) (drop k data)"
          by (rule Cons.IH [OF rest]) (use True Cons.prems(2) len in simp)
        with write_at_split [OF True Cons.prems(2)] show ?thesis by simp
      next
        case big: False
        with rest show ?thesis by (simp add: pwrite_all_Nil)
      qed
    qed
  qed
qed

lemma block_of_write_same:
  assumes "b * kPayloadSize + length data \<le> length content" and "length data \<le> kPayloadSize"
    and "length data = kPayloadSize \<or> b * kPayloadSize + length data = length content"
  shows "block_bytes (write_at content (b * kPayloadSize) data) b = data"
  using assms by (cases "data = []") (auto simp: write_at_def block_bytes_def)

lemma block_of_write_other:
  assumes "length content' = length content" and "c \<noteq> b" and "n \<le> kPayloadSize"
    and "\<And>i. i < b * kPayloadSize \<or> b * kPayloadSize + n \<le> i \<Longrightarrow> i < length content \<Longrightarrow> content' ! i = content ! i"
  shows "block_bytes content' c = block_bytes content c"
proof (rule nth_equalityI)
  show "length (block_bytes content' c) = length (block_bytes content c)"
    using assms(1) by (simp add: block_bytes_def)
  fix i assume "i < length (block_bytes content' c)"
  then have i: "i < kPayloadSize" "c * kPayloadSize + i < length content"
    using assms(1) by (auto simp: block_bytes_def)
  have "c * kPayloadSize + i < b * kPayloadSize \<or> b * kPayloadSize + n \<le> c * kPayloadSize + i"
  proof (cases "c < b")
    case True
    then have "Suc c * kPayloadSize \<le> b * kPayloadSize" by (intro mult_le_mono1) simp
    with i(1) show ?thesis by simp
  next
    case False
    then have "Suc b * kPayloadSize \<le> c * kPayloadSize" using assms(2) by (intro mult_le_mono1) simp
    with assms(3) show ?thesis by simp
  qed
  with assms(4) i have "content' ! (c * kPayloadSize + i) = content ! (c * kPayloadSize + i)" by blast
  with i assms(1) show "block_bytes content' c ! i = block_bytes content c ! i"
    by (simp add: block_bytes_def)
qed

end
