(* ===== verification/Host.thy ===== *)
theory Host
  imports Blocks
begin

text \<open>
  The machine a process runs on: its files, the outcomes of the coming system calls, the clock
  and what was sent. Each component's state record extends \<open>host\<close>. A path is what the system
  call sees (the text up to the first NUL), and an open descriptor of a file is the path it was
  opened under. \<open>h_events\<close> is used as in \<open>Control_Stream\<close>: each call takes one outcome
  (\<open>Upto\<close> is success), and after the listed ones every call succeeds.
\<close>

record host =
  h_files :: "string \<Rightarrow> bytes option"
  h_events :: "io_event list"
  h_clock :: nat
  h_frames :: "(int \<times> bytes) list"
  h_packets :: "((u32 \<times> u16) \<times> bytes) list"
  h_getenv :: environment
  h_statvfs :: "string \<Rightarrow> string + u64 \<times> u64"
  h_scan :: "string \<Rightarrow> string + dir_entry list"

definition syscall :: "string \<Rightarrow> ('a host_scheme, unit) eff" where
  "syscall operation s = (case h_events s of
      [] \<Rightarrow> (Inr (), s)
    | Fails e # evs \<Rightarrow> (system_error operation e, s\<lparr>h_events := evs\<rparr>)
    | Upto k # evs \<Rightarrow> (Inr (), s\<lparr>h_events := evs\<rparr>))"

text \<open>A call repeated while it is interrupted.\<close>

definition syscall_retry :: "string \<Rightarrow> ('a host_scheme, unit) eff" where
  "syscall_retry operation =
     bindS (modifyS (\<lambda>s. s\<lparr>h_events := dropWhile (\<lambda>e. e = Fails EINTR) (h_events s)\<rparr>)) (\<lambda>_.
     syscall operation)"

definition file_content :: "string \<Rightarrow> 'a host_scheme \<Rightarrow> bytes option" where
  "file_content path s = h_files s (c_str path)"

definition put_file :: "string \<Rightarrow> bytes option \<Rightarrow> ('a host_scheme, unit) eff" where
  "put_file path content = modifyS (\<lambda>s. s\<lparr>h_files := (h_files s)(c_str path := content)\<rparr>)"

definition content_or_empty :: "bytes option \<Rightarrow> bytes" where
  "content_or_empty c = (case c of None \<Rightarrow> [] | Some b \<Rightarrow> b)"

section \<open>Calls on files\<close>

definition file_exists :: "string \<Rightarrow> ('a host_scheme, bool) eff" where
  "file_exists path = getS (\<lambda>s. file_content path s \<noteq> None)"

text \<open>\<open>std::filesystem::file_size(path, error)\<close>: \<open>None\<close> when the error code is set.\<close>

definition file_size_or_error :: "string \<Rightarrow> ('a host_scheme, u64 option) eff" where
  "file_size_or_error path =
     tryS (bindS (syscall ''stat'') (\<lambda>_. getS (\<lambda>s. map_option (\<lambda>c. of_nat (length c)) (file_content path s))))
       (\<lambda>e. returnS None)"

text \<open>\<open>open(path, O_CREAT|O_RDWR)\<close>, with \<open>O_TRUNC\<close> on request, and \<open>ftruncate\<close>; the second
  takes the size as a signed number.\<close>

definition open_file :: "string \<Rightarrow> bool \<Rightarrow> string \<Rightarrow> ('a host_scheme, unit) eff" where
  "open_file path trunc operation =
     bindS (syscall operation) (\<lambda>_.
     bindS (getS (file_content path)) (\<lambda>old.
     put_file path (Some (if trunc then [] else content_or_empty old))))"

definition resize :: "nat \<Rightarrow> bytes \<Rightarrow> bytes" where
  "resize n content = take n content @ replicate (n - length content) 0"

definition ftruncate :: "string \<Rightarrow> u64 \<Rightarrow> string \<Rightarrow> ('a host_scheme, unit) eff" where
  "ftruncate path n operation =
     bindS (syscall operation) (\<lambda>_.
       if sint n < 0 then liftE (system_error operation (Other_errno ''Invalid argument''))
       else bindS (getS (file_content path)) (\<lambda>old.
         put_file path (Some (resize (unat n) (content_or_empty old)))))"

text \<open>\<open>std::filesystem::rename(from, to, error)\<close> followed by a throw on error, and \<open>remove\<close>
  with an ignored error.\<close>

definition rename_file :: "string \<Rightarrow> string \<Rightarrow> string \<Rightarrow> ('a host_scheme, unit) eff" where
  "rename_file from_path to_path operation =
     bindS (syscall operation) (\<lambda>_.
     bindS (getS (file_content from_path)) (\<lambda>content.
       (case content of
          None \<Rightarrow> liftE (system_error operation ENOENT)
        | Some c \<Rightarrow>
            bindS (put_file from_path None) (\<lambda>_. put_file to_path (Some c)))))"

definition remove_file :: "string \<Rightarrow> ('a host_scheme, unit) eff" where
  "remove_file path =
     tryS (bindS (syscall ''unlink'') (\<lambda>_. put_file path None)) (\<lambda>e. returnS ())"

text \<open>\<open>std::ofstream(path, trunc)\<close> and \<open>flush\<close>: created or emptied, then written; a failing
  write leaves a prefix.\<close>

definition write_text_file :: "string \<Rightarrow> string \<Rightarrow> string \<Rightarrow> string \<Rightarrow> ('a host_scheme, unit) eff" where
  "write_text_file path text open_error write_error =
     bindS (tryS (open_file path True open_error) (\<lambda>e. throwS (open_error @ path))) (\<lambda>_.
     bindS (getS h_events) (\<lambda>evs.
       case pwrite_all (bytes_of_string text) 0 [] evs of
         (r, content, evs') \<Rightarrow>
           bindS (modifyS (\<lambda>s. s\<lparr>h_events := evs'\<rparr>)) (\<lambda>_.
           bindS (put_file path (Some content)) (\<lambda>_.
             (case r of Inl e \<Rightarrow> throwS (write_error @ path) | Inr _ \<Rightarrow> returnS ())))))"

text \<open>\<open>read_block\<close> and \<open>write_all_at\<close> on the descriptor of an open file, and the digest of a
  file, where \<open>sha\<close> is the digest function.\<close>

definition read_block_of :: "string \<Rightarrow> string \<Rightarrow> u64 \<Rightarrow> u32 \<Rightarrow> ('a host_scheme, bytes \<times> u64) eff" where
  "read_block_of fd_path file_path file_size block_id s =
     (let (r, evs) = read_block (content_or_empty (file_content fd_path s)) file_path file_size block_id (h_events s)
      in (r, s\<lparr>h_events := evs\<rparr>))"

definition write_all_at :: "string \<Rightarrow> bytes \<Rightarrow> u64 \<Rightarrow> ('a host_scheme, unit) eff" where
  "write_all_at fd_path data offset s =
     (let (r, content, evs) = pwrite_all data (unat offset) (content_or_empty (file_content fd_path s)) (h_events s)
      in (r, snd (put_file fd_path (Some content) (s\<lparr>h_events := evs\<rparr>))))"

definition hash_file :: "(bytes \<Rightarrow> bytes) \<Rightarrow> string \<Rightarrow> ('a host_scheme, bytes) eff" where
  "hash_file sha path =
     bindS (tryS (syscall ''open'') (\<lambda>e. throwS (''cannot open file for SHA-256: '' @ path))) (\<lambda>_.
     bindS (getS (file_content path)) (\<lambda>content.
       (case content of
          None \<Rightarrow> throwS (''cannot open file for SHA-256: '' @ path)
        | Some c \<Rightarrow> returnS (sha c))))"

text \<open>Both senders of files begin with \<open>stat\<close> and the number of blocks. Only regular files have
  content here.\<close>

definition stat_source :: "string \<Rightarrow> ('a host_scheme, u64) eff" where
  "stat_source file_path =
     bindS (syscall (''stat '' @ file_path)) (\<lambda>_.
     bindS (getS (file_content file_path)) (\<lambda>content.
     (case content of
        None \<Rightarrow> liftE (system_error (''stat '' @ file_path) ENOENT)
      | Some c \<Rightarrow> returnS (of_nat (length c)))))"

section \<open>Sending\<close>

text \<open>\<open>send_control_frame\<close> on a connection. Only complete frames are recorded: after a failed
  send every caller closes the connection.\<close>

definition send_frame :: "int \<Rightarrow> bytes \<Rightarrow> ('a host_scheme, unit) eff" where
  "send_frame fd frame s =
     (case send_control_frame frame ([], h_events s) of
        (Inl e, sent, evs) \<Rightarrow> (Inl e, s\<lparr>h_events := evs\<rparr>)
      | (Inr _, sent, evs) \<Rightarrow> (Inr (), s\<lparr>h_events := evs, h_frames := h_frames s @ [(fd, frame)]\<rparr>))"

section \<open>Paths\<close>

text \<open>\<open>std::filesystem::path(dir)/name\<close> and \<open>path(p).filename()\<close>.\<close>

definition path_join :: "string \<Rightarrow> string \<Rightarrow> string" where
  "path_join dir name =
     (if name \<noteq> [] \<and> hd name = CHR ''/'' then name
      else if dir = [] \<or> last dir = CHR ''/'' then dir @ name
      else dir @ ''/'' @ name)"

definition path_filename :: "string \<Rightarrow> string" where
  "path_filename p = rev (takeWhile (\<lambda>c. c \<noteq> CHR ''/'') (rev p))"

lemma path_filename_no_slash: "CHR ''/'' \<notin> set (path_filename p)"
  by (auto simp: path_filename_def dest: set_takeWhileD)

lemma path_filename_self: "CHR ''/'' \<notin> set p \<Longrightarrow> path_filename p = p"
proof -
  assume "CHR ''/'' \<notin> set p"
  then have "takeWhile (\<lambda>c. c \<noteq> CHR ''/'') (rev p) = rev p"
    by (subst takeWhile_eq_all_conv) auto
  then show ?thesis by (simp only: path_filename_def rev_rev_ident)
qed

lemma path_filename_append: "CHR ''/'' \<notin> set n \<Longrightarrow> path_filename (d @ ''/'' @ n) = n"
proof -
  assume "CHR ''/'' \<notin> set n"
  then have "takeWhile (\<lambda>c. c \<noteq> CHR ''/'') (rev n @ CHR ''/'' # rev d) = rev n"
    by (auto simp: takeWhile_append)
  then show ?thesis by (simp add: path_filename_def)
qed

section \<open>What the calls change\<close>

text \<open>A call only touches the host: a property of other fields is kept by all of them. The
  rules below reduce it to the three fields the calls write.\<close>

lemmas host_call_defs = file_exists_def file_size_or_error_def open_file_def
  ftruncate_def rename_file_def remove_file_def hash_file_def

definition host_stable :: "('a host_scheme \<Rightarrow> bool) \<Rightarrow> bool" where
  "host_stable P \<longleftrightarrow> (\<forall>s fs evs frs pks. P s \<longrightarrow>
     P (s\<lparr>h_files := fs, h_events := evs, h_frames := frs, h_packets := pks\<rparr>))"

lemma host_stableD:
  assumes "host_stable P" and "P s"
  shows "P (s\<lparr>h_events := evs\<rparr>)" "P (s\<lparr>h_files := fs\<rparr>)" "P (s\<lparr>h_frames := frs\<rparr>)"
    "P (s\<lparr>h_packets := pks\<rparr>)"
proof -
  have all: "P (s\<lparr>h_files := fs, h_events := evs, h_frames := frs, h_packets := pks\<rparr>)" for fs evs frs pks
    using assms by (simp add: host_stable_def)
  show "P (s\<lparr>h_events := evs\<rparr>)"
    using all [where evs = evs and fs = "h_files s" and frs = "h_frames s" and pks = "h_packets s"] by simp
  show "P (s\<lparr>h_files := fs\<rparr>)"
    using all [where evs = "h_events s" and fs = fs and frs = "h_frames s" and pks = "h_packets s"] by simp
  show "P (s\<lparr>h_frames := frs\<rparr>)"
    using all [where evs = "h_events s" and fs = "h_files s" and frs = frs and pks = "h_packets s"] by simp
  show "P (s\<lparr>h_packets := pks\<rparr>)"
    using all [where evs = "h_events s" and fs = "h_files s" and frs = "h_frames s" and pks = pks] by simp
qed

lemma keeps_syscall [keep]: "host_stable P \<Longrightarrow> keeps P (syscall op)"
  by (auto simp: keeps_def syscall_def host_stableD split: list.split io_event.split)

lemma keeps_syscall_retry [keep]: "host_stable P \<Longrightarrow> keeps P (syscall_retry op)"
  by (auto simp: syscall_retry_def intro!: keeps_bind keeps_modify keep dest: host_stableD)

lemma keeps_put_file [keep]: "host_stable P \<Longrightarrow> keeps P (put_file path c)"
  by (auto simp: put_file_def host_stableD intro: keeps_modify)

lemma keeps_set_events [keep]: "host_stable P \<Longrightarrow> keeps P (modifyS (\<lambda>s. s\<lparr>h_events := evs\<rparr>))"
  by (auto intro: keeps_modify host_stableD)

lemma keeps_host_calls [keep]:
  assumes "host_stable P"
  shows "keeps P (file_exists path)" "keeps P (file_size_or_error path)"
    "keeps P (open_file path trunc op)" "keeps P (ftruncate path n op)"
    "keeps P (rename_file from_path to_path op)" "keeps P (remove_file path)"
    "keeps P (hash_file sha path)"
  using assms
  by (auto simp: host_call_defs intro!: keep split: option.split)

lemma keeps_write_text_file [keep]: "host_stable P \<Longrightarrow> keeps P (write_text_file path text oe we)"
  by (auto simp: write_text_file_def intro!: keep split: prod.split sum.split)

lemma keeps_read_block_of [keep]: "host_stable P \<Longrightarrow> keeps P (read_block_of fd path n b)"
  by (auto simp: keeps_def read_block_of_def Let_def host_stableD split: prod.split)

lemma keeps_write_all_at [keep]: "host_stable P \<Longrightarrow> keeps P (write_all_at fd data off)"
  by (auto simp: keeps_def write_all_at_def put_file_def modifyS_def Let_def host_stableD split: prod.split)

lemma keeps_send_frame [keep]: "host_stable P \<Longrightarrow> keeps P (send_frame fd frame)"
proof (rule keepsI)
  fix s assume P: "host_stable P" "P s"
  have "P (s\<lparr>h_events := evs, h_frames := frs\<rparr>)" for evs frs
    using host_stableD(3) [OF P(1) host_stableD(1) [OF P, of evs], of frs] by simp
  with host_stableD(1) [OF P] show "P (snd (send_frame fd frame s))"
    by (auto simp: send_frame_def split: prod.split sum.split)
qed

text \<open>A frame goes out whole or not at all, and only one that fits.\<close>

lemma send_frame_cases:
  "(\<exists>e evs. send_frame fd frame s = (Inl e, s\<lparr>h_events := evs\<rparr>)) \<or>
   (valid_frame frame \<and> (\<exists>evs. send_frame fd frame s
      = (Inr (), s\<lparr>h_events := evs, h_frames := h_frames s @ [(fd, frame)]\<rparr>)))"
proof -
  obtain r sent evs where "send_control_frame frame ([], h_events s) = (r, sent, evs)"
    by (cases "send_control_frame frame ([], h_events s)") auto
  then show ?thesis
    using send_control_frame_ok [of frame "[]" "h_events s"]
    by (cases r) (auto simp: send_frame_def)
qed

lemma send_frame_no_events:
  "h_events s = [] \<Longrightarrow> valid_frame frame \<Longrightarrow>
     send_frame fd frame s = (Inr (), s\<lparr>h_frames := h_frames s @ [(fd, frame)]\<rparr>)"
  by (simp add: send_frame_def send_control_frame_def valid_frame_def)

text \<open>What is known after a call that did not throw.\<close>

lemma stat_source_Inr:
  assumes "stat_source path s = (Inr file_size, t)"
  shows "\<exists>content. file_content path s = Some content \<and> file_size = of_nat (length content)
    \<and> syscall (''stat '' @ path) s = (Inr (), t)"
proof -
  from assms have sys: "syscall (''stat '' @ path) s = (Inr (), t)"
    by (auto simp: stat_source_def eff_Inr system_error_def split: option.splits)
  then have "h_files t = h_files s"
    by (auto simp: syscall_def system_error_def split: list.splits io_event.splits)
  with assms sys show ?thesis
    by (auto simp: stat_source_def eff_Inr system_error_def file_content_def split: option.splits)
qed

lemma hash_file_Inr:
  assumes "hash_file sha path s = (Inr digest, t)"
  shows "\<exists>content. file_content path t = Some content \<and> digest = sha content \<and> syscall ''open'' s = (Inr (), t)"
proof -
  obtain r u where u: "syscall ''open'' s = (r, u)" by force
  with assms show ?thesis
    by (cases r) (auto simp: hash_file_def bindS_def tryS_def throwS_def returnS_def getS_def split: option.splits)
qed

end
