(* ===== verification/Receiver_State.thy ===== *)
theory Receiver_State
  imports Host
begin

text \<open>
  The receiver's transfer state and its persistence (\<open>src/receiver.cpp\<close>): \<open>TransferState\<close>, the
  file names and paths, the hexadecimal flags, the \<open>.state\<close> file written after each completed
  Section and read back on restart.

  \<open>wf_transfer\<close> is the invariant of a transfer in memory. The lemmas show that the text of a
  state file parses back to what was saved, that a loaded state satisfies the invariant, and
  that a received file name cannot lead out of the output directory.
\<close>

section \<open>The transfer\<close>

record transfer_state =
  ts_meta :: MetaPacket
  ts_temporary_path :: string
  ts_output_path :: string
  ts_state_path :: string
  ts_output_open :: bool
  ts_received :: bytes
  ts_received_count :: u32
  ts_duplicate_count :: u64
  ts_rejected_count :: u64
  ts_intentional_drop_count :: u64
  ts_active_section_id :: "u32 option"
  ts_last_end_round :: "u32 option"
  ts_last_reported_round :: "u32 option"
  ts_awaiting_complete_ack :: bool
  ts_final_sha_failed :: bool
  ts_intentionally_dropped_blocks :: "u32 list"

definition transfer_id_of :: "transfer_state \<Rightarrow> u64" where
  "transfer_id_of st = hdr_transfer_id (meta_common (ts_meta st))"

definition default_meta :: MetaPacket where
  "default_meta = \<lparr>meta_common = \<lparr>hdr_type = PT_Meta, hdr_transfer_id = 0\<rparr>, meta_file_size = 0,
     meta_block_size = 0, meta_total_blocks = 0, meta_section_block_count = 0,
     meta_file_name = [], meta_sha256 = replicate kSha256Size 0\<rparr>"

text \<open>\<open>transfer.emplace()\<close>: every member has its default.\<close>

definition new_transfer :: transfer_state where
  "new_transfer = \<lparr>ts_meta = default_meta, ts_temporary_path = [], ts_output_path = [],
     ts_state_path = [], ts_output_open = False, ts_received = [], ts_received_count = 0,
     ts_duplicate_count = 0, ts_rejected_count = 0, ts_intentional_drop_count = 0,
     ts_active_section_id = None, ts_last_end_round = None, ts_last_reported_round = None,
     ts_awaiting_complete_ack = False, ts_final_sha_failed = False,
     ts_intentionally_dropped_blocks = []\<rparr>"

definition count_flags :: "bytes \<Rightarrow> nat" where
  "count_flags flags = length (filter (\<lambda>f. f = 1) flags)"

definition wf_transfer :: "transfer_state \<Rightarrow> bool" where
  "wf_transfer st \<longleftrightarrow>
     length (ts_received st) = unat (meta_total_blocks (ts_meta st)) \<and>
     unat (ts_received_count st) = count_flags (ts_received st)"

lemma count_flags_le: "count_flags flags \<le> length flags"
  by (simp add: count_flags_def)

lemma count_flags_zero [simp]: "count_flags (replicate n 0) = 0"
  by (simp add: count_flags_def)

lemma count_flags_append: "count_flags (a @ b) = count_flags a + count_flags b"
  by (simp add: count_flags_def)

lemma count_flags_Cons: "count_flags (f # flags) = (if f = 1 then 1 else 0) + count_flags flags"
  by (simp add: count_flags_def)

lemma count_flags_set:
  "i < length flags \<Longrightarrow> flags ! i = 0 \<Longrightarrow> count_flags (flags[i := 1]) = Suc (count_flags flags)"
proof (induction flags arbitrary: i)
  case Nil
  then show ?case by simp
next
  case (Cons f flags)
  then show ?case by (cases i) (auto simp: count_flags_Cons)
qed

text \<open>All blocks are counted exactly when every flag is one.\<close>

lemma count_flags_full: "count_flags flags = length flags \<longleftrightarrow> (\<forall>i < length flags. flags ! i = 1)"
proof -
  have "count_flags flags = length flags \<longleftrightarrow> (\<forall>f \<in> set flags. f = 1)"
  proof (induction flags)
    case Nil
    then show ?case by (simp add: count_flags_def)
  next
    case (Cons f flags)
    then show ?case using count_flags_le [of flags] by (auto simp: count_flags_Cons)
  qed
  then show ?thesis by (simp add: all_set_conv_all_nth)
qed

section \<open>Names and paths\<close>

definition safe_received_file_name :: "string \<Rightarrow> string result" where
  "safe_received_file_name file_name =
     (let safe_name = path_filename file_name
      in if safe_name = [] \<or> safe_name = ''.'' \<or> safe_name = ''..''
         then throw ''invalid received file name''
         else if safe_name \<noteq> file_name then throw ''file name contains path components''
         else Inr safe_name)"

definition received_output_path :: "string \<Rightarrow> string \<Rightarrow> string" where
  "received_output_path output_directory file_name = path_join output_directory file_name"

definition received_temporary_path :: "string \<Rightarrow> string \<Rightarrow> u64 \<Rightarrow> string" where
  "received_temporary_path output_directory file_name transfer_id =
     path_join output_directory (file_name @ ''.part-'' @ print_dec (unat transfer_id))"

definition received_state_path :: "string \<Rightarrow> string" where
  "received_state_path temporary_path = temporary_path @ ''.state''"

lemma safe_name_Inr:
  "safe_received_file_name name = Inr s \<longleftrightarrow>
     s = name \<and> name \<noteq> [] \<and> name \<noteq> ''.'' \<and> name \<noteq> ''..'' \<and> CHR ''/'' \<notin> set name"
proof
  assume "safe_received_file_name name = Inr s"
  then have "path_filename name = name" "s = name" "name \<noteq> []" "name \<noteq> ''.''" "name \<noteq> ''..''"
    by (auto simp: safe_received_file_name_def Let_def split: if_splits)
  with path_filename_no_slash [of name] show "s = name \<and> name \<noteq> [] \<and> name \<noteq> ''.'' \<and> name \<noteq> ''..'' \<and> CHR ''/'' \<notin> set name"
    by simp
next
  assume "s = name \<and> name \<noteq> [] \<and> name \<noteq> ''.'' \<and> name \<noteq> ''..'' \<and> CHR ''/'' \<notin> set name"
  then show "safe_received_file_name name = Inr s"
    by (simp add: safe_received_file_name_def Let_def path_filename_self)
qed

text \<open>The path built from an accepted name is an entry of the output directory itself.\<close>

lemma output_path_in_directory:
  assumes "safe_received_file_name name = Inr s" and "dir \<noteq> []" and "last dir \<noteq> CHR ''/''"
  shows "received_output_path dir s = dir @ ''/'' @ s \<and> path_filename (received_output_path dir s) = s"
proof -
  from assms(1) have s: "s \<noteq> []" "CHR ''/'' \<notin> set s" by (auto simp: safe_name_Inr)
  then have "hd s \<noteq> CHR ''/''" by (metis hd_in_set)
  with s assms(2,3) have "received_output_path dir s = dir @ ''/'' @ s"
    by (simp add: received_output_path_def path_join_def)
  with path_filename_append [OF s(2)] show ?thesis by simp
qed

section \<open>Hexadecimal flags\<close>

definition hex_bytes :: "bytes \<Rightarrow> string" where
  "hex_bytes bs = concat (map (\<lambda>b.
     [''0123456789abcdef'' ! unat (drop_bit 4 b AND 0x0f), ''0123456789abcdef'' ! unat (b AND 0x0f)]) bs)"

text \<open>The lambda \<open>value_of\<close>: minus one is \<open>None\<close>.\<close>

definition hex_value :: "char \<Rightarrow> nat option" where
  "hex_value ch =
     (let c = char_code ch
      in if 48 \<le> c \<and> c \<le> 57 then Some (c - 48)
         else if 97 \<le> c \<and> c \<le> 102 then Some (c - 97 + 10)
         else if 65 \<le> c \<and> c \<le> 70 then Some (c - 65 + 10)
         else None)"

fun parse_hex_bytes :: "string \<Rightarrow> bytes option" where
  "parse_hex_bytes [] = Some []"
| "parse_hex_bytes [c] = None"
| "parse_hex_bytes (h # l # cs) =
     (case (hex_value h, hex_value l, parse_hex_bytes cs) of
        (Some high, Some low, Some bs) \<Rightarrow> Some (of_nat (high * 16 + low) # bs)
      | _ \<Rightarrow> None)"

lemma hex_value_digit:
  assumes "n < 16"
  shows "hex_value (''0123456789abcdef'' ! n) = Some n"
proof -
  have "list_all (\<lambda>n. hex_value (''0123456789abcdef'' ! n) = Some n) [0..<16]" by code_simp
  then have "\<forall>n \<in> {0..<16}. hex_value (''0123456789abcdef'' ! n) = Some n"
    by (simp only: list_all_iff set_upt)
  with assms show ?thesis by simp
qed

lemma hex_nibbles:
  "unat (drop_bit 4 b AND 0x0f) = unat b div 16" "unat (b AND 0x0f) = unat b mod 16" for b :: byte
proof -
  have mask: "x AND 0x0f = take_bit 4 x" for x :: byte
    using take_bit_eq_mask [of 4 x] by (simp add: mask_eq_exp_minus_1)
  have d: "unat (drop_bit 4 b) = unat b div 16"
    by (simp add: drop_bit_eq_div unat_div)
  have "unat b div 16 < 16" using unsigned_less [of b, where ?'a = nat] by (simp add: less_mult_imp_div_less)
  then show "unat (drop_bit 4 b AND 0x0f) = unat b div 16"
    by (simp only: mask unsigned_take_bit_eq d) (simp add: take_bit_eq_mod)
  show "unat (b AND 0x0f) = unat b mod 16"
    by (simp only: mask unsigned_take_bit_eq) (simp add: take_bit_eq_mod)
qed

lemma hex_bytes_eq:
  "hex_bytes bs = concat (map (\<lambda>b.
     [''0123456789abcdef'' ! (unat b div 16), ''0123456789abcdef'' ! (unat b mod 16)]) bs)"
  unfolding hex_bytes_def hex_nibbles(1) by (simp only: hex_nibbles(2))

lemma byte_nibble_less: "unat b div 16 < 16" for b :: byte
  using unsigned_less [of b, where ?'a = nat] by (simp add: less_mult_imp_div_less)

lemma parse_hex_bytes_hex: "parse_hex_bytes (hex_bytes bs) = Some bs"
proof (induction bs)
  case Nil
  then show ?case by (simp add: hex_bytes_eq)
next
  case (Cons b bs)
  have high: "hex_value (''0123456789abcdef'' ! (unat b div 16)) = Some (unat b div 16)"
    by (rule hex_value_digit) (rule byte_nibble_less)
  have low: "hex_value (''0123456789abcdef'' ! (unat b mod 16)) = Some (unat b mod 16)"
    by (rule hex_value_digit) simp
  have "unat b div 16 * 16 + unat b mod 16 = unat b" by (rule div_mult_mod_eq)
  then have whole: "(of_nat (unat b div 16 * 16 + unat b mod 16) :: byte) = b"
    by (simp only: of_nat_unat ucast_id)
  have split: "hex_bytes (b # bs) = ''0123456789abcdef'' ! (unat b div 16) #
      ''0123456789abcdef'' ! (unat b mod 16) # hex_bytes bs"
    by (simp only: hex_bytes_eq list.map concat.simps append.simps)
  show ?case
    by (simp only: split parse_hex_bytes.simps high low Cons.IH whole prod.case option.case)
qed

text \<open>Digests are printed by a different routine, with the same result.\<close>

lemma hex_digest_eq_hex_bytes: "hex_digest d = hex_bytes d"
proof -
  have "pad 2 CHR ''0'' (print_hex (unat b)) =
      [''0123456789abcdef'' ! (unat b div 16), ''0123456789abcdef'' ! (unat b mod 16)]" for b :: byte
    using pad_print_hex [of "unat b"] unsigned_less [of b, where ?'a = nat]
    by (simp only: hex_char_def) simp
  then show ?thesis by (simp only: hex_digest_def hex_bytes_eq)
qed

lemma hex_bytes_inj: "hex_bytes a = hex_bytes b \<Longrightarrow> a = b"
  by (drule arg_cong [of _ _ parse_hex_bytes]) (simp only: parse_hex_bytes_hex option.inject)

lemma length_hex_bytes: "length (hex_bytes bs) = 2 * length bs"
  by (induction bs) (auto simp: hex_bytes_def)

lemma set_hex_bytes: "c \<in> set (hex_bytes bs) \<Longrightarrow> hex_value c \<noteq> None"
proof -
  have low: "unat (x AND 0x0f) < 16" for x :: byte by (simp add: hex_nibbles(2))
  assume "c \<in> set (hex_bytes bs)"
  then obtain x :: byte where "c = ''0123456789abcdef'' ! unat (x AND 0x0f)"
    by (auto simp: hex_bytes_def simp del: nth_Cons_numeral)
  with hex_value_digit [OF low] show ?thesis by simp
qed

lemma is_word_hex_bytes: "bs \<noteq> [] \<Longrightarrow> is_word (hex_bytes bs)"
proof -
  have "hex_value c \<noteq> None \<Longrightarrow> \<not> is_space c" for c
    by (auto simp: hex_value_def is_space_def Let_def split: if_splits)
  moreover assume "bs \<noteq> []"
  then have "hex_bytes bs \<noteq> []" using length_hex_bytes [of bs] by auto
  ultimately show ?thesis by (auto simp: is_word_def list_all_iff dest: set_hex_bytes)
qed

section \<open>The state file\<close>

definition newline :: string where
  "newline = [CHR 0x0A]"

definition receiver_state_text :: "transfer_state \<Rightarrow> string" where
  "receiver_state_text st =
     (let meta = ts_meta st in
      ''SRC_RECEIVER_STATE 3'' @ newline
      @ print_dec (unat (transfer_id_of st)) @ newline
      @ print_dec (unat (meta_file_size meta)) @ newline
      @ print_dec (unat (meta_total_blocks meta)) @ newline
      @ print_dec (unat (meta_section_block_count meta)) @ newline
      @ print_quoted (meta_file_name meta) @ newline
      @ hex_digest (meta_sha256 meta) @ newline
      @ print_dec (unat (ts_received_count st)) @ newline
      @ hex_bytes (ts_received st) @ newline)"

text \<open>The fields in the order they are extracted.\<close>

record receiver_state_file =
  rsf_magic :: string
  rsf_version :: int
  rsf_transfer_id :: u64
  rsf_file_size :: u64
  rsf_total_blocks :: u32
  rsf_section_block_count :: u32
  rsf_file_name :: string
  rsf_digest_hex :: string
  rsf_received_count :: u32
  rsf_received_hex :: string

definition parse_receiver_state :: "string \<Rightarrow> receiver_state_file option" where
  "parse_receiver_state input =
     Option.bind (extract_word input) (\<lambda>(magic, input).
     Option.bind (extract_int input) (\<lambda>(version, input).
     Option.bind (extract_u64 input) (\<lambda>(transfer_id, input).
     Option.bind (extract_u64 input) (\<lambda>(file_size, input).
     Option.bind (extract_u32 input) (\<lambda>(total_blocks, input).
     Option.bind (extract_u32 input) (\<lambda>(section_block_count, input).
     Option.bind (extract_quoted input) (\<lambda>(file_name, input).
     Option.bind (extract_word input) (\<lambda>(digest_hex, input).
     Option.bind (extract_u32 input) (\<lambda>(received_count, input).
     Option.bind (extract_word input) (\<lambda>(received_hex, input).
       Some \<lparr>rsf_magic = magic, rsf_version = version, rsf_transfer_id = transfer_id,
         rsf_file_size = file_size, rsf_total_blocks = total_blocks,
         rsf_section_block_count = section_block_count, rsf_file_name = file_name,
         rsf_digest_hex = digest_hex, rsf_received_count = received_count,
         rsf_received_hex = received_hex\<rparr>))))))))))"

text \<open>The checks of \<open>load_receiver_state\<close> on the parsed fields: the flags and their count.\<close>

definition accept_receiver_state :: "MetaPacket \<Rightarrow> receiver_state_file \<Rightarrow> (bytes \<times> u32) option" where
  "accept_receiver_state meta f =
     (case parse_hex_bytes (rsf_received_hex f) of
        None \<Rightarrow> None
      | Some received \<Rightarrow>
          if rsf_magic f \<noteq> ''SRC_RECEIVER_STATE'' \<or> rsf_version f \<noteq> 3
             \<or> rsf_transfer_id f \<noteq> hdr_transfer_id (meta_common meta)
             \<or> rsf_file_size f \<noteq> meta_file_size meta \<or> rsf_total_blocks f \<noteq> meta_total_blocks meta
             \<or> rsf_section_block_count f \<noteq> meta_section_block_count meta
             \<or> rsf_file_name f \<noteq> meta_file_name meta
             \<or> rsf_digest_hex f \<noteq> hex_digest (meta_sha256 meta)
             \<or> length received \<noteq> unat (meta_total_blocks meta)
          then None
          else if of_nat (count_flags received) \<noteq> rsf_received_count f then None
          else Some (received, rsf_received_count f))"

definition load_receiver_state ::
  "string \<Rightarrow> string \<Rightarrow> MetaPacket \<Rightarrow> ('a host_scheme, (bytes \<times> u32) option) eff" where
  "load_receiver_state state_path temporary_path meta =
     bindS (file_exists state_path) (\<lambda>has_state.
     bindS (file_exists temporary_path) (\<lambda>has_file.
     if \<not> has_state \<or> \<not> has_file then returnS None
     else bindS (file_size_or_error temporary_path) (\<lambda>temporary_size.
       if temporary_size \<noteq> Some (meta_file_size meta) then returnS None
       else bindS (tryS (bindS (syscall ''open'') (\<lambda>_. getS (file_content state_path))) (\<lambda>e. returnS None)) (\<lambda>input.
         returnS (Option.bind input (\<lambda>text.
           Option.bind (parse_receiver_state (string_of_bytes text)) (accept_receiver_state meta)))))))"

definition save_receiver_state :: "transfer_state \<Rightarrow> ('a host_scheme, unit) eff" where
  "save_receiver_state st =
     (let temporary_state_path = ts_state_path st @ ''.tmp'' in
      bindS (write_text_file temporary_state_path (receiver_state_text st)
               ''open receiver state failed: '' ''write receiver state failed: '') (\<lambda>_.
      rename_file temporary_state_path (ts_state_path st) ''commit receiver state failed''))"

subsection \<open>Round trip and invariant\<close>

lemma extract_int_3: "extract_word (''SRC_RECEIVER_STATE 3'' @ newline @ s) = Some (''SRC_RECEIVER_STATE'', '' 3'' @ newline @ s)"
  "extract_int ('' 3'' @ newline @ s) = Some (3, newline @ s)"
proof -
  have w: "is_word ''SRC_RECEIVER_STATE''" by (simp add: is_word_def is_space_def char_code_def)
  have e: "ends_word ('' 3'' @ newline @ s)" by (simp add: ends_word_def)
  show "extract_word (''SRC_RECEIVER_STATE 3'' @ newline @ s) = Some (''SRC_RECEIVER_STATE'', '' 3'' @ newline @ s)"
    using extract_word_append [OF w e] by simp
  have three: "''3'' = print_dec 3" by code_simp
  have "extract_int ('' 3'' @ newline @ s) = extract_int (print_dec 3 @ newline @ s)"
    by (simp add: extract_int_def extract_nat_def skip_ws_def three [symmetric])
  then show "extract_int ('' 3'' @ newline @ s) = Some (3, newline @ s)"
    using extract_int_print [of 3 "newline @ s"] by (simp add: newline_def)
qed

lemma newline_steps:
  "extract_word (newline @ s) = extract_word s" "extract_u32 (newline @ s) = extract_u32 s"
  "extract_u64 (newline @ s) = extract_u64 s" "extract_quoted (newline @ s) = extract_quoted s"
  "no_digit (newline @ s)" "ends_word (newline @ s)" "no_digit newline" "ends_word newline"
  by (simp_all add: newline_def extract_newline)

lemma parse_receiver_state_text:
  assumes "meta_sha256 (ts_meta st) \<noteq> []" and "ts_received st \<noteq> []"
  shows "parse_receiver_state (receiver_state_text st) =
    Some \<lparr>rsf_magic = ''SRC_RECEIVER_STATE'', rsf_version = 3, rsf_transfer_id = transfer_id_of st,
      rsf_file_size = meta_file_size (ts_meta st), rsf_total_blocks = meta_total_blocks (ts_meta st),
      rsf_section_block_count = meta_section_block_count (ts_meta st),
      rsf_file_name = meta_file_name (ts_meta st),
      rsf_digest_hex = hex_digest (meta_sha256 (ts_meta st)),
      rsf_received_count = ts_received_count st, rsf_received_hex = hex_bytes (ts_received st)\<rparr>"
proof -
  note words = is_word_hex_bytes [OF assms(1)] is_word_hex_bytes [OF assms(2)]
  have last: "extract_word (hex_bytes (ts_received st) @ newline) = Some (hex_bytes (ts_received st), newline)"
    using extract_word_append [OF words(2)] newline_steps by simp
  show ?thesis
    by (simp only: receiver_state_text_def parse_receiver_state_def Let_def extract_int_3
        newline_steps extract_u64_print extract_u32_print extract_quoted_print
        hex_digest_eq_hex_bytes extract_word_append [OF words(1)] last
        Option.bind.bind_lunit bind.simps prod.case append_assoc)
qed

lemma accept_own_state:
  assumes "wf_transfer st"
  shows "accept_receiver_state (ts_meta st) \<lparr>rsf_magic = ''SRC_RECEIVER_STATE'', rsf_version = 3,
      rsf_transfer_id = transfer_id_of st,
      rsf_file_size = meta_file_size (ts_meta st), rsf_total_blocks = meta_total_blocks (ts_meta st),
      rsf_section_block_count = meta_section_block_count (ts_meta st),
      rsf_file_name = meta_file_name (ts_meta st),
      rsf_digest_hex = hex_digest (meta_sha256 (ts_meta st)),
      rsf_received_count = ts_received_count st, rsf_received_hex = hex_bytes (ts_received st)\<rparr>
    = Some (ts_received st, ts_received_count st)"
proof -
  have "of_nat (count_flags (ts_received st)) = ts_received_count st"
    using assms by (simp add: wf_transfer_def) (metis of_nat_unat ucast_id)
  with assms show ?thesis
    by (simp add: accept_receiver_state_def parse_hex_bytes_hex wf_transfer_def transfer_id_of_def)
qed

lemma accept_receiver_state_wf:
  assumes "accept_receiver_state meta f = Some (received, n)"
  shows "length received = unat (meta_total_blocks meta) \<and> unat n = count_flags received"
proof -
  from assms have len: "length received = unat (meta_total_blocks meta)"
    and n: "n = of_nat (count_flags received)"
    by (auto simp: accept_receiver_state_def split: option.splits if_splits)
  have "count_flags received < 4294967296"
    using count_flags_le [of received] len unat_u32_less [of "meta_total_blocks meta"] by linarith
  with len n show ?thesis by (simp add: unat_of_nat_u32)
qed

lemma load_receiver_state_wf:
  assumes "load_receiver_state sp tp meta s = (Inr (Some (received, n)), t)"
  shows "length received = unat (meta_total_blocks meta) \<and> unat n = count_flags received"
proof -
  from assms obtain f where "accept_receiver_state meta f = Some (received, n)"
    by (auto simp: load_receiver_state_def eff_Inr bind_eq_Some_conv dest!: sym [of "Some (received, n)"]
        split: if_splits)
  then show ?thesis by (rule accept_receiver_state_wf)
qed

lemma keeps_load_receiver_state [keep]: "host_stable P \<Longrightarrow> keeps P (load_receiver_state sp tp meta)"
  by (auto simp: load_receiver_state_def intro!: keep)

lemma keeps_save_receiver_state [keep]: "host_stable P \<Longrightarrow> keeps P (save_receiver_state st)"
  by (auto simp: save_receiver_state_def Let_def intro!: keep)

subsection \<open>On the file system\<close>

definition no_nul :: "string \<Rightarrow> bool" where
  "no_nul p \<longleftrightarrow> CHR 0x00 \<notin> set p"

lemma c_str_no_nul: "no_nul p \<Longrightarrow> c_str p = p"
  by (auto simp: no_nul_def c_str_def takeWhile_eq_all_conv)

lemma no_nul_append [simp]: "no_nul (p @ q) \<longleftrightarrow> no_nul p \<and> no_nul q"
  by (auto simp: no_nul_def)

lemma no_nul_suffix [simp]: "no_nul ''.tmp''" "no_nul ''.state''" "no_nul ''.state.tmp''"
  by (simp_all add: no_nul_def)

lemma write_text_file_no_events:
  "h_events s = [] \<Longrightarrow> write_text_file path text oe we s
     = (Inr (), s\<lparr>h_files := (h_files s)(c_str path := Some (bytes_of_string text))\<rparr>)"
  by (simp add: write_text_file_def eff_run open_file_def syscall_def put_file_def write_at_def
      bytes_of_string_def)

lemma rename_file_no_events:
  "h_events s = [] \<Longrightarrow> h_files s (c_str a) = Some c \<Longrightarrow>
     rename_file a b op s = (Inr (), s\<lparr>h_files := (h_files s)(c_str a := None, c_str b := Some c)\<rparr>)"
  by (simp add: rename_file_def eff_run syscall_def put_file_def file_content_def)

text \<open>C16: A receiver that saved its state and restarts gets exactly its flags and count back:
  on a file system that does not fail, \<open>load_receiver_state\<close> after \<open>save_receiver_state\<close>, with
  the temporary file of the announced size in place, returns what was saved.\<close>

theorem receiver_state_save_load:
  assumes "wf_transfer st" and "length (meta_sha256 (ts_meta st)) = kSha256Size"
    and "ts_received st \<noteq> []" and "no_nul (ts_temporary_path st)"
    and "ts_state_path st = received_state_path (ts_temporary_path st)" and "h_events s = []"
    and "h_files s (ts_temporary_path st) = Some content"
    and "of_nat (length content) = meta_file_size (ts_meta st)"
  shows "fst (save_receiver_state st s) = Inr () \<and>
    fst (load_receiver_state (ts_state_path st) (ts_temporary_path st) (ts_meta st)
      (snd (save_receiver_state st s))) = Inr (Some (ts_received st, ts_received_count st))"
proof -
  have sha: "meta_sha256 (ts_meta st) \<noteq> []" using assms(2) by (auto simp: kSha256Size_def)
  let ?tp = "ts_temporary_path st" and ?sp = "ts_temporary_path st @ ''.state''"
  let ?tmp = "ts_temporary_path st @ ''.state'' @ ''.tmp''"
  have paths: "c_str ?tp = ?tp" "c_str ?sp = ?sp" "c_str ?tmp = ?tmp"
    using assms(4) by (simp_all add: c_str_no_nul)
  have ne: "?tp \<noteq> ?sp" "?tp \<noteq> ?tmp" "?sp \<noteq> ?tmp" by auto
  let ?files = "(h_files s)(?tmp := None, ?sp := Some (bytes_of_string (receiver_state_text st)))"
  have saved: "save_receiver_state st s = (Inr (), s\<lparr>h_files := ?files\<rparr>)"
    using assms(5,6) ne paths
    by (simp add: save_receiver_state_def received_state_path_def Let_def bindS_run
        write_text_file_no_events rename_file_no_events)
  have "file_size_or_error ?tp (s\<lparr>h_files := ?files\<rparr>) = (Inr (Some (meta_file_size (ts_meta st))), s\<lparr>h_files := ?files\<rparr>)"
    using assms(6-8) ne paths
    by (simp add: file_size_or_error_def eff_run syscall_def file_content_def)
  then show ?thesis
    using assms(5-7) ne paths parse_receiver_state_text [OF sha assms(3)] accept_own_state [OF assms(1)]
    by (simp add: saved load_receiver_state_def eff_run file_exists_def file_content_def syscall_def
        received_state_path_def)
qed

text \<open>However the save ends, the state file is the old one or the complete new one.\<close>

lemma syscall_files [simp]: "h_files (snd (syscall op s)) = h_files s"
  by (simp add: syscall_def split: list.split io_event.split)

lemma open_file_frame: "p \<noteq> c_str path \<Longrightarrow> h_files (snd (open_file path trunc op s)) p = h_files s p"
  by (simp add: open_file_def bindS_run getS_run put_file_def modifyS_run split: sum.split)

lemma write_text_file_run:
  "write_text_file path text oe we s =
     (case open_file path True oe s of
        (Inl e, u) \<Rightarrow> (throw (oe @ path), u)
      | (Inr _, u) \<Rightarrow>
          (case pwrite_all (bytes_of_string text) 0 [] (h_events u) of
             (r, content, evs) \<Rightarrow>
               ((case r of Inl e \<Rightarrow> throw (we @ path) | Inr _ \<Rightarrow> Inr ()),
                u\<lparr>h_events := evs, h_files := (h_files u)(c_str path := Some content)\<rparr>)))"
proof -
  obtain r u where "open_file path True oe s = (r, u)" by force
  then show ?thesis
    by (cases r; cases "pwrite_all (bytes_of_string text) 0 [] (h_events u)"; cases "fst (pwrite_all (bytes_of_string text) 0 [] (h_events u))")
      (simp_all add: write_text_file_def bindS_run tryS_run getS_run modifyS_run put_file_def
        throwS_run returnS_run)
qed

lemma write_text_file_frame:
  "p \<noteq> c_str path \<Longrightarrow> h_files (snd (write_text_file path text oe we s)) p = h_files s p"
proof -
  assume p: "p \<noteq> c_str path"
  obtain r u where "open_file path True oe s = (r, u)" by force
  with p open_file_frame [OF p, of True oe s] show ?thesis
    by (cases r; cases "pwrite_all (bytes_of_string text) 0 [] (h_events u)")
      (simp_all add: write_text_file_run)
qed

lemma write_at_end: "write_at c (length c) data = c @ data"
  by (simp add: write_at_def)

lemma pwrite_all_append:
  "pwrite_all data (length c) c evs = (Inr (), c', evs') \<Longrightarrow> c' = c @ data"
proof (induction evs arbitrary: data c)
  case Nil
  then show ?case by (simp add: write_at_end)
next
  case (Cons ev evs)
  show ?case
  proof (cases "data = []")
    case True
    with Cons.prems show ?thesis by (simp add: pwrite_all_Nil)
  next
    case False
    show ?thesis
    proof (cases ev)
      case (Fails e)
      with Cons False show ?thesis by (auto split: if_splits)
    next
      case (Upto k)
      with Cons.prems False have k: "k \<noteq> 0"
        and rest: "pwrite_all (drop k data) (length c + k) (c @ take k data) evs = (Inr (), c', evs')"
        by (auto simp: write_at_end split: if_splits)
      show ?thesis
      proof (cases "k \<le> length data")
        case True
        then have "length c + k = length (c @ take k data)" by simp
        with rest have "pwrite_all (drop k data) (length (c @ take k data)) (c @ take k data) evs = (Inr (), c', evs')"
          by (simp only:)
        from Cons.IH [OF this] show ?thesis by simp
      next
        case False
        with rest show ?thesis by (simp add: pwrite_all_Nil)
      qed
    qed
  qed
qed

lemma write_text_file_ok:
  assumes "write_text_file path text oe we s = (Inr (), t)"
  shows "h_files t (c_str path) = Some (bytes_of_string text)"
proof -
  obtain r u where "open_file path True oe s = (r, u)" by force
  with assms obtain content evs' where
    "pwrite_all (bytes_of_string text) 0 [] (h_events u) = (Inr (), content, evs')"
    and t: "h_files t = (h_files u)(c_str path := Some content)"
    by (cases r; cases "pwrite_all (bytes_of_string text) 0 [] (h_events u)";
        cases "fst (pwrite_all (bytes_of_string text) 0 [] (h_events u))")
      (auto simp: write_text_file_run)
  then have "content = bytes_of_string text"
    using pwrite_all_append [of "bytes_of_string text" "[]"] by simp
  with t show ?thesis by simp
qed

text \<open>Both state files are replaced by writing a temporary file and renaming it over the old one.\<close>

lemma replace_file_atomic:
  assumes "c_str path = path" and "c_str (path @ ''.tmp'') = path @ ''.tmp''"
  shows "h_files (snd (bindS (write_text_file (path @ ''.tmp'') text oe we)
      (\<lambda>_. rename_file (path @ ''.tmp'') path op) s)) path
    \<in> {h_files s path, Some (bytes_of_string text)}"
proof -
  let ?tmp = "path @ ''.tmp''"
  obtain r u where w: "write_text_file ?tmp text oe we s = (r, u)" by force
  have old: "h_files u path = h_files s path"
    using write_text_file_frame [of path ?tmp] w assms by (metis append_self_conv list.distinct(1) snd_conv)
  show ?thesis
  proof (cases r)
    case (Inl e)
    with w old show ?thesis by (simp add: bindS_run)
  next
    case (Inr x)
    then have "h_files u ?tmp = Some (bytes_of_string text)"
      using write_text_file_ok w assms by fastforce
    then have "h_files (snd (rename_file ?tmp path op u)) path \<in> {h_files u path, Some (bytes_of_string text)}"
      using assms by (auto simp: rename_file_def eff_run put_file_def file_content_def split: sum.split)
    then show ?thesis using Inr w old by (simp add: bindS_run)
  qed
qed

text \<open>C17: Saving is atomic: whatever system call fails during \<open>save_receiver_state\<close>, and at
  whatever point, the state file afterwards is the one from before or the complete new text, never
  a part of it.\<close>

theorem receiver_state_save_atomic:
  assumes "no_nul (ts_state_path st)"
  shows "h_files (snd (save_receiver_state st s)) (ts_state_path st) = h_files s (ts_state_path st)
    \<or> h_files (snd (save_receiver_state st s)) (ts_state_path st)
        = Some (bytes_of_string (receiver_state_text st))"
proof -
  have "c_str (ts_state_path st) = ts_state_path st"
    "c_str (ts_state_path st @ ''.tmp'') = ts_state_path st @ ''.tmp''"
    using assms by (simp_all add: c_str_no_nul)
  from replace_file_atomic [OF this] show ?thesis
    by (simp add: save_receiver_state_def Let_def)
qed

end
