(* ===== verification/Receiver.thy ===== *)
theory Receiver
  imports Receiver_State
begin

text \<open>
  The receiver process (\<open>src/receiver.cpp\<close>): a transfer's life from FILE_META to COMPLETE_ACK,
  the drain timer, the missing-block report, repair between peers, the handler of every control
  message, and the handler of UDP packets.

  \<open>receiver\<close> extends \<open>host\<close> by the variables of \<open>main\<close> the handlers share. Functions that take
  \<open>TransferState &\<close> work on \<open>rx_transfer\<close>, which is present where the code calls them. Time is
  in nanoseconds; \<open>rx_drain_timer\<close> is the instant the timer expires. The digest function \<open>sha\<close>
  is a parameter. Output to the console is left out.
\<close>

record receiver = host +
  rx_transfer :: "transfer_state option"
  rx_draining :: bool
  rx_draining_round :: u32
  rx_hard_deadline :: nat
  rx_stop_requested :: bool
  rx_drain_timer :: "nat option"
  rx_control_fd :: int
  rx_output_directory :: string
  rx_initial_drop_blocks :: "u32 list"

type_synonym 'a rx = "(receiver, 'a) eff"

definition get_ts :: "(transfer_state \<Rightarrow> 'a) \<Rightarrow> 'a rx" where
  "get_ts g = getS (\<lambda>r. g (the (rx_transfer r)))"

definition set_ts :: "(transfer_state \<Rightarrow> transfer_state) \<Rightarrow> unit rx" where
  "set_ts f = modifyS (\<lambda>r. r\<lparr>rx_transfer := map_option f (rx_transfer r)\<rparr>)"

definition reject :: "unit rx" where
  "reject = set_ts (\<lambda>st. st\<lparr>ts_rejected_count := ts_rejected_count st + 1\<rparr>)"

section \<open>The drain timer\<close>

definition kDrainQuietPeriod :: int where "kDrainQuietPeriod = 200 * 1000000"
definition kDrainHardTimeout :: nat where "kDrainHardTimeout = 1000000000"

definition arm_timer_after :: "int \<Rightarrow> unit rx" where
  "arm_timer_after delay =
     (let left = if delay \<le> 0 then 1 else delay in
      bindS (syscall ''timerfd_settime'') (\<lambda>_.
      modifyS (\<lambda>r. r\<lparr>rx_drain_timer := Some (h_clock r + nat left)\<rparr>)))"

definition arm_drain_timer :: "nat \<Rightarrow> unit rx" where
  "arm_drain_timer hard_deadline =
     bindS (getS h_clock) (\<lambda>now.
     arm_timer_after (min kDrainQuietPeriod (int hard_deadline - int now)))"

definition disarm_timer :: "unit rx" where
  "disarm_timer =
     bindS (syscall ''timerfd_settime disarm'') (\<lambda>_. modifyS (\<lambda>r. r\<lparr>rx_drain_timer := None\<rparr>))"

text \<open>The read loop on the timer; \<open>expired\<close> says whether there is an expiration to read.\<close>

fun read_timer :: "bool \<Rightarrow> io_event list \<Rightarrow> bool result \<times> io_event list" where
  "read_timer expired [] = (Inr expired, [])"
| "read_timer expired (Fails e # evs) =
     (if e = EINTR then read_timer expired evs
      else if e = EAGAIN then (Inr False, evs)
      else (system_error ''read timerfd'' e, evs))"
| "read_timer expired (Upto k # evs) =
     (if \<not> expired then (Inr False, evs)
      else if k < 8 then (throw ''short timerfd read'', evs) else (Inr True, evs))"

definition timer_expired :: "receiver \<Rightarrow> bool" where
  "timer_expired r = (case rx_drain_timer r of None \<Rightarrow> False | Some t \<Rightarrow> t \<le> h_clock r)"

definition consume_timer_expiration :: "bool rx" where
  "consume_timer_expiration r =
     (case read_timer (timer_expired r) (h_events r) of
        (Inr True, evs) \<Rightarrow> (Inr True, r\<lparr>h_events := evs, rx_drain_timer := None\<rparr>)
      | (res, evs) \<Rightarrow> (res, r\<lparr>h_events := evs\<rparr>))"

section \<open>Beginning a transfer\<close>

definition initialize_transfer :: "MetaPacket \<Rightarrow> string \<Rightarrow> bool rx" where
  "initialize_transfer meta output_directory =
     (if meta_block_size meta \<noteq> of_nat kPayloadSize then returnS False
      else if \<not> is_ok (validate_section_block_count (meta_section_block_count meta)) then returnS False
      else if \<not> blocks_consistent (meta_file_size meta) (meta_block_size meta) (meta_total_blocks meta)
      then returnS False
      else
        let temporary_path = received_temporary_path output_directory (meta_file_name meta)
              (hdr_transfer_id (meta_common meta));
            state_path = received_state_path temporary_path
        in
        bindS (set_ts (\<lambda>st. st\<lparr>ts_meta := meta,
          ts_output_path := received_output_path output_directory (meta_file_name meta),
          ts_temporary_path := temporary_path, ts_state_path := state_path,
          ts_received := replicate (unat (meta_total_blocks meta)) 0, ts_received_count := 0,
          ts_duplicate_count := 0, ts_rejected_count := 0, ts_intentional_drop_count := 0,
          ts_active_section_id := None, ts_last_end_round := None, ts_last_reported_round := None,
          ts_awaiting_complete_ack := False, ts_final_sha_failed := False,
          ts_intentionally_dropped_blocks := []\<rparr>)) (\<lambda>_.
        bindS (load_receiver_state state_path temporary_path meta) (\<lambda>loaded.
        bindS (case loaded of
                 None \<Rightarrow> returnS ()
               | Some (received, n) \<Rightarrow>
                   set_ts (\<lambda>st. st\<lparr>ts_received := received, ts_received_count := n\<rparr>)) (\<lambda>_.
        bindS (open_file temporary_path (loaded = None) ''open temporary output'') (\<lambda>_.
        bindS (set_ts (\<lambda>st. st\<lparr>ts_output_open := True\<rparr>)) (\<lambda>_.
        bindS (ftruncate temporary_path (meta_file_size meta) ''ftruncate'') (\<lambda>_.
        returnS True)))))))"

section \<open>Reports and completion\<close>

definition make_missing_bitmap :: "transfer_state \<Rightarrow> u32 \<Rightarrow> (bytes \<times> u32) result" where
  "make_missing_bitmap st section_id =
     (let meta = ts_meta st in
      bindE (section_first_block section_id (meta_section_block_count meta)) (\<lambda>first_block.
      bindE (section_block_count (meta_total_blocks meta) section_id (meta_section_block_count meta))
        (\<lambda>section_blocks.
      foldE (\<lambda>local_block (bitmap, missing_count).
               if ts_received st ! unat (first_block + local_block) = 0
               then bindE (bitmap_set bitmap local_block) (\<lambda>bitmap'. Inr (bitmap', missing_count + 1))
               else Inr (bitmap, missing_count))
        (local_blocks section_blocks)
        (replicate (bitmap_size_for_blocks section_blocks) 0, 0))))"

text \<open>\<open>finalize_transfer\<close>: the verified digest when it returns true, \<open>None\<close> for false.\<close>

definition finalize_transfer :: "(bytes \<Rightarrow> bytes) \<Rightarrow> bytes option rx" where
  "finalize_transfer sha =
     bindS (get_ts id) (\<lambda>st.
     if ts_received_count st \<noteq> meta_total_blocks (ts_meta st) then returnS None
     else
       bindS (syscall ''fsync temporary output'') (\<lambda>_.
       bindS (hash_file sha (ts_temporary_path st)) (\<lambda>actual_digest.
       if actual_digest \<noteq> meta_sha256 (ts_meta st)
       then bindS (set_ts (\<lambda>st. st\<lparr>ts_final_sha_failed := True\<rparr>)) (\<lambda>_. returnS None)
       else
         bindS (set_ts (\<lambda>st. st\<lparr>ts_output_open := False\<rparr>)) (\<lambda>_.
         bindS (rename_file (ts_temporary_path st) (ts_output_path st) ''rename failed'') (\<lambda>_.
         bindS (remove_file (ts_state_path st)) (\<lambda>_.
         returnS (Some actual_digest)))))))"

definition send_control :: "bytes result \<Rightarrow> unit rx" where
  "send_control frame =
     bindS (liftE frame) (\<lambda>f. bindS (getS rx_control_fd) (\<lambda>fd. send_frame fd f))"

definition send_section_status :: "u32 \<Rightarrow> u32 \<Rightarrow> SectionStatusCode \<Rightarrow> u32 \<Rightarrow> bytes \<Rightarrow> unit rx" where
  "send_section_status section_id round_id status missing_count missing_bitmap =
     bindS (get_ts transfer_id_of) (\<lambda>tid.
     send_control (encode_section_status \<lparr>ss_transfer_id = tid, ss_section_id = section_id,
       ss_round_id = round_id, ss_status = status, ss_missing_count = missing_count,
       ss_missing_bitmap = missing_bitmap\<rparr>))"

definition complete_message :: "transfer_state \<Rightarrow> bytes \<Rightarrow> ReceiverCompleteMessage" where
  "complete_message st digest =
     \<lparr>rc_transfer_id = transfer_id_of st, rc_file_size = meta_file_size (ts_meta st), rc_sha256 = digest\<rparr>"

definition finish_drain_and_report :: "(bytes \<Rightarrow> bytes) \<Rightarrow> u32 \<Rightarrow> unit rx" where
  "finish_drain_and_report sha round_id =
     bindS (get_ts id) (\<lambda>st.
     (case ts_active_section_id st of
        None \<Rightarrow> throwS ''no active section to report''
      | Some section_id \<Rightarrow>
          bindS (liftE (make_missing_bitmap st section_id)) (\<lambda>(missing_bitmap, missing_count).
          if missing_count \<noteq> 0 then
            bindS (send_section_status section_id round_id SS_Missing missing_count missing_bitmap) (\<lambda>_.
            set_ts (\<lambda>st. st\<lparr>ts_last_reported_round := Some round_id\<rparr>))
          else
            bindS (syscall ''fdatasync completed section'') (\<lambda>_.
            bindS (save_receiver_state st) (\<lambda>_.
            bindS (finalize_transfer sha) (\<lambda>finalized.
            (case finalized of
               None \<Rightarrow>
                 bindS (send_section_status section_id round_id
                   (if ts_received_count st \<noteq> meta_total_blocks (ts_meta st) then SS_Complete else SS_Failed)
                   0 []) (\<lambda>_.
                 set_ts (\<lambda>st. st\<lparr>ts_last_reported_round := Some round_id\<rparr>))
             | Some actual_digest \<Rightarrow>
                 bindS (set_ts (\<lambda>st. st\<lparr>ts_last_reported_round := Some round_id,
                   ts_awaiting_complete_ack := True\<rparr>)) (\<lambda>_.
                 bindS (send_section_status section_id round_id SS_Complete 0 []) (\<lambda>_.
                 send_control (Inr (encode_receiver_complete (complete_message st actual_digest))))))))))))"

section \<open>SECTION_END\<close>

definition begin_drain_for_round :: "u32 \<Rightarrow> u32 \<Rightarrow> u32 \<Rightarrow> unit rx" where
  "begin_drain_for_round section_id round_id total_blocks =
     bindS (get_ts id) (\<lambda>st0.
     if ts_awaiting_complete_ack st0 \<or> ts_final_sha_failed st0
        \<or> total_blocks \<noteq> meta_total_blocks (ts_meta st0)
     then reject
     else if \<not> is_ok (section_block_count (meta_total_blocks (ts_meta st0)) section_id
                (meta_section_block_count (ts_meta st0)))
     then reject
     else
       bindS (getS id) (\<lambda>r.
       let other = (case ts_active_section_id st0 of None \<Rightarrow> True | Some active \<Rightarrow> section_id \<noteq> active);
           older = (case ts_active_section_id st0 of None \<Rightarrow> False | Some active \<Rightarrow> section_id < active)
       in if other \<and> older then returnS ()
          else
            bindS (whenS other (set_ts (\<lambda>st. st\<lparr>ts_active_section_id := Some section_id,
              ts_last_end_round := None, ts_last_reported_round := None\<rparr>))) (\<lambda>_.
            bindS (get_ts id) (\<lambda>st.
            if (case ts_last_reported_round st of None \<Rightarrow> False | Some k \<Rightarrow> round_id \<le> k) then returnS ()
            else if (case ts_last_end_round st of None \<Rightarrow> False | Some k \<Rightarrow> round_id < k) then returnS ()
            else if ts_last_end_round st = Some round_id \<and> rx_draining r then returnS ()
            else
              bindS (set_ts (\<lambda>st. st\<lparr>ts_last_end_round := Some round_id\<rparr>)) (\<lambda>_.
              bindS (modifyS (\<lambda>r. r\<lparr>rx_draining_round := round_id, rx_draining := True,
                rx_hard_deadline := h_clock r + kDrainHardTimeout\<rparr>)) (\<lambda>_.
              bindS (getS rx_hard_deadline) (\<lambda>hard_deadline.
              arm_drain_timer hard_deadline)))))))"

end
