(* ===== verification/Receiver_Handlers.thy ===== *)
theory Receiver_Handlers
  imports Receiver
begin

text \<open>
  The event handlers of the receiver (\<open>src/receiver.cpp\<close>): peer repair tasks, DATA and END
  packets, one definition per control message and their dispatcher, registration and
  reconnection, and one turn of the event loop. A handler that throws leaves the state it had
  reached; the event loop then reconnects.
\<close>

section \<open>Access to the output file\<close>

text \<open>Reading and writing through \<open>state.output\<close>, which fails when it is not open.\<close>

definition bad_descriptor :: "string \<Rightarrow> 'a rx" where
  "bad_descriptor operation = liftE (system_error operation (Other_errno ''Bad file descriptor''))"

definition output_read_block :: "u32 \<Rightarrow> (bytes \<times> u64) rx" where
  "output_read_block block_id =
     bindS (get_ts id) (\<lambda>st.
     if \<not> ts_output_open st then bad_descriptor (''pread '' @ ts_temporary_path st)
     else read_block_of (ts_temporary_path st) (ts_temporary_path st) (meta_file_size (ts_meta st)) block_id)"

definition output_write :: "bytes \<Rightarrow> u64 \<Rightarrow> unit rx" where
  "output_write data offset =
     bindS (get_ts id) (\<lambda>st.
     if data = [] then returnS ()
     else if \<not> ts_output_open st then bad_descriptor ''pwrite''
     else write_all_at (ts_temporary_path st) data offset)"

section \<open>Repair between peers\<close>

text \<open>\<open>send_peer_udp_packet\<close>: whether the datagram went out whole.\<close>

fun sendto_whole :: "nat \<Rightarrow> io_event list \<Rightarrow> bool \<times> io_event list" where
  "sendto_whole n [] = (True, [])"
| "sendto_whole n (Fails e # evs) = (if e = EINTR then sendto_whole n evs else (False, evs))"
| "sendto_whole n (Upto k # evs) = (n \<le> k, evs)"

definition send_peer_udp_packet :: "u32 \<times> u16 \<Rightarrow> bytes \<Rightarrow> bool rx" where
  "send_peer_udp_packet destination packet r =
     (case sendto_whole (length packet) (h_events r) of
        (True, evs) \<Rightarrow> (Inr True, r\<lparr>h_events := evs, h_packets := h_packets r @ [(destination, packet)]\<rparr>)
      | (False, evs) \<Rightarrow> (Inr False, r\<lparr>h_events := evs\<rparr>))"

definition peer_repair_block :: "PeerRepairTaskMessage \<Rightarrow> u32 \<Rightarrow> unit rx" where
  "peer_repair_block task block_id =
     bindS (get_ts id) (\<lambda>st.
     if block_id \<ge> meta_total_blocks (ts_meta st) then returnS ()
     else if ts_received st ! unat block_id = 0 then returnS ()
     else
       bindS (liftE (section_id_for_block block_id (meta_section_block_count (ts_meta st)))) (\<lambda>sid.
       if sid \<noteq> pt_section_id task then returnS ()
       else
         bindS (output_read_block block_id) (\<lambda>(payload, offset).
         bindS (liftE (encode_data (pt_transfer_id task) (pt_section_id task) block_id offset payload
                   (of_nat (length payload)) (crc32 payload))) (\<lambda>packet.
         bindS (send_peer_udp_packet (pt_target_ipv4 task, pt_target_port task) packet) (\<lambda>_.
         returnS ())))))"

definition execute_peer_repair_task :: "PeerRepairTaskMessage \<Rightarrow> unit rx" where
  "execute_peer_repair_task task =
     bindS (get_ts id) (\<lambda>st.
     if pt_transfer_id task \<noteq> transfer_id_of st \<or> ts_awaiting_complete_ack st
        \<or> ts_final_sha_failed st \<or> pt_target_port task = 0
     then returnS ()
     else if \<not> is_ok (section_block_count (meta_total_blocks (ts_meta st)) (pt_section_id task)
                (meta_section_block_count (ts_meta st)))
     then returnS ()
     else forS (pt_block_ids task) (peer_repair_block task))"

section \<open>UDP packets\<close>

definition should_drop_initial_block_for_test :: "u32 \<Rightarrow> bool rx" where
  "should_drop_initial_block_for_test block_id =
     bindS (getS rx_initial_drop_blocks) (\<lambda>configured_blocks.
     bindS (get_ts id) (\<lambda>st.
     if configured_blocks = [] then returnS False
     else if block_id \<notin> set configured_blocks then returnS False
     else if block_id \<in> set (ts_intentionally_dropped_blocks st) then returnS False
     else
       bindS (set_ts (\<lambda>st. st\<lparr>ts_intentionally_dropped_blocks := block_id # ts_intentionally_dropped_blocks st,
         ts_intentional_drop_count := ts_intentional_drop_count st + 1\<rparr>)) (\<lambda>_.
       returnS True)))"

definition block_size_at :: "MetaPacket \<Rightarrow> u32 \<Rightarrow> u16" where
  "block_size_at meta block_id =
     ucast (min (ucast (meta_block_size meta))
       (meta_file_size meta - ucast block_id * ucast (meta_block_size meta)) :: u64)"

text \<open>The checks DATA and BACKFILL_DATA share: offset, size and checksum of a block.\<close>

definition payload_fits :: "MetaPacket \<Rightarrow> u32 \<Rightarrow> u64 \<Rightarrow> u16 \<Rightarrow> bool" where
  "payload_fits meta block_id offset payload_size \<longleftrightarrow>
     \<not> (offset \<noteq> ucast block_id * ucast (meta_block_size meta)
        \<or> payload_size \<noteq> block_size_at meta block_id
        \<or> offset + ucast payload_size > meta_file_size meta)"

definition mark_received :: "u32 \<Rightarrow> unit rx" where
  "mark_received block_id = set_ts (\<lambda>st. st\<lparr>ts_received := (ts_received st)[unat block_id := 1],
     ts_received_count := ts_received_count st + 1\<rparr>)"

definition handle_udp_data :: "DataPacketView \<Rightarrow> unit rx" where
  "handle_udp_data data =
     bindS (get_ts id) (\<lambda>st.
     let meta = ts_meta st; block_id = dp_block_id data in
     if block_id \<ge> meta_total_blocks meta then reject
     else
       bindS (liftE (section_id_for_block block_id (meta_section_block_count meta))) (\<lambda>sid.
       if dp_section_id data \<noteq> sid then reject
       else if \<not> payload_fits meta block_id (dp_offset data) (dp_payload_size data) then reject
       else if crc32 (take (unat (dp_payload_size data)) (dp_payload data)) \<noteq> dp_crc32 data then reject
       else
         bindS (should_drop_initial_block_for_test block_id) (\<lambda>drop.
         if drop then returnS ()
         else if ts_received st ! unat block_id \<noteq> 0
         then set_ts (\<lambda>st. st\<lparr>ts_duplicate_count := ts_duplicate_count st + 1\<rparr>)
         else
           bindS (output_write (take (unat (dp_payload_size data)) (dp_payload data)) (dp_offset data)) (\<lambda>_.
           bindS (mark_received block_id) (\<lambda>_.
           bindS (getS id) (\<lambda>r.
           whenS (rx_draining r) (arm_drain_timer (rx_hard_deadline r))))))))"

definition handle_udp_packet :: "bytes \<Rightarrow> unit rx" where
  "handle_udp_packet packet =
     bindS (liftE (run_reader read_common packet)) (\<lambda>common.
     if hdr_type common = PT_Meta then returnS ()
     else
       bindS (getS rx_transfer) (\<lambda>transfer.
       (case transfer of
          None \<Rightarrow> returnS ()
        | Some st \<Rightarrow>
            if hdr_transfer_id common \<noteq> transfer_id_of st \<or> ts_awaiting_complete_ack st
               \<or> ts_final_sha_failed st
            then returnS ()
            else if hdr_type common = PT_Data
            then bindS (liftE (decode_data packet)) handle_udp_data
            else
              bindS (liftE (decode_end packet)) (\<lambda>end.
              begin_drain_for_round (end_section_id end) (end_round_id end) (end_total_blocks end)))))"

text \<open>One packet of the batch: an exception counts as a rejected packet.\<close>

definition process_packet :: "bytes \<Rightarrow> unit rx" where
  "process_packet packet = tryS (handle_udp_packet packet) (\<lambda>e. reject)"

datatype recv_outcome = Recv_error errno | Recv_packet bytes

text \<open>\<open>process_udp_ready\<close>: the outcomes of \<open>recvfrom\<close> up to the end of the time budget, at most
  \<open>kMaxUdpPacketsPerBatch\<close> packets.\<close>

definition kMaxUdpPacketsPerBatch :: nat where "kMaxUdpPacketsPerBatch = 256"

fun process_udp_ready :: "nat \<Rightarrow> recv_outcome list \<Rightarrow> unit rx" where
  "process_udp_ready processed [] = returnS ()"
| "process_udp_ready processed (Recv_error e # later) =
     (if processed \<ge> kMaxUdpPacketsPerBatch then returnS ()
      else if e = EINTR then process_udp_ready processed later
      else if e = EAGAIN then returnS ()
      else liftE (system_error ''recvfrom'' e))"
| "process_udp_ready processed (Recv_packet packet # later) =
     (if processed \<ge> kMaxUdpPacketsPerBatch then returnS ()
      else if packet = [] then process_udp_ready processed later
      else bindS (process_packet packet) (\<lambda>_. process_udp_ready (Suc processed) later))"

section \<open>Control messages\<close>

text \<open>\<open>disarm_timer\<close> and \<open>consume_timer_expiration\<close>, called together at the end of a transfer.\<close>

definition clear_timer :: "unit rx" where
  "clear_timer = bindS disarm_timer (\<lambda>_. bindS consume_timer_expiration (\<lambda>_. returnS ()))"

definition set_draining :: "bool \<Rightarrow> unit rx" where
  "set_draining b = modifyS (\<lambda>r. r\<lparr>rx_draining := b\<rparr>)"

definition set_transfer :: "transfer_state option \<Rightarrow> unit rx" where
  "set_transfer t = modifyS (\<lambda>r. r\<lparr>rx_transfer := t\<rparr>)"

definition meta_of_message :: "FileMetaMessage \<Rightarrow> string \<Rightarrow> MetaPacket" where
  "meta_of_message message safe_name =
     \<lparr>meta_common = \<lparr>hdr_type = PT_Meta, hdr_transfer_id = fm_transfer_id message\<rparr>,
      meta_file_size = fm_file_size message, meta_block_size = fm_block_size message,
      meta_total_blocks = fm_total_blocks message,
      meta_section_block_count = fm_section_block_count message,
      meta_file_name = safe_name, meta_sha256 = fm_sha256 message\<rparr>"

definition existing_temporary_size :: "string \<Rightarrow> u64 rx" where
  "existing_temporary_size path =
     bindS (file_exists path) (\<lambda>present.
     if \<not> present then returnS 0
     else
       bindS (syscall ''stat receiver temporary file failed'') (\<lambda>_.
       getS (\<lambda>r. of_nat (length (content_or_empty (file_content path r))))))"

definition handle_file_meta :: "FileMetaMessage \<Rightarrow> unit rx" where
  "handle_file_meta message =
     (if fm_section_id message \<noteq> kSingleSectionId then throwS ''unsupported FILE_META section_id''
      else if fm_block_size message \<noteq> of_nat kPayloadSize then throwS ''unsupported FILE_META block size''
      else if \<not> blocks_consistent (fm_file_size message) (fm_block_size message) (fm_total_blocks message)
      then throwS ''inconsistent FILE_META block count''
      else
        bindS (liftE (safe_received_file_name (fm_file_name message))) (\<lambda>safe_name.
        bindS (getS rx_transfer) (\<lambda>transfer.
        (case transfer of
           Some st \<Rightarrow>
             if transfer_id_of st = fm_transfer_id message
             then if meta_file_name (ts_meta st) \<noteq> safe_name then throwS ''FILE_META file name mismatch''
                  else if ts_awaiting_complete_ack st
                  then send_control (Inr (encode_receiver_complete
                         \<lparr>rc_transfer_id = fm_transfer_id message, rc_file_size = meta_file_size (ts_meta st),
                          rc_sha256 = meta_sha256 (ts_meta st)\<rparr>))
                  else send_control (Inr (encode_meta_ready \<lparr>mr_transfer_id = fm_transfer_id message\<rparr>))
             else throwS ''FILE_META received while another transfer is active''
         | None \<Rightarrow>
             bindS (getS rx_output_directory) (\<lambda>dir.
             let meta = meta_of_message message safe_name;
                 temporary_name = received_temporary_path dir (meta_file_name meta)
                   (hdr_transfer_id (meta_common meta))
             in
             bindS (existing_temporary_size temporary_name) (\<lambda>existing_size.
             let additional = (if existing_size < meta_file_size meta
                   then meta_file_size meta - existing_size else 0) in
             bindS (getS id) (\<lambda>r.
             bindS (liftE (require_storage_limit (h_getenv r) (h_scan r dir) additional
                   ''SRCAST_OUTPUT_LIMIT_BYTES'' ''receiver output directory'')) (\<lambda>_.
             bindS (liftE (require_disk_space (h_statvfs r dir) (meta_file_size meta)
                   ''receiver output directory'')) (\<lambda>_.
             bindS (set_transfer (Some new_transfer)) (\<lambda>_.
             bindS (initialize_transfer meta dir) (\<lambda>accepted.
             if \<not> accepted
             then bindS (set_transfer None) (\<lambda>_. throwS ''failed to initialize FILE_META'')
             else
               bindS clear_timer (\<lambda>_.
               bindS (set_draining False) (\<lambda>_.
               send_control (Inr (encode_meta_ready \<lparr>mr_transfer_id = fm_transfer_id message\<rparr>)))))))))))))))"

text \<open>A message that is about the active transfer.\<close>

definition for_active :: "u64 \<Rightarrow> (transfer_state \<Rightarrow> unit rx) \<Rightarrow> unit rx" where
  "for_active transfer_id act =
     bindS (getS rx_transfer) (\<lambda>transfer.
     (case transfer of
        None \<Rightarrow> returnS ()
      | Some st \<Rightarrow> if transfer_id_of st \<noteq> transfer_id then returnS () else act st))"

definition handle_section_end :: "SectionEndMessage \<Rightarrow> unit rx" where
  "handle_section_end message =
     for_active (se_transfer_id message) (\<lambda>_.
       begin_drain_for_round (se_section_id message) (se_round_id message) (se_total_blocks message))"

text \<open>REPAIR_BEGIN only logs; so does BACKFILL_BEGIN.\<close>

definition handle_peer_repair_task :: "PeerRepairTaskMessage \<Rightarrow> unit rx" where
  "handle_peer_repair_task message =
     for_active (pt_transfer_id message) (\<lambda>st.
       if ts_awaiting_complete_ack st \<or> ts_final_sha_failed st then returnS ()
       else execute_peer_repair_task message)"

definition handle_backfill_data :: "BackfillDataMessage \<Rightarrow> unit rx" where
  "handle_backfill_data message =
     for_active (bd_transfer_id message) (\<lambda>st.
       if ts_awaiting_complete_ack st \<or> ts_final_sha_failed st
          \<or> bd_block_id message \<ge> meta_total_blocks (ts_meta st)
       then returnS ()
       else if \<not> payload_fits (ts_meta st) (bd_block_id message) (bd_offset message) (bd_payload_size message)
               \<or> crc32 (bd_payload message) \<noteq> bd_crc32 message
       then reject
       else if ts_received st ! unat (bd_block_id message) = 0
       then
         bindS (output_write (bd_payload message) (bd_offset message)) (\<lambda>_.
         bindS (mark_received (bd_block_id message)) (\<lambda>_.
         bindS (syscall ''fsync TCP backfill block'') (\<lambda>_.
         bindS (get_ts id) save_receiver_state)))
       else returnS ())"

definition handle_backfill_end :: "(bytes \<Rightarrow> bytes) \<Rightarrow> BackfillEndMessage \<Rightarrow> unit rx" where
  "handle_backfill_end sha message =
     for_active (be_transfer_id message) (\<lambda>st.
       if meta_file_size (ts_meta st) \<noteq> be_file_size message
          \<or> meta_total_blocks (ts_meta st) \<noteq> be_total_blocks message
          \<or> meta_sha256 (ts_meta st) \<noteq> be_sha256 message
          \<or> ts_awaiting_complete_ack st \<or> ts_final_sha_failed st
       then returnS ()
       else
         bindS (finalize_transfer sha) (\<lambda>finalized.
         (case finalized of
            None \<Rightarrow>
              bindS (send_section_status
                (case ts_active_section_id st of None \<Rightarrow> 0 | Some i \<Rightarrow> i)
                (case ts_last_reported_round st of None \<Rightarrow> 0 | Some k \<Rightarrow> k) SS_Failed 0 []) (\<lambda>_.
              set_ts (\<lambda>st. st\<lparr>ts_last_reported_round :=
                Some (case ts_last_reported_round st of None \<Rightarrow> 0 | Some k \<Rightarrow> k)\<rparr>))
          | Some actual_digest \<Rightarrow>
              bindS (set_ts (\<lambda>st. st\<lparr>ts_awaiting_complete_ack := True\<rparr>)) (\<lambda>_.
              send_control (Inr (encode_receiver_complete (complete_message st actual_digest)))))))"

text \<open>The end of a transfer, acknowledged or failed: forget it and report readiness.\<close>

definition finish_transfer :: "u64 \<Rightarrow> unit rx" where
  "finish_transfer transfer_id =
     bindS clear_timer (\<lambda>_.
     bindS (set_transfer None) (\<lambda>_.
     bindS (set_draining False) (\<lambda>_.
     send_control (Inr (encode_receiver_ready \<lparr>rr_previous_transfer_id = transfer_id\<rparr>)))))"

definition handle_complete_ack :: "CompleteAckMessage \<Rightarrow> unit rx" where
  "handle_complete_ack message =
     for_active (ca_transfer_id message) (\<lambda>st.
       if \<not> ts_awaiting_complete_ack st then returnS ()
       else finish_transfer (ca_transfer_id message))"

definition handle_transfer_result :: "TransferResultMessage \<Rightarrow> unit rx" where
  "handle_transfer_result message =
     bindS (getS rx_transfer) (\<lambda>transfer.
     (case transfer of
        None \<Rightarrow>
          if tr_result message = TR_Failed
          then send_control (Inr (encode_receiver_ready \<lparr>rr_previous_transfer_id = tr_transfer_id message\<rparr>))
          else returnS ()
      | Some st \<Rightarrow>
          if tr_transfer_id message \<noteq> transfer_id_of st then returnS ()
          else if tr_result message = TR_Failed then finish_transfer (tr_transfer_id message)
          else returnS ()))"

definition handle_control_message :: "(bytes \<Rightarrow> bytes) \<Rightarrow> bytes \<Rightarrow> unit rx" where
  "handle_control_message sha frame =
     bindS (liftE (peek_control_type frame)) (\<lambda>ty.
     if ty = CT_SessionEnd then
       bindS (liftE (decode_session_end frame)) (\<lambda>_. modifyS (\<lambda>r. r\<lparr>rx_stop_requested := True\<rparr>))
     else if ty = CT_FileMeta then bindS (liftE (decode_file_meta frame)) handle_file_meta
     else if ty = CT_SectionEnd then bindS (liftE (decode_section_end frame)) handle_section_end
     else if ty = CT_RepairBegin then bindS (liftE (decode_repair_begin frame)) (\<lambda>_. returnS ())
     else if ty = CT_PeerRepairTask then
       bindS (liftE (decode_peer_repair_task frame)) handle_peer_repair_task
     else if ty = CT_BackfillBegin then bindS (liftE (decode_backfill_begin frame)) (\<lambda>_. returnS ())
     else if ty = CT_BackfillData then bindS (liftE (decode_backfill_data frame)) handle_backfill_data
     else if ty = CT_BackfillEnd then
       bindS (liftE (decode_backfill_end frame)) (handle_backfill_end sha)
     else if ty = CT_CompleteAck then bindS (liftE (decode_complete_ack frame)) handle_complete_ack
     else if ty = CT_TransferResult then
       bindS (liftE (decode_transfer_result frame)) handle_transfer_result
     else returnS ())"

section \<open>Registration and reconnection\<close>

definition make_registration :: "u16 \<Rightarrow> u16 \<Rightarrow> transfer_state option \<Rightarrow> RegisterMessage" where
  "make_registration udp_port peer_udp_port transfer =
     (case transfer of
        None \<Rightarrow> \<lparr>reg_current_transfer_id = 0, reg_udp_port = udp_port,
          reg_peer_udp_port = peer_udp_port, reg_state = RS_Idle\<rparr>
      | Some st \<Rightarrow> \<lparr>reg_current_transfer_id = transfer_id_of st, reg_udp_port = udp_port,
          reg_peer_udp_port = peer_udp_port,
          reg_state = (if ts_awaiting_complete_ack st then RS_Completed else RS_Receiving)\<rparr>)"

text \<open>The retry loop, over the descriptors its connection attempts yield (\<open>None\<close>: refused). It
  throws the placeholder only when the listed attempts are used up, where the code still waits.\<close>

fun connect_and_register :: "u16 \<Rightarrow> u16 \<Rightarrow> int option list \<Rightarrow> int rx" where
  "connect_and_register udp_port peer_udp_port [] = throwS ''still connecting''"
| "connect_and_register udp_port peer_udp_port (None # later) =
     connect_and_register udp_port peer_udp_port later"
| "connect_and_register udp_port peer_udp_port (Some fd # later) =
     bindS (getS rx_transfer) (\<lambda>transfer.
     tryS (bindS (send_frame fd (encode_register (make_registration udp_port peer_udp_port transfer)))
            (\<lambda>_. returnS fd))
       (\<lambda>e. connect_and_register udp_port peer_udp_port later))"

text \<open>Registration of a descriptor with \<open>epoll\<close>; removing one that is not registered is no error.\<close>

definition add_epoll_interest :: "unit rx" where
  "add_epoll_interest = syscall ''epoll_ctl EPOLL_CTL_ADD''"

definition remove_epoll_interest :: "int \<Rightarrow> unit rx" where
  "remove_epoll_interest fd r =
     (if fd < 0 then (Inr (), r)
      else case h_events r of
          [] \<Rightarrow> (Inr (), r)
        | Fails e # evs \<Rightarrow> (if e = ENOENT then Inr () else system_error ''epoll_ctl EPOLL_CTL_DEL'' e, r\<lparr>h_events := evs\<rparr>)
        | Upto k # evs \<Rightarrow> (Inr (), r\<lparr>h_events := evs\<rparr>))"

definition set_control_fd :: "int \<Rightarrow> unit rx" where
  "set_control_fd fd = modifyS (\<lambda>r. r\<lparr>rx_control_fd := fd\<rparr>)"

definition reconnect_proxy :: "u16 \<Rightarrow> u16 \<Rightarrow> int option list \<Rightarrow> unit rx" where
  "reconnect_proxy udp_port peer_udp_port attempts =
     bindS (bindS (getS rx_control_fd) remove_epoll_interest) (\<lambda>_.
     bindS (set_control_fd (-1)) (\<lambda>_.
     bindS clear_timer (\<lambda>_.
     bindS (set_draining False) (\<lambda>_.
     bindS (set_ts (\<lambda>st. if ts_awaiting_complete_ack st then st
       else st\<lparr>ts_active_section_id := None, ts_last_end_round := None, ts_last_reported_round := None\<rparr>)) (\<lambda>_.
     bindS (connect_and_register udp_port peer_udp_port attempts) (\<lambda>fd.
     bindS (set_control_fd fd) (\<lambda>_. add_epoll_interest)))))))"

text \<open>The timer branch of the event loop: true when it must reconnect.\<close>

definition on_drain_timer :: "(bytes \<Rightarrow> bytes) \<Rightarrow> bool rx" where
  "on_drain_timer sha =
     bindS consume_timer_expiration (\<lambda>expired.
     bindS (getS id) (\<lambda>r.
     if expired \<and> rx_draining r \<and> rx_transfer r \<noteq> None
     then
       bindS (set_draining False) (\<lambda>_.
       tryS (bindS (finish_drain_and_report sha (rx_draining_round r)) (\<lambda>_. returnS False))
         (\<lambda>e. returnS True))
     else returnS False))"

text \<open>The control branch: the frames read in this turn, or the exception of reading them; true
  when it must reconnect.\<close>

definition on_control_ready :: "(bytes \<Rightarrow> bytes) \<Rightarrow> bytes list result \<Rightarrow> bool \<Rightarrow> bool rx" where
  "on_control_ready sha frames peer_closed =
     bindS (tryS (bindS (liftE frames) (\<lambda>fs.
         bindS (forS fs (handle_control_message sha)) (\<lambda>_. returnS peer_closed)))
       (\<lambda>e. returnS True)) (\<lambda>disconnected.
     getS (\<lambda>r. disconnected \<and> \<not> rx_stop_requested r))"

end
