(* ===== verification/Receiver_Invariants.thy ===== *)
theory Receiver_Invariants
  imports Receiver_Handlers
begin

text \<open>
  Invariants of the receiver over all its handlers. \<open>rx_inv\<close> says that the flags of the active
  transfer have one entry per block and that the counter counts them. It is preserved on every
  path of every handler, exceptions included; the proofs are the \<open>keeps\<close> rules plus the one
  place where a flag is set. The system calls never touch the transfer
  (\<open>same_transfer\<close>), so a handler still works on the transfer it looked up.
\<close>

section \<open>System calls keep the transfer\<close>

lemma host_stable_transfer: "host_stable (\<lambda>r :: receiver. Q (rx_transfer r))"
  by (simp add: host_stable_def)

definition same_transfer :: "'a rx \<Rightarrow> bool" where
  "same_transfer m \<longleftrightarrow> (\<forall>r. rx_transfer (snd (m r)) = rx_transfer r)"

lemma same_transferI:
  assumes "\<And>P. host_stable P \<Longrightarrow> keeps P m"
  shows "same_transfer m"
proof -
  have "keeps (\<lambda>r :: receiver. rx_transfer r = t) m" for t
    by (rule assms) (rule host_stable_transfer)
  then show ?thesis by (auto simp: same_transfer_def keeps_def)
qed

lemma same_transferD: "same_transfer m \<Longrightarrow> m r = (x, s) \<Longrightarrow> rx_transfer s = rx_transfer r"
  by (metis same_transfer_def snd_conv)

lemma same_transfer_keeps: "same_transfer m \<Longrightarrow> keeps (\<lambda>r. Q (rx_transfer r)) m"
  by (simp add: same_transfer_def keeps_def)

named_theorems quiet "computations that leave the transfer alone"

lemma same_transfer_host [quiet]:
  "same_transfer (syscall op)" "same_transfer (send_frame fd f)" "same_transfer (hash_file sha p)"
  "same_transfer (rename_file a b op)" "same_transfer (remove_file p)"
  "same_transfer (save_receiver_state st)" "same_transfer (write_all_at p d off)"
  "same_transfer (read_block_of p q n blk)" "same_transfer (load_receiver_state sp tp meta)"
  "same_transfer (open_file p tr op)" "same_transfer (ftruncate p n op)" "same_transfer (file_exists p)"
  by (auto intro!: same_transferI keep)

lemma same_transfer_pure [quiet]:
  "same_transfer (returnS x)" "same_transfer (throwS m)" "same_transfer (liftE res)" "same_transfer (getS f)"
  "same_transfer (get_ts g)" "same_transfer (bad_descriptor op)"
  by (simp_all add: same_transfer_def eff_run get_ts_def bad_descriptor_def)

lemma same_transfer_bind [quiet]:
  "same_transfer m \<Longrightarrow> (\<And>x. same_transfer (f x)) \<Longrightarrow> same_transfer (bindS m f)"
  by (auto simp: same_transfer_def bindS_run split: sum.split)

lemma same_transfer_try [quiet]:
  "same_transfer m \<Longrightarrow> (\<And>e. same_transfer (h e)) \<Longrightarrow> same_transfer (tryS m h)"
  by (auto simp: same_transfer_def tryS_run split: sum.split)

lemma same_transfer_if [quiet]:
  "same_transfer m \<Longrightarrow> same_transfer n \<Longrightarrow> same_transfer (if c then m else n)"
  by simp

lemma same_transfer_when [quiet]: "same_transfer m \<Longrightarrow> same_transfer (whenS c m)"
  by (simp add: same_transfer_def whenS_run)

lemma same_transfer_for [quiet]: "(\<And>x. same_transfer (body x)) \<Longrightarrow> same_transfer (forS xs body)"
  by (induction xs) (auto intro: quiet)

lemma same_transfer_modify [quiet]:
  "(\<And>r. rx_transfer (f r) = rx_transfer r) \<Longrightarrow> same_transfer (modifyS f)"
  by (simp add: same_transfer_def modifyS_run)

lemma same_transfer_timer [quiet]:
  "same_transfer (arm_timer_after d)" "same_transfer (arm_drain_timer h)" "same_transfer disarm_timer"
  "same_transfer (set_draining b)"
  by (auto simp: arm_timer_after_def arm_drain_timer_def disarm_timer_def set_draining_def Let_def
      intro!: quiet)

lemma same_transfer_consume [quiet]: "same_transfer consume_timer_expiration"
  by (simp add: same_transfer_def consume_timer_expiration_def split: prod.split sum.split bool.split)

lemma same_transfer_clear_timer [quiet]: "same_transfer clear_timer"
  by (simp add: clear_timer_def quiet)

lemma same_transfer_send_control [quiet]: "same_transfer (send_control f)"
  by (auto simp: send_control_def intro!: quiet)

lemma same_transfer_output [quiet]:
  "same_transfer (output_write d off)" "same_transfer (output_read_block b)"
  by (auto simp: output_write_def output_read_block_def intro!: quiet)

lemma same_transfer_peer_send [quiet]: "same_transfer (send_peer_udp_packet dest p)"
  by (simp add: same_transfer_def send_peer_udp_packet_def split: prod.split bool.split)

lemma same_transfer_status [quiet]: "same_transfer (send_section_status s k c n b)"
  by (auto simp: send_section_status_def intro!: quiet)

lemma same_transfer_peer_repair [quiet]: "same_transfer (execute_peer_repair_task task)"
  by (auto simp: execute_peer_repair_task_def peer_repair_block_def split: prod.split intro!: quiet)

section \<open>The invariant\<close>

definition rx_inv :: "receiver \<Rightarrow> bool" where
  "rx_inv r \<longleftrightarrow> (case rx_transfer r of None \<Rightarrow> True | Some st \<Rightarrow> wf_transfer st)"

lemma keeps_rx_inv_quiet: "same_transfer m \<Longrightarrow> keeps rx_inv m"
  using same_transfer_keeps [of m "\<lambda>t. case t of None \<Rightarrow> True | Some st \<Rightarrow> wf_transfer st"]
  by (simp add: rx_inv_def [abs_def])

lemma keeps_rx_inv_set_ts: "(\<And>st. wf_transfer st \<Longrightarrow> wf_transfer (f st)) \<Longrightarrow> keeps rx_inv (set_ts f)"
  by (auto simp: set_ts_def rx_inv_def intro!: keeps_modify split: option.splits)

lemma keeps_rx_inv_set_transfer: "(\<And>st. t = Some st \<Longrightarrow> wf_transfer st) \<Longrightarrow> keeps rx_inv (set_transfer t)"
  by (auto simp: set_transfer_def rx_inv_def intro!: keeps_modify split: option.splits)

lemma wf_transfer_fields [simp]:
  "wf_transfer (st\<lparr>ts_output_open := a\<rparr>) = wf_transfer st"
  "wf_transfer (st\<lparr>ts_duplicate_count := n\<rparr>) = wf_transfer st"
  "wf_transfer (st\<lparr>ts_rejected_count := n\<rparr>) = wf_transfer st"
  "wf_transfer (st\<lparr>ts_intentional_drop_count := n\<rparr>) = wf_transfer st"
  "wf_transfer (st\<lparr>ts_intentionally_dropped_blocks := bs\<rparr>) = wf_transfer st"
  "wf_transfer (st\<lparr>ts_active_section_id := i\<rparr>) = wf_transfer st"
  "wf_transfer (st\<lparr>ts_last_end_round := i\<rparr>) = wf_transfer st"
  "wf_transfer (st\<lparr>ts_last_reported_round := i\<rparr>) = wf_transfer st"
  "wf_transfer (st\<lparr>ts_awaiting_complete_ack := b\<rparr>) = wf_transfer st"
  "wf_transfer (st\<lparr>ts_final_sha_failed := b\<rparr>) = wf_transfer st"
  by (simp_all add: wf_transfer_def)

lemma wf_mark_received:
  assumes "wf_transfer st" and "unat b < unat (meta_total_blocks (ts_meta st))" and "ts_received st ! unat b = 0"
  shows "wf_transfer (st\<lparr>ts_received := (ts_received st)[unat b := 1], ts_received_count := ts_received_count st + 1\<rparr>)"
proof -
  have len: "length (ts_received st) = unat (meta_total_blocks (ts_meta st))"
    and cnt: "unat (ts_received_count st) = count_flags (ts_received st)"
    using assms(1) by (auto simp: wf_transfer_def)
  have suc: "count_flags ((ts_received st)[unat b := 1]) = Suc (count_flags (ts_received st))"
    using assms(2,3) len by (intro count_flags_set) simp_all
  then have "Suc (unat (ts_received_count st)) < 4294967296"
    using count_flags_le [of "(ts_received st)[unat b := 1]"] len cnt
      unat_u32_less [of "meta_total_blocks (ts_meta st)"] by simp
  then have "unat (ts_received_count st + 1) = Suc (unat (ts_received_count st))"
    by (simp add: unat_word_ariths)
  with suc len cnt show ?thesis by (simp add: wf_transfer_def)
qed

lemma wf_new_transfer: "wf_transfer new_transfer"
  by (simp add: wf_transfer_def new_transfer_def default_meta_def count_flags_def)

lemmas rx_quiet = keeps_pure
  same_transfer_host [THEN keeps_rx_inv_quiet] same_transfer_pure(5,6) [THEN keeps_rx_inv_quiet]
  same_transfer_timer [THEN keeps_rx_inv_quiet] same_transfer_consume [THEN keeps_rx_inv_quiet]
  same_transfer_clear_timer [THEN keeps_rx_inv_quiet] same_transfer_send_control [THEN keeps_rx_inv_quiet]
  same_transfer_output [THEN keeps_rx_inv_quiet] same_transfer_peer_send [THEN keeps_rx_inv_quiet]
  same_transfer_status [THEN keeps_rx_inv_quiet] same_transfer_peer_repair [THEN keeps_rx_inv_quiet]
  same_transfer_modify [THEN keeps_rx_inv_quiet]

text \<open>The structural rules, and the rule for changes of single fields.\<close>

lemmas rx_struct = keeps_bind keeps_if keeps_when keeps_for keeps_try keeps_rx_inv_set_ts
  keeps_case_option keeps_let

lemma keeps_reject: "keeps rx_inv reject"
  by (simp add: reject_def keeps_rx_inv_set_ts)

lemma keeps_finalize: "keeps rx_inv (finalize_transfer sha)"
  by (auto simp: finalize_transfer_def intro!: rx_struct rx_quiet)

lemma keeps_finish_drain: "keeps rx_inv (finish_drain_and_report sha k)"
  by (auto simp: finish_drain_and_report_def intro!: rx_struct rx_quiet keeps_finalize)

lemma keeps_begin_drain: "keeps rx_inv (begin_drain_for_round s k n)"
  by (auto simp: begin_drain_for_round_def Let_def intro!: rx_struct rx_quiet keeps_reject)

text \<open>A flag is set only after a successful write, on the transfer looked up before.\<close>

lemma get_ts_run [eff_run]: "get_ts g r = (Inr (g (the (rx_transfer r))), r)"
  by (simp add: get_ts_def getS_run)

lemma set_ts_run [eff_run]: "set_ts f r = (Inr (), r\<lparr>rx_transfer := map_option f (rx_transfer r)\<rparr>)"
  by (simp add: set_ts_def modifyS_run)

lemma bindS_get_ts [eff_step]: "bindS (get_ts g) k r = k (g (the (rx_transfer r))) r"
  by (simp add: bindS_run get_ts_run)

lemma bindS_set_ts [eff_step]: "bindS (set_ts f) k r = k () (r\<lparr>rx_transfer := map_option f (rx_transfer r)\<rparr>)"
  by (simp add: bindS_run set_ts_run)

lemma keeps_mark_received:
  assumes "same_transfer m"
    and "\<And>x. keeps rx_inv (k x)"
  shows "rx_inv r \<Longrightarrow> rx_transfer r = Some st \<Longrightarrow> b < meta_total_blocks (ts_meta st) \<Longrightarrow>
     ts_received st ! unat b = 0 \<Longrightarrow> rx_inv (snd (bindS m (\<lambda>_. bindS (mark_received b) k) r))"
proof -
  assume r: "rx_inv r" "rx_transfer r = Some st" "b < meta_total_blocks (ts_meta st)" "ts_received st ! unat b = 0"
  obtain x u where m: "m r = (x, u)" by force
  with assms(1) r have u: "rx_transfer u = Some st" by (simp add: same_transferD)
  have wf: "wf_transfer st" using r by (simp add: rx_inv_def)
  show ?thesis
  proof (cases x)
    case (Inl e)
    with m u wf show ?thesis by (simp add: bindS_run rx_inv_def)
  next
    case (Inr y)
    have "rx_inv (snd (mark_received b u))"
      using wf_mark_received [OF wf _ r(4)] r(3) u
      by (simp add: mark_received_def set_ts_def modifyS_run rx_inv_def word_less_nat_alt)
    with Inr m show ?thesis
      using keepsD [OF assms(2)] by (simp add: bindS_run mark_received_def set_ts_def modifyS_run)
  qed
qed

lemma should_drop_transfer:
  assumes "should_drop_initial_block_for_test b r = (x, u)" and "rx_transfer r = Some st"
  shows "(\<exists>st'. rx_transfer u = Some st' \<and> ts_received st' = ts_received st \<and> ts_meta st' = ts_meta st
     \<and> wf_transfer st' = wf_transfer st) \<and> (x = Inr False \<longrightarrow> u = r) \<and> (\<exists>v. x = Inr v)"
  using assms
  by (auto simp: should_drop_initial_block_for_test_def eff_run set_ts_def split: if_splits)

lemma keeps_handle_udp_data: "rx_inv r \<Longrightarrow> rx_transfer r = Some st \<Longrightarrow> rx_inv (snd (handle_udp_data d r))"
proof -
  assume r: "rx_inv r" "rx_transfer r = Some st"
  then have wf: "wf_transfer st" by (simp add: rx_inv_def)
  have rej: "rx_inv (snd (reject r))" using keepsD [OF keeps_reject r(1)] .
  obtain x u where drop: "should_drop_initial_block_for_test (dp_block_id d) r = (x, u)" by force
  have rest: "rx_inv (snd (bindS (output_write p off) (\<lambda>_. bindS (mark_received (dp_block_id d)) (\<lambda>_.
      bindS (getS id) (\<lambda>r. whenS (rx_draining r) (arm_drain_timer (rx_hard_deadline r))))) r))"
    if "dp_block_id d < meta_total_blocks (ts_meta st)" "ts_received st ! unat (dp_block_id d) = 0" for p off
    using that r by (intro keeps_mark_received) (auto intro!: quiet rx_struct rx_quiet)
  have dup: "rx_inv (snd (set_ts (\<lambda>st. st\<lparr>ts_duplicate_count := ts_duplicate_count st + 1\<rparr>) r))"
    by (rule keepsD [OF keeps_rx_inv_set_ts r(1)]) simp
  show ?thesis
    using should_drop_transfer [OF drop r(2)] r wf rej rest dup
    by (cases "section_id_for_block (dp_block_id d) (meta_section_block_count (ts_meta st))")
      (auto simp: handle_udp_data_def Let_def bindS_run [of "get_ts id"] bindS_run [of "liftE _"] get_ts_run
        liftE_run bindS_run [of "should_drop_initial_block_for_test _"] drop returnS_run rx_inv_def [of u]
        not_le)
qed

lemma keeps_process_packet: "keeps rx_inv (process_packet p)"
  unfolding process_packet_def
proof (rule keeps_try [OF _ keeps_reject])
  have "rx_inv (snd (handle_udp_data d r))" if "rx_inv r" "rx_transfer r = Some st" for d r st
    using that by (rule keeps_handle_udp_data)
  moreover have "rx_inv (snd (begin_drain_for_round s k n r))" if "rx_inv r" for s k n r
    using keeps_begin_drain that by (rule keepsD)
  ultimately show "keeps rx_inv (handle_udp_packet p)"
    by (auto simp: keeps_def handle_udp_packet_def eff_run split: sum.split option.split)
qed

lemma keeps_process_udp_ready: "keeps rx_inv (process_udp_ready n os)"
  by (induction n os rule: process_udp_ready.induct)
    (auto intro!: rx_struct rx_quiet keeps_process_packet)


section \<open>Control messages\<close>

lemma keeps_for_active:
  "(\<And>r st. rx_inv r \<Longrightarrow> rx_transfer r = Some st \<Longrightarrow> rx_inv (snd (act st r))) \<Longrightarrow> keeps rx_inv (for_active tid act)"
  by (auto simp: keeps_def for_active_def eff_run split: option.split)

lemma keeps_for_active': "(\<And>st. keeps rx_inv (act st)) \<Longrightarrow> keeps rx_inv (for_active tid act)"
  by (rule keeps_for_active) (rule keepsD)

lemma keeps_handle_backfill_data: "keeps rx_inv (handle_backfill_data m)"
  unfolding handle_backfill_data_def
proof (rule keeps_for_active)
  fix r st assume r: "rx_inv r" "rx_transfer r = Some st"
  have rej: "rx_inv (snd (reject r))" using keepsD [OF keeps_reject r(1)] .
  have "rx_inv (snd (bindS (output_write p off) (\<lambda>_. bindS (mark_received (bd_block_id m)) (\<lambda>_.
      bindS (syscall ''fsync TCP backfill block'') (\<lambda>_. bindS (get_ts id) save_receiver_state))) r))"
    if "bd_block_id m < meta_total_blocks (ts_meta st)" "ts_received st ! unat (bd_block_id m) = 0" for p off
    using that r by (intro keeps_mark_received) (auto intro!: quiet rx_struct rx_quiet)
  with r rej show "rx_inv (snd ((if ts_awaiting_complete_ack st \<or> ts_final_sha_failed st
          \<or> bd_block_id m \<ge> meta_total_blocks (ts_meta st)
       then returnS ()
       else if \<not> payload_fits (ts_meta st) (bd_block_id m) (bd_offset m) (bd_payload_size m)
               \<or> crc32 (bd_payload m) \<noteq> bd_crc32 m
       then reject
       else if ts_received st ! unat (bd_block_id m) = 0
       then
         bindS (output_write (bd_payload m) (bd_offset m)) (\<lambda>_.
         bindS (mark_received (bd_block_id m)) (\<lambda>_.
         bindS (syscall ''fsync TCP backfill block'') (\<lambda>_.
         bindS (get_ts id) save_receiver_state)))
       else returnS ()) r))"
    by (simp add: returnS_run not_le)
qed

text \<open>A transfer is installed with all flags clear, or with the flags of a state file that
  passed the checks.\<close>

lemma keeps_initialize: "keeps rx_inv (initialize_transfer meta dir)"
proof (rule keepsI)
  fix r assume inv: "rx_inv r"
  let ?tp = "received_temporary_path dir (meta_file_name meta) (hdr_transfer_id (meta_common meta))"
  let ?sp = "received_state_path ?tp"
  let ?init = "\<lambda>st. st\<lparr>ts_meta := meta,
          ts_output_path := received_output_path dir (meta_file_name meta),
          ts_temporary_path := ?tp, ts_state_path := ?sp,
          ts_received := replicate (unat (meta_total_blocks meta)) 0, ts_received_count := 0,
          ts_duplicate_count := 0, ts_rejected_count := 0, ts_intentional_drop_count := 0,
          ts_active_section_id := None, ts_last_end_round := None, ts_last_reported_round := None,
          ts_awaiting_complete_ack := False, ts_final_sha_failed := False,
          ts_intentionally_dropped_blocks := []\<rparr>"
  let ?tail = "\<lambda>loaded :: (bytes \<times> u32) option. bindS (open_file ?tp (loaded = None) ''open temporary output'') (\<lambda>_.
        bindS (set_ts (\<lambda>st. st\<lparr>ts_output_open := True\<rparr>)) (\<lambda>_.
        bindS (ftruncate ?tp (meta_file_size meta) ''ftruncate'') (\<lambda>_. returnS True)))"
  have tail: "keeps rx_inv (?tail l)" for l
    by (auto intro!: rx_struct rx_quiet)
  let ?r1 = "r\<lparr>rx_transfer := map_option ?init (rx_transfer r)\<rparr>"
  obtain x r2 where load: "load_receiver_state ?sp ?tp meta ?r1 = (x, r2)" by force
  have t2: "rx_transfer r2 = map_option ?init (rx_transfer r)"
    using same_transferD [OF same_transfer_host(9) load] by simp
  have wf: "wf_transfer (?init st)" for st by (simp add: wf_transfer_def)
  have r2: "rx_inv r2" using t2 wf by (simp add: rx_inv_def split: option.split)
  have set: "rx_inv (snd (set_ts (\<lambda>st. st\<lparr>ts_received := received, ts_received_count := n\<rparr>) r2))"
    if "x = Inr (Some (received, n))" for received n
    using load_receiver_state_wf [of ?sp ?tp meta ?r1 received n r2] load that t2
    by (auto simp: set_ts_def modifyS_run rx_inv_def wf_transfer_def split: option.split)
  show "rx_inv (snd (initialize_transfer meta dir r))"
  proof (cases "meta_block_size meta \<noteq> of_nat kPayloadSize
      \<or> \<not> is_ok (validate_section_block_count (meta_section_block_count meta))
      \<or> \<not> blocks_consistent (meta_file_size meta) (meta_block_size meta) (meta_total_blocks meta)")
    case True
    with inv show ?thesis by (auto simp: initialize_transfer_def returnS_run)
  next
    case False
    then have run: "initialize_transfer meta dir r =
        bindS (load_receiver_state ?sp ?tp meta) (\<lambda>loaded.
          bindS (case loaded of None \<Rightarrow> returnS ()
               | Some (received, n) \<Rightarrow> set_ts (\<lambda>st. st\<lparr>ts_received := received, ts_received_count := n\<rparr>))
            (\<lambda>_. ?tail loaded)) ?r1"
      by (simp add: initialize_transfer_def Let_def) (simp add: bindS_run set_ts_def modifyS_run)
    show ?thesis
    proof (cases x)
      case (Inl e)
      with load r2 show ?thesis by (simp add: run bindS_run)
    next
      case (Inr loaded)
      show ?thesis
      proof (cases loaded)
        case None
        with Inr load keepsD [OF tail [of None] r2] show ?thesis by (simp add: run bindS_run [of "load_receiver_state _ _ _"])
      next
        case (Some p)
        then obtain received n where p: "loaded = Some (received, n)" by (cases p) auto
        have "rx_inv (snd (?tail loaded (snd (set_ts (\<lambda>st. st\<lparr>ts_received := received, ts_received_count := n\<rparr>) r2))))"
          by (rule keepsD [OF tail]) (rule set, simp add: Inr p)
        then have "rx_inv (snd (bindS (set_ts (\<lambda>st. st\<lparr>ts_received := received, ts_received_count := n\<rparr>)) (\<lambda>_. ?tail loaded) r2))"
          by (simp only: bindS_set_ts set_ts_run snd_conv)
        with Inr p load show ?thesis by (simp add: run bindS_run [of "load_receiver_state _ _ _"])
      qed
    qed
  qed
qed

lemma same_transfer_existing [quiet]: "same_transfer (existing_temporary_size p)"
  by (auto simp: existing_temporary_size_def intro!: quiet)

lemma keeps_handle_file_meta: "keeps rx_inv (handle_file_meta m)"
  by (auto simp: handle_file_meta_def Let_def wf_new_transfer
      intro!: rx_struct rx_quiet keeps_initialize keeps_rx_inv_set_transfer
        keeps_rx_inv_quiet [OF same_transfer_existing])

lemma keeps_finish_transfer: "keeps rx_inv (finish_transfer tid)"
  by (auto simp: finish_transfer_def intro!: rx_struct rx_quiet keeps_rx_inv_set_transfer)

lemma keeps_handle_control_message: "keeps rx_inv (handle_control_message sha frame)"
proof -
  have section_end: "keeps rx_inv (handle_section_end m)" for m
    by (auto simp: handle_section_end_def intro!: keeps_for_active' keeps_begin_drain)
  have peer: "keeps rx_inv (handle_peer_repair_task m)" for m
    by (auto simp: handle_peer_repair_task_def intro!: keeps_for_active' rx_struct rx_quiet)
  have backfill_end: "keeps rx_inv (handle_backfill_end sha m)" for m
    by (auto simp: handle_backfill_end_def intro!: keeps_for_active' rx_struct rx_quiet keeps_finalize)
  have ack: "keeps rx_inv (handle_complete_ack m)" for m
    by (auto simp: handle_complete_ack_def intro!: keeps_for_active' rx_struct rx_quiet keeps_finish_transfer)
  have result: "keeps rx_inv (handle_transfer_result m)" for m
    by (auto simp: handle_transfer_result_def intro!: rx_struct rx_quiet keeps_finish_transfer)
  show ?thesis
    unfolding handle_control_message_def
    by (intro rx_struct rx_quiet section_end peer backfill_end ack result keeps_handle_file_meta
        keeps_handle_backfill_data) simp_all
qed

lemma same_transfer_connect: "same_transfer (connect_and_register u p attempts)"
  by (induction u p attempts rule: connect_and_register.induct) (auto intro!: quiet)

lemma same_transfer_epoll [quiet]:
  "same_transfer (remove_epoll_interest fd)" "same_transfer add_epoll_interest" "same_transfer (set_control_fd fd)"
  by (auto simp: same_transfer_def remove_epoll_interest_def set_control_fd_def modifyS_run
      split: list.split io_event.split)
    (simp add: add_epoll_interest_def syscall_def split: list.split io_event.split)

lemma keeps_reconnect: "keeps rx_inv (reconnect_proxy u p attempts)"
  by (auto simp: reconnect_proxy_def intro!: rx_struct rx_quiet keeps_rx_inv_quiet [OF same_transfer_epoll(1)]
      keeps_rx_inv_quiet [OF same_transfer_epoll(2)] keeps_rx_inv_quiet [OF same_transfer_epoll(3)]
      keeps_rx_inv_quiet [OF same_transfer_connect])

lemma keeps_on_drain_timer: "keeps rx_inv (on_drain_timer sha)"
  by (auto simp: on_drain_timer_def intro!: rx_struct rx_quiet keeps_finish_drain)

lemma keeps_on_control_ready: "keeps rx_inv (on_control_ready sha frames closed)"
  by (auto simp: on_control_ready_def intro!: rx_struct rx_quiet keeps_handle_control_message)

section \<open>Runs of the event loop\<close>

text \<open>What can happen between two waits of the loop, and its effect. Time passes and system
  calls get new outcomes between events.\<close>

datatype receiver_event =
    Udp_ready "recv_outcome list"
  | Timer_ready
  | Control_ready "bytes list result" bool
  | Reconnect u16 u16 "int option list"
  | World nat "io_event list"

fun receiver_effect :: "(bytes \<Rightarrow> bytes) \<Rightarrow> receiver_event \<Rightarrow> receiver \<Rightarrow> receiver" where
  "receiver_effect sha (Udp_ready outcomes) r = snd (process_udp_ready 0 outcomes r)"
| "receiver_effect sha Timer_ready r = snd (on_drain_timer sha r)"
| "receiver_effect sha (Control_ready frames closed) r = snd (on_control_ready sha frames closed r)"
| "receiver_effect sha (Reconnect udp_port peer_port attempts) r =
     snd (reconnect_proxy udp_port peer_port attempts r)"
| "receiver_effect sha (World elapsed events) r = r\<lparr>h_clock := h_clock r + elapsed, h_events := events\<rparr>"

definition receiver_run :: "(bytes \<Rightarrow> bytes) \<Rightarrow> receiver_event list \<Rightarrow> receiver \<Rightarrow> receiver" where
  "receiver_run sha evs r = fold (receiver_effect sha) evs r"

lemma rx_inv_effect: "rx_inv r \<Longrightarrow> rx_inv (receiver_effect sha e r)"
proof (cases e)
  case (World n evs)
  moreover assume "rx_inv r"
  ultimately show ?thesis by (simp add: rx_inv_def)
qed (auto intro: keepsD keeps_process_udp_ready keeps_on_drain_timer keeps_on_control_ready keeps_reconnect)


end
