(* ===== verification/Receiver_Delivery.thy ===== *)
theory Receiver_Delivery
  imports Receiver_Invariants
begin

text \<open>
  What the receiver stores and commits. \<open>stored F r\<close> relates the receiver to the source file
  \<open>F\<close>: the temporary file has the announced size and every block flagged as received has the
  bytes of \<open>F\<close>. DATA packets preserve it on every path, a failing or partial write included,
  because a block's flag is set only after its write and a write touches no other block. From
  it follow delivery (all blocks received means the file is \<open>F\<close>) and the commit properties of
  \<open>finalize_transfer\<close>.
\<close>

section \<open>A consistent announcement\<close>

text \<open>What the checks of FILE_META establish, as numbers: the block size, and the block count
  rounded up.\<close>

definition sane_meta :: "MetaPacket \<Rightarrow> bool" where
  "sane_meta meta \<longleftrightarrow> meta_block_size meta = of_nat kPayloadSize \<and>
     unat (meta_total_blocks meta) = (unat (meta_file_size meta) + (kPayloadSize - 1)) div kPayloadSize"

lemma blocks_consistent_sane:
  assumes "blocks_consistent (meta_file_size meta) (of_nat kPayloadSize) (meta_total_blocks meta)"
    and "meta_block_size meta = of_nat kPayloadSize" and "unat (meta_file_size meta) + 1199 < 2 ^ 64"
  shows "sane_meta meta"
  using blocks_consistent_exact [OF assms(1,3)] assms(2) by (simp add: sane_meta_def exact_blocks_def)

text \<open>The place of block \<open>b\<close>, without wrap-around.\<close>

lemma block_place:
  assumes "sane_meta meta" and "b < meta_total_blocks meta"
  shows "unat (ucast b * ucast (meta_block_size meta) :: u64) = unat b * kPayloadSize"
    and "unat (block_size_at meta b) = min kPayloadSize (unat (meta_file_size meta) - unat b * kPayloadSize)"
    and "unat b * kPayloadSize < unat (meta_file_size meta)"
proof -
  have bs: "ucast (meta_block_size meta) = (1200 :: u64)"
    using assms(1) by (simp add: sane_meta_def kPayloadSize_def)
  have off: "ucast b * ucast (meta_block_size meta) = block_offset b"
    using assms(1) by (simp add: bs block_offset_def kPayloadSize_def)
  have exact: "exact_blocks (meta_file_size meta) (meta_total_blocks meta)"
    using assms(1) by (simp add: sane_meta_def exact_blocks_def)
  show "unat (ucast b * ucast (meta_block_size meta) :: u64) = unat b * kPayloadSize"
    by (simp only: off unat_block_offset)
  show "unat b * kPayloadSize < unat (meta_file_size meta)" by (rule block_inside [OF exact assms(2)])
  have "wanted_size (meta_file_size meta) (block_offset b) < 65536"
    by (simp add: wanted_in_file [OF exact assms(2)] kPayloadSize_def min_def)
  then show "unat (block_size_at meta b) = min kPayloadSize (unat (meta_file_size meta) - unat b * kPayloadSize)"
    unfolding wanted_in_file [OF exact assms(2), symmetric] block_size_at_def off
    by (simp add: wanted_size_def bs kPayloadSize_def unsigned_ucast_eq take_bit_nat_eq_self)
qed

lemma payload_fits_iff:
  assumes "sane_meta meta" and "b < meta_total_blocks meta"
  shows "payload_fits meta b off n \<longleftrightarrow> unat off = unat b * kPayloadSize \<and>
    unat n = min kPayloadSize (unat (meta_file_size meta) - unat b * kPayloadSize)"
proof -
  note place = block_place [OF assms]
  have off: "off = ucast b * ucast (meta_block_size meta) \<longleftrightarrow> unat off = unat b * kPayloadSize"
    by (simp add: word_unat_eq_iff place(1))
  have n: "n = block_size_at meta b \<longleftrightarrow>
      unat n = min kPayloadSize (unat (meta_file_size meta) - unat b * kPayloadSize)"
    by (simp add: word_unat_eq_iff place(2))
  have "\<not> off + ucast n > meta_file_size meta"
    if "unat off = unat b * kPayloadSize"
      "unat n = min kPayloadSize (unat (meta_file_size meta) - unat b * kPayloadSize)"
  proof -
    have un: "unat (ucast n :: u64) = unat n"
      using unat_u16_less [of n] by (simp add: unsigned_ucast_eq take_bit_nat_eq_self)
    have le: "unat off + unat n \<le> unat (meta_file_size meta)" using that place(3) by simp
    then have "unat (off + ucast n) = unat off + unat n"
      using unat_u64_less [of "meta_file_size meta"] by (simp add: unat_word_ariths un)
    with le show ?thesis by (simp add: word_less_nat_alt)
  qed
  with off n show ?thesis by (auto simp: payload_fits_def)
qed

section \<open>The stored blocks\<close>

definition stores :: "bytes \<Rightarrow> (string \<Rightarrow> bytes option) \<Rightarrow> transfer_state \<Rightarrow> bool" where
  "stores F files st \<longleftrightarrow>
     (\<exists>content. files (c_str (ts_temporary_path st)) = Some content
        \<and> length content = unat (meta_file_size (ts_meta st))
        \<and> (\<forall>b. unat b < length (ts_received st) \<longrightarrow> ts_received st ! unat b \<noteq> 0 \<longrightarrow>
             block_bytes content (unat b) = block_bytes F (unat (b :: u32))))"

definition stored :: "bytes \<Rightarrow> receiver \<Rightarrow> bool" where
  "stored F r \<longleftrightarrow> (case rx_transfer r of
      None \<Rightarrow> True
    | Some st \<Rightarrow> ts_output_open st \<longrightarrow> sane_meta (ts_meta st) \<and> wf_transfer st \<and> stores F (h_files r) st)"

text \<open>A DATA packet is genuine when, if its fields are in place and its checksum matches, it
  carries the source's bytes.\<close>

definition genuine :: "bytes \<Rightarrow> MetaPacket \<Rightarrow> DataPacketView \<Rightarrow> bool" where
  "genuine F meta d \<longleftrightarrow>
     (payload_fits meta (dp_block_id d) (dp_offset d) (dp_payload_size d) \<longrightarrow>
      crc32 (take (unat (dp_payload_size d)) (dp_payload d)) = dp_crc32 d \<longrightarrow>
      take (unat (dp_payload_size d)) (dp_payload d) = block_bytes F (unat (dp_block_id d)))"

lemma stores_update_other:
  "ts_temporary_path st' = ts_temporary_path st \<Longrightarrow> ts_meta st' = ts_meta st \<Longrightarrow>
   ts_received st' = ts_received st \<Longrightarrow> stores F files st' = stores F files st"
  by (simp add: stores_def)

lemma stored_same:
  "rx_transfer r' = rx_transfer r \<Longrightarrow> h_files r' = h_files r \<Longrightarrow> stored F r' = stored F r"
  unfolding stored_def by (simp only:)

definition same_files :: "'a rx \<Rightarrow> bool" where
  "same_files m \<longleftrightarrow> (\<forall>r. h_files (snd (m r)) = h_files r)"

lemma same_files_bind: "same_files m \<Longrightarrow> (\<And>x. same_files (f x)) \<Longrightarrow> same_files (bindS m f)"
  by (auto simp: same_files_def bindS_run split: sum.split)

lemma same_files_when: "same_files m \<Longrightarrow> same_files (whenS c m)"
  by (simp add: same_files_def whenS_run)

lemma same_files_arm: "same_files (arm_drain_timer h)"
proof -
  have "same_files (syscall op)" for op by (simp add: same_files_def)
  then show ?thesis
    by (auto simp: arm_drain_timer_def arm_timer_after_def Let_def intro!: same_files_bind)
      (auto simp: same_files_def eff_run)
qed

text \<open>The write of one block: the file keeps its size, other blocks keep their bytes, and when
  the write succeeds the block has the payload.\<close>

lemma output_write_block:
  assumes r: "rx_transfer r = Some st" "ts_output_open st" "stores F (h_files r) st"
    and place: "unat off = b * kPayloadSize" "length data = min kPayloadSize (unat (meta_file_size (ts_meta st)) - b * kPayloadSize)"
      "b * kPayloadSize < unat (meta_file_size (ts_meta st))"
    and w: "output_write data off r = (x, u)"
  shows "rx_transfer u = Some st \<and> (\<exists>content content'.
      h_files r (c_str (ts_temporary_path st)) = Some content
    \<and> h_files u (c_str (ts_temporary_path st)) = Some content' \<and> length content' = length content
    \<and> (\<forall>c. c \<noteq> b \<longrightarrow> block_bytes content' c = block_bytes content c)
    \<and> (x = Inr () \<longrightarrow> block_bytes content' b = data))"
proof -
  from r(3) obtain content where content: "h_files r (c_str (ts_temporary_path st)) = Some content"
    "length content = unat (meta_file_size (ts_meta st))" by (auto simp: stores_def)
  have ne: "data \<noteq> []" using place(2,3) by (auto simp: kPayloadSize_def)
  have fit: "b * kPayloadSize + length data \<le> length content"
    using place(2,3) content(2) by simp
  obtain y content' evs where pw: "pwrite_all data (b * kPayloadSize) content (h_events r) = (y, content', evs)"
    by (metis prod_cases3)
  have u: "x = y" "u = r\<lparr>h_events := evs, h_files := (h_files r)(c_str (ts_temporary_path st) := Some content')\<rparr>"
    using w r ne pw content(1) place(1)
    by (simp_all add: output_write_def bindS_run get_ts_run write_all_at_def file_content_def
        content_or_empty_def put_file_def modifyS_run)
  note frame = pwrite_all_frame [OF pw fit]
  have "block_bytes content' c = block_bytes content c" if "c \<noteq> b" for c
    by (rule block_of_write_other [where b = b and n = "length data"]) (use frame that place(2) in auto)
  moreover have "block_bytes content' b = data" if "x = Inr ()"
  proof -
    have "content' = write_at content (b * kPayloadSize) data"
      using pwrite_all_Inr [of data "b * kPayloadSize" content "h_events r" "()"] pw fit u(1) that by simp
    moreover have "block_bytes (write_at content (b * kPayloadSize) data) b = data"
      by (rule block_of_write_same [OF fit]) (use place(2,3) content(2) in \<open>auto simp: min_def\<close>)
    ultimately show ?thesis by simp
  qed
  ultimately show ?thesis using u r(1) content(1) frame by auto
qed

lemma stored_after_write:
  assumes r: "stored F r" "rx_transfer r = Some st" "ts_output_open st"
    and b: "b < meta_total_blocks (ts_meta st)" "ts_received st ! unat b = 0"
    and fits: "payload_fits (ts_meta st) b off n" "length data = unat n" "data = block_bytes F (unat b)"
    and w: "output_write data off r = (x, u)"
  shows "stored F u" and "x = Inr () \<Longrightarrow> stored F (snd (mark_received b u))"
proof -
  have s: "sane_meta (ts_meta st)" "wf_transfer st" "stores F (h_files r) st"
    using r by (simp_all add: stored_def)
  note place = fits(1) [unfolded payload_fits_iff [OF s(1) b(1)]] block_place(3) [OF s(1) b(1)]
  obtain content content' where c: "rx_transfer u = Some st"
    "h_files r (c_str (ts_temporary_path st)) = Some content"
    "h_files u (c_str (ts_temporary_path st)) = Some content'" "length content' = length content"
    "\<And>c. c \<noteq> unat b \<Longrightarrow> block_bytes content' c = block_bytes content c"
    "x = Inr () \<Longrightarrow> block_bytes content' (unat b) = data"
    using output_write_block [OF r(2,3) s(3), of off "unat b" data x u] place fits(2) w by auto
  have old: "length content = unat (meta_file_size (ts_meta st))"
    "\<And>c :: u32. unat c < length (ts_received st) \<Longrightarrow> ts_received st ! unat c \<noteq> 0 \<Longrightarrow>
       block_bytes content (unat c) = block_bytes F (unat c)"
    using s(3) c(2) by (auto simp: stores_def)
  have keep: "block_bytes content' (unat c) = block_bytes F (unat c)"
    if "unat c < length (ts_received st)" "ts_received st ! unat c \<noteq> 0" for c :: u32
    using old(2) [OF that] c(5) [of "unat c"] that b(2) by (cases "unat c = unat b") auto
  then have "stores F (h_files u) st" using c(3,4) old(1) by (auto simp: stores_def)
  with c(1) s show "stored F u" by (simp add: stored_def)
  assume ok: "x = Inr ()"
  let ?st = "st\<lparr>ts_received := (ts_received st)[unat b := 1], ts_received_count := ts_received_count st + 1\<rparr>"
  have "stores F (h_files u) ?st"
  proof -
    have "block_bytes content' (unat c) = block_bytes F (unat c)"
      if "unat c < length (ts_received st)" "(ts_received st)[unat b := 1] ! unat c \<noteq> 0" for c :: u32
      using keep [of c] c(6) ok fits(3) that by (cases "unat c = unat b") auto
    with c(3,4) old(1) show ?thesis by (auto simp: stores_def)
  qed
  moreover have "wf_transfer ?st"
    using b by (intro wf_mark_received s(2)) (simp_all add: word_less_nat_alt)
  ultimately show "stored F (snd (mark_received b u))"
    using c(1) s(1) by (simp add: stored_def mark_received_def set_ts_run)
qed

lemma stored_set_ts:
  assumes "stored F r"
    and "\<And>st. ts_temporary_path (f st) = ts_temporary_path st \<and> ts_meta (f st) = ts_meta st
      \<and> ts_received (f st) = ts_received st \<and> ts_received_count (f st) = ts_received_count st
      \<and> (ts_output_open (f st) \<longrightarrow> ts_output_open st)"
  shows "stored F (snd (set_ts f r))"
proof (cases "rx_transfer r")
  case (Some st)
  have "stores F (h_files r) (f st) = stores F (h_files r) st"
    using assms(2) [of st] by (intro stores_update_other) auto
  moreover have "wf_transfer (f st) = wf_transfer st"
    using assms(2) [of st] by (simp add: wf_transfer_def)
  ultimately show ?thesis using assms(1) assms(2) [of st] Some by (auto simp: stored_def set_ts_run)
qed (use assms in \<open>simp add: stored_def set_ts_run\<close>)

lemma stored_reject: "stored F r \<Longrightarrow> stored F (snd (reject r))"
  unfolding reject_def by (rule stored_set_ts) auto

lemma stored_drop:
  "stored F r \<Longrightarrow> stored F (snd (should_drop_initial_block_for_test b r))"
  using stored_set_ts [of F r "\<lambda>st. st\<lparr>ts_intentionally_dropped_blocks := b # ts_intentionally_dropped_blocks st,
      ts_intentional_drop_count := ts_intentional_drop_count st + 1\<rparr>"]
  by (simp add: should_drop_initial_block_for_test_def eff_run)

lemma stored_write_mark_arm:
  assumes r: "stored F r" "rx_transfer r = Some st" "ts_output_open st"
    and b: "b < meta_total_blocks (ts_meta st)" "ts_received st ! unat b = 0"
    and fits: "payload_fits (ts_meta st) b off n" "length data = unat n" "data = block_bytes F (unat b)"
    and k: "\<And>x. same_files (k x)" "\<And>x. same_transfer (k x)"
  shows "stored F (snd (bindS (output_write data off) (\<lambda>_. bindS (mark_received b) k) r))"
proof -
  obtain x u where w: "output_write data off r = (x, u)" by force
  note after = stored_after_write [OF r b fits w]
  show ?thesis
  proof (cases x)
    case (Inl e)
    with w after(1) show ?thesis by (simp add: bindS_run)
  next
    case (Inr y)
    let ?v = "snd (mark_received b u)"
    have "stored F ?v" using Inr after(2) by simp
    moreover have "h_files (snd (k () ?v)) = h_files ?v" "rx_transfer (snd (k () ?v)) = rx_transfer ?v"
      using k by (simp_all add: same_files_def same_transfer_def)
    ultimately have "stored F (snd (k () ?v))" using stored_same by blast
    with Inr w show ?thesis by (simp add: bindS_run mark_received_def set_ts_run)
  qed
qed

section \<open>DATA packets keep the stored blocks\<close>

definition serves :: "bytes \<Rightarrow> MetaPacket \<Rightarrow> receiver \<Rightarrow> bool" where
  "serves F meta r \<longleftrightarrow> stored F r \<and>
     (case rx_transfer r of None \<Rightarrow> True | Some st \<Rightarrow> ts_output_open st \<and> ts_meta st = meta)"

lemma serves_frame:
  "serves F meta r \<Longrightarrow> same_files m \<Longrightarrow> same_transfer m \<Longrightarrow> serves F meta (snd (m r))"
  using stored_same [of "snd (m r)" r F] by (simp add: serves_def same_files_def same_transfer_def)

lemma keeps_serves_frame: "same_files m \<Longrightarrow> same_transfer m \<Longrightarrow> keeps (serves F meta) m"
  by (auto simp: keeps_def intro: serves_frame)

lemma keeps_serves_set_ts:
  assumes "\<And>st. ts_temporary_path (f st) = ts_temporary_path st \<and> ts_meta (f st) = ts_meta st
      \<and> ts_received (f st) = ts_received st \<and> ts_received_count (f st) = ts_received_count st
      \<and> ts_output_open (f st) = ts_output_open st"
  shows "keeps (serves F meta) (set_ts f)"
proof (rule keepsI)
  fix r assume r: "serves F meta r"
  have "stored F (snd (set_ts f r))"
    by (rule stored_set_ts) (use r assms in \<open>auto simp: serves_def\<close>)
  with r assms show "serves F meta (snd (set_ts f r))"
    by (auto simp: serves_def set_ts_run split: option.splits)
qed

lemma keeps_serves_pure:
  "keeps (serves F meta) (returnS x)" "keeps (serves F meta) (liftE res)" "keeps (serves F meta) (getS g)"
  "keeps (serves F meta) (get_ts h)" "keeps (serves F meta) (throwS msg)"
  by (simp_all add: keeps_def eff_run)

lemma keeps_serves_timer:
  "keeps (serves F meta) (arm_drain_timer h)"
  "(\<And>r. rx_transfer (f r) = rx_transfer r \<and> h_files (f r) = h_files r) \<Longrightarrow> keeps (serves F meta) (modifyS f)"
  by (auto intro!: keeps_serves_frame same_files_arm quiet simp: same_files_def modifyS_run)

lemma keeps_serves_begin_drain: "keeps (serves F meta) (begin_drain_for_round s k n)"
  by (auto simp: begin_drain_for_round_def reject_def Let_def
      intro!: keeps_bind keeps_if keeps_when keeps_serves_set_ts keeps_serves_pure keeps_serves_timer
        split: option.split)

lemma serves_handle_udp_data:
  assumes r: "serves F meta r" "rx_transfer r = Some st" and gen: "genuine F meta d"
    and len: "length (dp_payload d) = unat (dp_payload_size d)"
  shows "serves F meta (snd (handle_udp_data d r))"
proof -
  have st: "stored F r" "ts_output_open st" "ts_meta st = meta" using r by (simp_all add: serves_def)
  have rej: "serves F meta (snd (reject r))"
    unfolding reject_def by (rule keepsD [OF keeps_serves_set_ts r(1)]) simp
  have dup: "serves F meta (snd (set_ts (\<lambda>st. st\<lparr>ts_duplicate_count := ts_duplicate_count st + 1\<rparr>) r))"
    by (rule keepsD [OF keeps_serves_set_ts r(1)]) simp
  obtain x u where drop: "should_drop_initial_block_for_test (dp_block_id d) r = (x, u)" by force
  have u: "serves F meta u"
  proof -
    have "keeps (serves F meta) (should_drop_initial_block_for_test (dp_block_id d))"
      by (auto simp: should_drop_initial_block_for_test_def
          intro!: keeps_bind keeps_if keeps_serves_set_ts keeps_serves_pure)
    from keepsD [OF this r(1)] drop show ?thesis by simp
  qed
  let ?data = "take (unat (dp_payload_size d)) (dp_payload d)"
  let ?k = "\<lambda>_ :: unit. bindS (getS id) (\<lambda>r. whenS (rx_draining r) (arm_drain_timer (rx_hard_deadline r)))"
  have wr: "serves F meta (snd (bindS (output_write ?data (dp_offset d)) (\<lambda>_.
      bindS (mark_received (dp_block_id d)) ?k) r))"
    if b: "dp_block_id d < meta_total_blocks meta" "ts_received st ! unat (dp_block_id d) = 0"
      and fits: "payload_fits meta (dp_block_id d) (dp_offset d) (dp_payload_size d)"
      and crc: "crc32 ?data = dp_crc32 d"
  proof -
    have data: "?data = block_bytes F (unat (dp_block_id d))"
      using gen fits crc by (simp add: genuine_def)
    have k: "same_files (?k y)" "same_transfer (?k y)" for y
      by (auto intro!: same_files_bind same_files_when same_files_arm quiet) (simp add: same_files_def getS_run)
    have "stored F (snd (bindS (output_write ?data (dp_offset d)) (\<lambda>_. bindS (mark_received (dp_block_id d)) ?k) r))"
      by (rule stored_write_mark_arm [where n = "dp_payload_size d" and st = st])
        (use r(2) st b fits data len k in auto)
    moreover have "keeps (\<lambda>r. case rx_transfer r of None \<Rightarrow> True | Some st \<Rightarrow> ts_output_open st \<and> ts_meta st = meta)
        (bindS (output_write ?data (dp_offset d)) (\<lambda>_. bindS (mark_received (dp_block_id d)) ?k))"
    proof (intro keeps_bind)
      show "keeps (\<lambda>r. case rx_transfer r of None \<Rightarrow> True | Some st \<Rightarrow> ts_output_open st \<and> ts_meta st = meta)
          (mark_received (dp_block_id d))"
        by (auto simp: keeps_def mark_received_def set_ts_run split: option.splits)
    qed (rule same_transfer_keeps, auto intro!: quiet)+
    ultimately show ?thesis using r(1) by (auto simp: serves_def keeps_def)
  qed
  show ?thesis
    using should_drop_transfer [OF drop r(2)] r st rej dup wr u
    by (cases "section_id_for_block (dp_block_id d) (meta_section_block_count (ts_meta st))")
      (auto simp: handle_udp_data_def Let_def bindS_run [of "get_ts id"] bindS_run [of "liftE _"] get_ts_run
        liftE_run bindS_run [of "should_drop_initial_block_for_test _"] drop returnS_run not_le)
qed

lemma serves_process_packet:
  assumes "serves F meta r" and "\<And>d. decode_data p = Inr d \<Longrightarrow> genuine F meta d"
  shows "serves F meta (snd (process_packet p r))"
proof -
  have rej: "keeps (serves F meta) reject"
    unfolding reject_def by (rule keeps_serves_set_ts) simp
  have data: "serves F meta (snd (handle_udp_data d r))" if "decode_data p = Inr d" "rx_transfer r = Some st" for d st
    by (rule serves_handle_udp_data [OF assms(1) that(2) assms(2) [OF that(1)]])
      (use decode_data_layout(2) [OF that(1)] in simp)
  have drain: "serves F meta (snd (begin_drain_for_round s k n r))" for s k n
    by (rule keepsD [OF keeps_serves_begin_drain assms(1)])
  have "serves F meta (snd (handle_udp_packet p r))"
    using assms(1) data drain
    by (auto simp: handle_udp_packet_def eff_run split: sum.split option.split)
  then show ?thesis
    using keepsD [OF rej] by (auto simp: process_packet_def tryS_run split: sum.split)
qed

lemma serves_process_udp_ready:
  "serves F meta r \<Longrightarrow> (\<And>p d. Recv_packet p \<in> set os \<Longrightarrow> decode_data p = Inr d \<Longrightarrow> genuine F meta d) \<Longrightarrow>
     serves F meta (snd (process_udp_ready n os r))"
proof (induction n os arbitrary: r rule: process_udp_ready.induct)
  case (1 n)
  then show ?case by (simp add: returnS_run)
next
  case (2 n e later)
  then show ?case by (auto simp: returnS_run liftE_run)
next
  case (3 n packet later)
  have one: "serves F meta (snd (process_packet packet r))"
    by (rule serves_process_packet [OF "3.prems"(1)]) (use "3.prems"(2) in auto)
  have rest: "serves F meta (snd (process_udp_ready (Suc n) later (snd (process_packet packet r))))"
    if "n < kMaxUdpPacketsPerBatch" "packet \<noteq> []"
    by (rule "3.IH"(2)) (use that one "3.prems"(2) in auto)
  with one 3 show ?case by (auto simp: returnS_run bindS_run split: sum.split)
qed


section \<open>Delivery\<close>

text \<open>A receiver in the middle of a transfer, on a machine where nothing fails and without the
  test hook, that has at least the blocks \<open>R\<close>.\<close>

definition receiving :: "MetaPacket \<Rightarrow> u32 set \<Rightarrow> receiver \<Rightarrow> bool" where
  "receiving meta R r \<longleftrightarrow> h_events r = [] \<and> rx_initial_drop_blocks r = [] \<and>
     (case rx_transfer r of None \<Rightarrow> False
      | Some st \<Rightarrow> ts_meta st = meta \<and> ts_output_open st \<and> \<not> ts_awaiting_complete_ack st
          \<and> \<not> ts_final_sha_failed st \<and> length (ts_received st) = unat (meta_total_blocks meta)
          \<and> (\<forall>b \<in> R. unat b < unat (meta_total_blocks meta) \<longrightarrow> ts_received st ! unat b \<noteq> 0))"

text \<open>A datagram offers block \<open>b\<close> when it is a DATA packet of this transfer for it that passes
  all checks.\<close>

definition offers :: "MetaPacket \<Rightarrow> bytes \<Rightarrow> u32 \<Rightarrow> bool" where
  "offers meta p b \<longleftrightarrow> (case decode_data p of Inl e \<Rightarrow> False
    | Inr d \<Rightarrow> hdr_transfer_id (dp_common d) = hdr_transfer_id (meta_common meta) \<and> dp_block_id d = b
        \<and> b < meta_total_blocks meta
        \<and> section_id_for_block b (meta_section_block_count meta) = Inr (dp_section_id d)
        \<and> payload_fits meta b (dp_offset d) (dp_payload_size d)
        \<and> crc32 (take (unat (dp_payload_size d)) (dp_payload d)) = dp_crc32 d)"

lemma receiving_set_ts:
  assumes "\<And>st. ts_meta (f st) = ts_meta st \<and> ts_output_open (f st) = ts_output_open st
      \<and> ts_awaiting_complete_ack (f st) = ts_awaiting_complete_ack st
      \<and> ts_final_sha_failed (f st) = ts_final_sha_failed st \<and> ts_received (f st) = ts_received st"
  shows "keeps (receiving meta R) (set_ts f)"
  using assms by (auto simp: keeps_def receiving_def set_ts_run split: option.splits)

lemma receiving_pure:
  "keeps (receiving meta R) (returnS x)" "keeps (receiving meta R) (liftE res)" "keeps (receiving meta R) (getS g)"
  "keeps (receiving meta R) (get_ts h)" "keeps (receiving meta R) (throwS msg)"
  by (simp_all add: keeps_def eff_run)

lemma receiving_arm: "keeps (receiving meta R) (arm_drain_timer h)"
  by (auto simp: keeps_def arm_drain_timer_def arm_timer_after_def Let_def eff_run syscall_def receiving_def
      split: option.splits)

lemma receiving_modify:
  "(\<And>r. rx_transfer (f r) = rx_transfer r \<and> h_events (f r) = h_events r
      \<and> rx_initial_drop_blocks (f r) = rx_initial_drop_blocks r) \<Longrightarrow> keeps (receiving meta R) (modifyS f)"
  by (auto simp: keeps_def receiving_def modifyS_run split: option.splits)

lemmas receiving_rules = receiving_set_ts receiving_pure receiving_arm receiving_modify

lemma receiving_reject: "keeps (receiving meta R) reject"
  by (auto simp: reject_def intro!: receiving_rules)

lemma receiving_begin_drain: "keeps (receiving meta R) (begin_drain_for_round s k n)"
  by (auto simp: begin_drain_for_round_def Let_def
      intro!: keeps_bind keeps_if keeps_when receiving_rules receiving_reject split: option.split)

lemma receiving_write:
  assumes "receiving meta R r"
  shows "\<exists>u. output_write data off r = (Inr (), u) \<and> receiving meta R u \<and> rx_transfer u = rx_transfer r"
  using assms
  by (auto simp: receiving_def output_write_def bindS_run get_ts_run returnS_run write_all_at_def put_file_def
      modifyS_run split: option.splits)

lemma receiving_mark:
  assumes "receiving meta R r" and "unat b < unat (meta_total_blocks meta)"
  shows "receiving meta (insert b R) (snd (mark_received b r))"
  using assms
  by (auto simp: receiving_def mark_received_def set_ts_run nth_list_update split: option.splits)

lemma receiving_store:
  assumes "receiving meta R r" and "b < meta_total_blocks meta"
    and "\<And>S x. keeps (receiving meta S) (k x)"
  shows "receiving meta (insert b R) (snd (bindS (output_write data off) (\<lambda>_. bindS (mark_received b) k) r))"
proof -
  obtain u where u: "output_write data off r = (Inr (), u)" "receiving meta R u"
    using receiving_write [OF assms(1)] by blast
  have "receiving meta (insert b R) (snd (mark_received b u))"
    using u(2) assms(2) by (intro receiving_mark) (simp_all add: word_less_nat_alt)
  from keepsD [OF assms(3) this] u(1) show ?thesis
    by (simp add: bindS_run mark_received_def set_ts_run)
qed

lemma receiving_subset: "receiving meta S r \<Longrightarrow> R \<subseteq> S \<Longrightarrow> receiving meta R r"
  by (auto simp: receiving_def split: option.splits)

lemma receiving_insert_held:
  "receiving meta R r \<Longrightarrow> rx_transfer r = Some st \<Longrightarrow> ts_received st ! unat b \<noteq> 0 \<Longrightarrow> receiving meta (insert b R) r"
  by (auto simp: receiving_def)

lemma receiving_data_kept:
  assumes "receiving meta R r"
  shows "receiving meta R (snd (handle_udp_data d r))"
proof -
  from assms obtain st where st: "rx_transfer r = Some st" "ts_meta st = meta" "rx_initial_drop_blocks r = []"
    by (auto simp: receiving_def split: option.splits)
  have nodrop: "should_drop_initial_block_for_test b r = (Inr False, r)" for b
    using st by (simp add: should_drop_initial_block_for_test_def eff_run)
  have rej: "receiving meta R (snd (reject r))" by (rule keepsD [OF receiving_reject assms])
  have dup: "receiving meta R (snd (set_ts (\<lambda>st. st\<lparr>ts_duplicate_count := ts_duplicate_count st + 1\<rparr>) r))"
    by (rule keepsD [OF receiving_set_ts assms]) simp
  have wr: "receiving meta R (snd (bindS (output_write data off) (\<lambda>_. bindS (mark_received (dp_block_id d))
      (\<lambda>_. bindS (getS id) (\<lambda>r. whenS (rx_draining r) (arm_drain_timer (rx_hard_deadline r))))) r))"
    if "dp_block_id d < meta_total_blocks meta" for data off
    by (rule receiving_subset [OF receiving_store [OF assms that]])
      (auto intro!: keeps_bind keeps_when receiving_rules)
  show ?thesis
    using assms rej dup wr
    by (cases "section_id_for_block (dp_block_id d) (meta_section_block_count meta)")
      (auto simp: handle_udp_data_def Let_def bindS_run [of "get_ts id"] bindS_run [of "liftE _"] get_ts_run
        liftE_run bindS_run [of "should_drop_initial_block_for_test _"] nodrop st(1,2) returnS_run not_le)
qed

lemma receiving_data_new:
  assumes "receiving meta R r" and "decode_data p = Inr d" and "offers meta p b"
  shows "receiving meta (insert b R) (snd (handle_udp_data d r))"
proof -
  from assms(1) obtain st where st: "rx_transfer r = Some st" "ts_meta st = meta" "rx_initial_drop_blocks r = []"
    by (auto simp: receiving_def split: option.splits)
  have nodrop: "should_drop_initial_block_for_test b r = (Inr False, r)" for b
    using st by (simp add: should_drop_initial_block_for_test_def eff_run)
  from assms(2,3) have d: "dp_block_id d = b" "b < meta_total_blocks meta"
    "section_id_for_block b (meta_section_block_count meta) = Inr (dp_section_id d)"
    "payload_fits meta b (dp_offset d) (dp_payload_size d)"
    "crc32 (take (unat (dp_payload_size d)) (dp_payload d)) = dp_crc32 d"
    by (simp_all add: offers_def)
  have wr: "receiving meta (insert b R) (snd (bindS (output_write data off) (\<lambda>_. bindS (mark_received b)
      (\<lambda>_. bindS (getS id) (\<lambda>r. whenS (rx_draining r) (arm_drain_timer (rx_hard_deadline r))))) r))" for data off
    by (rule receiving_store [OF assms(1) d(2)]) (auto intro!: keeps_bind keeps_when receiving_rules)
  have dup: "receiving meta (insert b R) (snd (set_ts (\<lambda>st. st\<lparr>ts_duplicate_count := ts_duplicate_count st + 1\<rparr>) r))"
    if "ts_received st ! unat b \<noteq> 0"
    by (rule keepsD [OF receiving_set_ts receiving_insert_held [OF assms(1) st(1) that]]) simp
  show ?thesis
    using d wr dup
    by (auto simp: handle_udp_data_def Let_def bindS_run [of "get_ts id"] bindS_run [of "liftE _"] get_ts_run
        liftE_run bindS_run [of "should_drop_initial_block_for_test _"] nodrop st(1,2))
qed

lemma receiving_process_packet:
  assumes "receiving meta R r"
  shows "receiving meta R (snd (process_packet p r))"
    and "offers meta p b \<Longrightarrow> receiving meta (insert b R) (snd (process_packet p r))"
proof -
  from assms obtain st where st: "rx_transfer r = Some st" "ts_meta st = meta"
    "\<not> ts_awaiting_complete_ack st" "\<not> ts_final_sha_failed st"
    by (auto simp: receiving_def split: option.splits)
  have drain: "receiving meta R (snd (begin_drain_for_round s k n r))" for s k n
    by (rule keepsD [OF receiving_begin_drain assms])
  have "receiving meta R (snd (handle_udp_packet p r))"
    using assms drain receiving_data_kept [OF assms]
    by (auto simp: handle_udp_packet_def eff_run st(1) split: sum.split)
  then show "receiving meta R (snd (process_packet p r))"
    using keepsD [OF receiving_reject] by (auto simp: process_packet_def tryS_run split: sum.split)
  assume b: "offers meta p b"
  then obtain d where d: "decode_data p = Inr d" "hdr_transfer_id (dp_common d) = hdr_transfer_id (meta_common meta)"
    by (auto simp: offers_def split: sum.splits)
  have common: "run_reader read_common p = Inr (dp_common d)" and ty: "hdr_type (dp_common d) = PT_Data"
  proof -
    from decode_data_layout [OF d(1)] obtain res where p: "p = write_common PT_Data (hdr_transfer_id (dp_common d)) @ res"
      and ty: "hdr_type (dp_common d) = PT_Data" by auto
    then show "hdr_type (dp_common d) = PT_Data" by simp
    have "p = write_common (hdr_type (dp_common d)) (hdr_transfer_id (dp_common d)) @ res" using p ty by simp
    then show "run_reader read_common p = Inr (dp_common d)"
      using common.get_put [OF TrueI, of "dp_common d" res] by (simp add: run_reader_def)
  qed
  have run: "handle_udp_packet p r = handle_udp_data d r"
    using st d common ty by (simp add: handle_udp_packet_def eff_run transfer_id_of_def)
  show "receiving meta (insert b R) (snd (process_packet p r))"
    using receiving_data_new [OF assms d(1) b] run keepsD [OF receiving_reject]
    by (auto simp: process_packet_def tryS_run split: sum.split)
qed

lemma process_packet_returns: "fst (process_packet p r) = Inr ()"
  by (cases "fst (handle_udp_packet p r)") (auto simp: process_packet_def tryS_run reject_def set_ts_run)

definition offered :: "MetaPacket \<Rightarrow> bytes list \<Rightarrow> u32 set" where
  "offered meta packets = {b. \<exists>p \<in> set packets. offers meta p b}"

lemma receiving_batch:
  "receiving meta R r \<Longrightarrow> n + length packets \<le> kMaxUdpPacketsPerBatch \<Longrightarrow>
     receiving meta (R \<union> offered meta packets) (snd (process_udp_ready n (map Recv_packet packets) r))"
proof (induction packets arbitrary: R r n)
  case Nil
  then show ?case by (simp add: returnS_run offered_def)
next
  case (Cons p packets)
  have empty: "\<not> offers meta [] b" for b
    by (simp add: offers_def decode_data_def kDataHeaderSize_def kCommonHeaderSize_def)
  let ?r = "snd (process_packet p r)"
  have one: "receiving meta (R \<union> {b. offers meta p b}) ?r"
  proof -
    have "receiving meta R ?r" by (rule receiving_process_packet(1) [OF Cons.prems(1)])
    moreover have "receiving meta (insert b R) ?r" if "offers meta p b" for b
      by (rule receiving_process_packet(2) [OF Cons.prems(1) that])
    ultimately show ?thesis by (auto simp: receiving_def split: option.splits)
  qed
  have split: "R \<union> offered meta (p # packets) = (R \<union> {b. offers meta p b}) \<union> offered meta packets"
    by (auto simp: offered_def)
  show ?case
  proof (cases "p = []")
    case True
    with Cons.IH [OF Cons.prems(1), of n] Cons.prems(2) empty show ?thesis
      by (simp add: offered_def)
  next
    case False
    have "receiving meta ((R \<union> {b. offers meta p b}) \<union> offered meta packets)
        (snd (process_udp_ready (Suc n) (map Recv_packet packets) ?r))"
      by (rule Cons.IH [OF one]) (use Cons.prems(2) in simp)
    with False Cons.prems(2) split show ?thesis
      by (simp add: bindS_run process_packet_returns)
  qed
qed

text \<open>The batches of several wake-ups, each within the limit.\<close>

definition udp_run :: "bytes list list \<Rightarrow> receiver \<Rightarrow> receiver" where
  "udp_run batches r = fold (\<lambda>b r. snd (process_udp_ready 0 (map Recv_packet b) r)) batches r"

lemma receiving_run:
  "receiving meta R r \<Longrightarrow> list_all (\<lambda>b. length b \<le> kMaxUdpPacketsPerBatch) batches \<Longrightarrow>
     receiving meta (R \<union> offered meta (concat batches)) (udp_run batches r)"
proof (induction batches arbitrary: R r)
  case Nil
  then show ?case by (simp add: udp_run_def offered_def)
next
  case (Cons b batches)
  let ?r = "snd (process_udp_ready 0 (map Recv_packet b) r)"
  have "receiving meta (R \<union> offered meta b) ?r"
    using receiving_batch [OF Cons.prems(1), of 0 b] Cons.prems(2) by simp
  from Cons.IH [OF this] Cons.prems(2)
  have "receiving meta (R \<union> offered meta b \<union> offered meta (concat batches)) (udp_run batches ?r)" by simp
  moreover have "R \<union> offered meta (concat (b # batches)) = R \<union> offered meta b \<union> offered meta (concat batches)"
    by (auto simp: offered_def)
  ultimately show ?case by (simp add: udp_run_def)
qed

lemma serves_run:
  "serves F meta r \<Longrightarrow> (\<And>p d. p \<in> set (concat batches) \<Longrightarrow> decode_data p = Inr d \<Longrightarrow> genuine F meta d) \<Longrightarrow>
     serves F meta (udp_run batches r)"
proof (induction batches arbitrary: r)
  case (Cons b batches)
  have "serves F meta (snd (process_udp_ready 0 (map Recv_packet b) r))"
    by (rule serves_process_udp_ready [OF Cons.prems(1)]) (use Cons.prems(2) in auto)
  then have "serves F meta (udp_run batches (snd (process_udp_ready 0 (map Recv_packet b) r)))"
    by (rule Cons.IH) (use Cons.prems(2) in auto)
  then show ?case by (simp add: udp_run_def)
qed (simp add: udp_run_def)

text \<open>All blocks flagged and stored: the temporary file is the source file.\<close>

lemma stored_complete:
  assumes "serves F meta r" and "receiving meta UNIV r" and "length F = unat (meta_file_size meta)"
  shows "\<exists>st. rx_transfer r = Some st \<and> h_files r (c_str (ts_temporary_path st)) = Some F
    \<and> (\<forall>b < unat (meta_total_blocks meta). ts_received st ! b \<noteq> 0)"
proof -
  from assms(2) obtain st where st: "rx_transfer r = Some st" "ts_output_open st" "ts_meta st = meta"
    "length (ts_received st) = unat (meta_total_blocks meta)"
    and all: "\<And>b :: u32. unat b < unat (meta_total_blocks meta) \<Longrightarrow> ts_received st ! unat b \<noteq> 0"
    by (auto simp: receiving_def split: option.splits)
  have flags: "ts_received st ! b \<noteq> 0" if "b < unat (meta_total_blocks meta)" for b
    using all [of "of_nat b"] that unat_u32_less [of "meta_total_blocks meta"] by (simp add: unat_of_nat_u32)
  from assms(1) st have sane: "sane_meta meta" and "stores F (h_files r) st"
    by (auto simp: serves_def stored_def)
  then obtain content where c: "h_files r (c_str (ts_temporary_path st)) = Some content"
    "length content = unat (meta_file_size meta)"
    "\<And>b :: u32. unat b < unat (meta_total_blocks meta) \<Longrightarrow> block_bytes content (unat b) = block_bytes F (unat b)"
    using st all by (auto simp: stores_def)
  have bound: "unat (meta_file_size meta) \<le> unat (meta_total_blocks meta) * kPayloadSize"
    using sane by (simp add: sane_meta_def kPayloadSize_def)
  have "content = F"
  proof (rule blocks_determine)
    fix i assume i: "i < unat (meta_total_blocks meta)"
    then show "block_bytes content i = block_bytes F i"
      using c(3) [of "of_nat i"] unat_u32_less [of "meta_total_blocks meta"] by (simp add: unat_of_nat_u32)
  qed (use c(2) assms(3) bound in simp_all)
  with st c flags show ?thesis by auto
qed


end
