(* ===== verification/Receiver_Properties.thy ===== *)
theory Receiver_Properties
  imports Receiver_Delivery
begin

text \<open>
  Functional properties of the receiver's operations: the commit of a finished file, the
  missing-block bitmap, the drain of a round, repeated FILE_META, the acknowledgement, and what
  a failed start leaves behind.
\<close>

section \<open>Commit\<close>

lemma syscall_cases:
  "syscall op r = (x, u) \<Longrightarrow> (\<exists>evs. u = r\<lparr>h_events := evs\<rparr>) \<and> (x = Inr () \<or> (\<exists>e. x = Inl e))"
  by (cases "h_events r"; cases "hd (h_events r)") (auto simp: syscall_def system_error_def intro: exI [of _ "h_events r"])

lemma hash_file_cases:
  assumes "hash_file sha p r = (x, u)"
  shows "h_files u = h_files r \<and> (\<forall>d. x = Inr d \<longrightarrow> (\<exists>c. h_files r (c_str p) = Some c \<and> sha c = d))"
proof -
  obtain y v where s: "syscall ''open'' r = (y, v)" by force
  from syscall_cases [OF s] have v: "h_files v = h_files r" "file_content p v = h_files r (c_str p)"
    by (auto simp: file_content_def)
  show ?thesis
    using assms s v by (cases y; cases "h_files r (c_str p)")
      (auto simp: hash_file_def bindS_run tryS_run throwS_run getS_run returnS_run)
qed

lemma remove_file_files:
  "q \<noteq> c_str p \<Longrightarrow> h_files (snd (remove_file p r)) q = h_files r q"
  by (auto simp: remove_file_def eff_run put_file_def split: sum.split)

lemma remove_file_returns: "fst (remove_file p r) = Inr ()"
  by (auto simp: remove_file_def eff_run put_file_def split: sum.split)

lemma rename_file_cases:
  "rename_file a b op r = (x, u) \<Longrightarrow> c_str a \<noteq> c_str b \<Longrightarrow>
     (x = Inr () \<and> h_files u (c_str b) = h_files r (c_str a) \<and> h_files r (c_str a) \<noteq> None)
   \<or> ((\<exists>e. x = Inl e) \<and> h_files u = h_files r)"
proof -
  assume run: "rename_file a b op r = (x, u)" and ne: "c_str a \<noteq> c_str b"
  obtain y v where s: "syscall op r = (y, v)" by force
  from syscall_cases [OF s] have v: "h_files v = h_files r" by auto
  show ?thesis
    using run s v ne by (cases y; cases "h_files r (c_str a)")
      (auto simp: rename_file_def bindS_run getS_run file_content_def liftE_run put_file_def modifyS_run
        system_error_def)
qed

text \<open>\<open>finalize_transfer\<close> on a complete transfer: flush, hash, and then the commit of a matching
  digest.\<close>

definition commit :: "transfer_state \<Rightarrow> bytes \<Rightarrow> bytes option rx" where
  "commit st actual_digest =
     (if actual_digest \<noteq> meta_sha256 (ts_meta st)
      then bindS (set_ts (\<lambda>st. st\<lparr>ts_final_sha_failed := True\<rparr>)) (\<lambda>_. returnS None)
      else
        bindS (set_ts (\<lambda>st. st\<lparr>ts_output_open := False\<rparr>)) (\<lambda>_.
        bindS (rename_file (ts_temporary_path st) (ts_output_path st) ''rename failed'') (\<lambda>_.
        bindS (remove_file (ts_state_path st)) (\<lambda>_.
        returnS (Some actual_digest)))))"

lemma finalize_run:
  "rx_transfer r = Some st \<Longrightarrow> finalize_transfer sha r =
     (if ts_received_count st \<noteq> meta_total_blocks (ts_meta st) then (Inr None, r)
      else bindS (syscall ''fsync temporary output'') (\<lambda>_.
        bindS (hash_file sha (ts_temporary_path st)) (commit st)) r)"
  by (simp add: finalize_transfer_def commit_def [abs_def] bindS_run [of "get_ts id"] get_ts_run returnS_run
      cong: if_cong)

lemma commit_cases:
  assumes "commit st d r = (res, t)"
    and "c_str (ts_temporary_path st) \<noteq> c_str (ts_output_path st)"
    and "c_str (ts_state_path st) \<noteq> c_str (ts_output_path st)"
  shows "(h_files t (c_str (ts_output_path st)) = h_files r (c_str (ts_output_path st)) \<and> (\<forall>e. res \<noteq> Inr (Some e)))
    \<or> (d = meta_sha256 (ts_meta st) \<and> res = Inr (Some d)
        \<and> h_files t (c_str (ts_output_path st)) = h_files r (c_str (ts_temporary_path st)))"
proof (cases "d = meta_sha256 (ts_meta st)")
  case False
  with assms(1) show ?thesis by (auto simp: commit_def bindS_set_ts returnS_run)
next
  case True
  let ?u = "r\<lparr>rx_transfer := map_option (\<lambda>st. st\<lparr>ts_output_open := False\<rparr>) (rx_transfer r)\<rparr>"
  obtain x v where ren: "rename_file (ts_temporary_path st) (ts_output_path st) ''rename failed'' ?u = (x, v)"
    by force
  have rem: "h_files (snd (remove_file (ts_state_path st) v)) (c_str (ts_output_path st)) = h_files v (c_str (ts_output_path st))"
    using assms(3) by (intro remove_file_files) simp
  have "(case x of Inl e \<Rightarrow> (Inl e, v) | Inr _ \<Rightarrow> (Inr (Some d), snd (remove_file (ts_state_path st) v))) = (res, t)"
    using assms(1) True ren remove_file_returns [of "ts_state_path st" v]
    by (cases x) (simp_all add: commit_def bindS_set_ts bindS_run [of "rename_file _ _ _"] bindS_run [of "remove_file _"] returnS_run)
  with rename_file_cases [OF ren assms(2)] rem True show ?thesis by (auto split: sum.splits)
qed

text \<open>C1: A file appears under its final name only complete and verified. On every path through
  \<open>finalize_transfer\<close>, whichever call fails, the final path afterwards has what it had before,
  or exactly the temporary file's content, whose SHA-256 is the announced digest; and when it
  reports success, it is the latter and every block was counted.\<close>

theorem finalize_commits_verified:
  assumes "rx_transfer r = Some st"
    and "c_str (ts_temporary_path st) \<noteq> c_str (ts_output_path st)"
    and "c_str (ts_state_path st) \<noteq> c_str (ts_output_path st)"
    and "finalize_transfer sha r = (res, t)"
  shows "(h_files t (c_str (ts_output_path st)) = h_files r (c_str (ts_output_path st))
      \<or> (\<exists>c. h_files t (c_str (ts_output_path st)) = Some c
            \<and> h_files r (c_str (ts_temporary_path st)) = Some c \<and> sha c = meta_sha256 (ts_meta st)))
    \<and> (\<forall>d. res = Inr (Some d) \<longrightarrow>
        ts_received_count st = meta_total_blocks (ts_meta st) \<and> d = meta_sha256 (ts_meta st)
        \<and> (\<exists>c. h_files t (c_str (ts_output_path st)) = Some c \<and> sha c = d))"
proof (cases "ts_received_count st = meta_total_blocks (ts_meta st)")
  case False
  with assms(1,4) show ?thesis by (auto simp: finalize_run)
next
  case True
  obtain x1 u1 where sync: "syscall ''fsync temporary output'' r = (x1, u1)" by force
  have u1: "h_files u1 = h_files r" using sync by (metis snd_conv syscall_files)
  obtain x2 u2 where hash: "hash_file sha (ts_temporary_path st) u1 = (x2, u2)" by force
  note h = hash_file_cases [OF hash]
  have run: "finalize_transfer sha r = (case x1 of Inl e \<Rightarrow> (Inl e, u1)
      | Inr _ \<Rightarrow> (case x2 of Inl e \<Rightarrow> (Inl e, u2) | Inr d \<Rightarrow> commit st d u2))"
    using True sync hash by (simp add: finalize_run [OF assms(1)] bindS_run split: sum.split)
  show ?thesis
  proof (cases "\<exists>y d. x1 = Inr y \<and> x2 = Inr d")
    case False
    with run u1 h assms(4) show ?thesis by (auto split: sum.splits)
  next
    case ok: True
    then obtain d where d: "x2 = Inr d" "commit st d u2 = (res, t)" using run assms(4) by auto
    from commit_cases [OF d(2) assms(2,3)] h d(1) u1 True show ?thesis by auto
  qed
qed

section \<open>The missing-block bitmap\<close>

lemma foldE_missing:
  assumes "list_all (\<lambda>i. unat (i :: u32) < 8 * length bm) is"
  shows "\<exists>bm'. foldE (\<lambda>i (bitmap, n :: u32). if miss i then bindE (bitmap_set bitmap i) (\<lambda>b. Inr (b, n + 1)) else Inr (bitmap, n))
      is (bm, n) = Inr (bm', n + of_nat (length (filter miss is)))
    \<and> foldE (\<lambda>i b. bitmap_set b i) (filter miss is) bm = Inr bm'"
  using assms
proof (induction "is" arbitrary: bm n)
  case Nil
  then show ?case by simp
next
  case (Cons i "is")
  show ?case
  proof (cases "miss i")
    case False
    with Cons show ?thesis by simp
  next
    case True
    obtain b1 where b1: "bitmap_set bm i = Inr b1" "8 * length b1 = 8 * length bm"
      using bitmap.ins_ok [of i bm] bitmap.cap_ins [of bm i] Cons.prems by auto
    with Cons.prems have "list_all (\<lambda>i. unat i < 8 * length b1) is" by simp
    from Cons.IH [OF this, of "n + 1"] b1 True show ?thesis by (auto simp: add.assoc)
  qed
qed

lemma missing_bitmap_run:
  assumes "section_block_count (meta_total_blocks (ts_meta st)) s (meta_section_block_count (ts_meta st)) = Inr n"
  shows "\<exists>bm c. make_missing_bitmap st s = Inr (bm, c)
    \<and> length bm = bitmap_size_for_blocks n
    \<and> (\<forall>j. unat j < 8 * length bm \<longrightarrow> bitmap_test bm j =
        Inr (j < n \<and> ts_received st ! unat (s * meta_section_block_count (ts_meta st) + j) = 0))
    \<and> c = of_nat (length (filter (\<lambda>j. ts_received st ! unat (s * meta_section_block_count (ts_meta st) + j) = 0)
        (local_blocks n)))"
proof -
  let ?first = "s * meta_section_block_count (ts_meta st)"
  let ?miss = "\<lambda>i :: u32. ts_received st ! unat (?first + i) = 0"
  let ?bm = "replicate (bitmap_size_for_blocks n) 0 :: bytes"
  have first: "section_first_block s (meta_section_block_count (ts_meta st)) = Inr ?first"
    using section_block_count_Inr [OF assms] by simp
  from foldE_missing [OF local_blocks_fit, of ?miss n 0] obtain bm where
    run: "foldE (\<lambda>i (bitmap, n :: u32). if ?miss i then bindE (bitmap_set bitmap i) (\<lambda>b. Inr (b, n + 1)) else Inr (bitmap, n))
      (local_blocks n) (?bm, 0) = Inr (bm, of_nat (length (filter ?miss (local_blocks n))))"
    and sets: "foldE (\<lambda>i b. bitmap_set b i) (filter ?miss (local_blocks n)) ?bm = Inr bm"
    by (simp only: add_0) blast
  have "list_all (\<lambda>i. unat i < 8 * length ?bm) (filter ?miss (local_blocks n))"
    using local_blocks_fit [of n] by (simp only: list_all_iff set_filter mem_Collect_eq) blast
  from bitmap.ins_all_ok [OF this] sets have len: "length bm = bitmap_size_for_blocks n" by simp
  have test: "bitmap_test bm j = Inr (j < n \<and> ?miss j)" if "unat j < 8 * length bm" for j
  proof -
    have j: "unat j < 8 * length ?bm" using that len by simp
    then have zero: "bitmap_test ?bm j = Inr False" by (intro bitmap_zero) simp
    show ?thesis
      unfolding bitmap.test_ins_all [OF sets j] set_filter mem_Collect_eq set_local_blocks zero
      by (auto simp only: split: if_split)
  qed
  have "make_missing_bitmap st s = Inr (bm, of_nat (length (filter ?miss (local_blocks n))))"
    using run first assms by (simp add: make_missing_bitmap_def Let_def)
  with len test show ?thesis by blast
qed

text \<open>C10: The report of a Section is exact. For a Section inside the file, \<open>make_missing_bitmap\<close>
  does not throw; bit \<open>j\<close> is set exactly when the Section's \<open>j\<close>-th block has not been received,
  bits behind the Section's last block are zero, the bitmap has the size the proxy expects, and
  the count is the number of missing blocks.\<close>

theorem missing_bitmap_exact:
  assumes "section_block_count (meta_total_blocks (ts_meta st)) s (meta_section_block_count (ts_meta st)) = Inr n"
  shows "\<exists>bm c. make_missing_bitmap st s = Inr (bm, c)
    \<and> length bm = bitmap_size_for_blocks n
    \<and> (\<forall>j. unat j < 8 * length bm \<longrightarrow> bitmap_test bm j =
        Inr (j < n \<and> ts_received st ! unat (s * meta_section_block_count (ts_meta st) + j) = 0))
    \<and> c = of_nat (length (filter (\<lambda>j. ts_received st ! unat (s * meta_section_block_count (ts_meta st) + j) = 0)
        (local_blocks n)))"
  using assms by (rule missing_bitmap_run)

section \<open>Draining a round\<close>

text \<open>A SECTION_END that is about the past: an older Section, a round already reported, an older
  round than the one being drained, or a repetition of it.\<close>

definition stale_end :: "receiver \<Rightarrow> transfer_state \<Rightarrow> u32 \<Rightarrow> u32 \<Rightarrow> bool" where
  "stale_end r st s k \<longleftrightarrow> (case ts_active_section_id st of None \<Rightarrow> False
     | Some a \<Rightarrow> s < a \<or> (s = a \<and>
         ((\<exists>j. ts_last_reported_round st = Some j \<and> k \<le> j)
          \<or> (\<exists>j. ts_last_end_round st = Some j \<and> (k < j \<or> (k = j \<and> rx_draining r))))))"

lemma arm_drain_timer_run:
  "h_events r = [] \<Longrightarrow> arm_drain_timer deadline r = (Inr (), r\<lparr>rx_drain_timer :=
     Some (h_clock r + nat (max 1 (min kDrainQuietPeriod (int deadline - int (h_clock r)))))\<rparr>)"
  by (auto simp: arm_drain_timer_def arm_timer_after_def eff_run syscall_def Let_def max_def)


text \<open>Data that arrives while draining extends the wait by the quiet period, never past the hard
  deadline (but for the nanosecond a timer needs to fire at all).\<close>

lemma arm_drain_timer_bound:
  assumes "h_events r = []" and "arm_drain_timer deadline r = (x, t)"
  shows "\<exists>e. rx_drain_timer t = Some e \<and> h_clock r < e \<and> e \<le> max deadline (h_clock r + 1)
    \<and> e \<le> h_clock r + 200000000"
  using assms by (auto simp: arm_drain_timer_run kDrainQuietPeriod_def max_def min_def)

section \<open>FILE_META and the end of a transfer\<close>

lemma send_control_run:
  "send_control (Inr f) r = send_frame (rx_control_fd r) f r"
  by (simp add: send_control_def eff_run)

text \<open>The announcements the receiver takes.\<close>

definition acceptable_meta :: "FileMetaMessage \<Rightarrow> bool" where
  "acceptable_meta m \<longleftrightarrow> fm_section_id m = kSingleSectionId \<and> fm_block_size m = of_nat kPayloadSize
     \<and> blocks_consistent (fm_file_size m) (fm_block_size m) (fm_total_blocks m)
     \<and> safe_received_file_name (fm_file_name m) = Inr (fm_file_name m)"

text \<open>A repeated FILE_META never restarts the transfer. While the announced transfer is active
  under the same name, the only effect of another FILE_META is one answer: META_READY while it is
  in progress, RECEIVER_COMPLETE with its size and digest once it is finished.\<close>

theorem repeated_file_meta:
  assumes "acceptable_meta m" and "rx_transfer r = Some st" and "transfer_id_of st = fm_transfer_id m"
    and "meta_file_name (ts_meta st) = fm_file_name m"
  shows "handle_file_meta m r = send_frame (rx_control_fd r)
    (if ts_awaiting_complete_ack st
     then encode_receiver_complete \<lparr>rc_transfer_id = fm_transfer_id m,
       rc_file_size = meta_file_size (ts_meta st), rc_sha256 = meta_sha256 (ts_meta st)\<rparr>
     else encode_meta_ready \<lparr>mr_transfer_id = fm_transfer_id m\<rparr>) r"
  using assms by (auto simp: handle_file_meta_def acceptable_meta_def eff_run send_control_run)

lemma clear_timer_run: "h_events r = [] \<Longrightarrow> clear_timer r = (Inr (), r\<lparr>rx_drain_timer := None\<rparr>)"
  by (simp add: clear_timer_def disarm_timer_def eff_run syscall_def consume_timer_expiration_def
      timer_expired_def)

text \<open>COMPLETE_ACK ends exactly the transfer it is about. It is ignored unless the transfer it
  names is active and waiting for it; then, when no call fails, the transfer is forgotten, the
  timer stopped and RECEIVER_READY for that transfer sent.\<close>

theorem complete_ack_ends_transfer:
  assumes "h_events r = []"
  shows "handle_complete_ack m r =
    (case rx_transfer r of
       None \<Rightarrow> (Inr (), r)
     | Some st \<Rightarrow>
         if transfer_id_of st = ca_transfer_id m \<and> ts_awaiting_complete_ack st
         then (Inr (), r\<lparr>rx_transfer := None, rx_draining := False, rx_drain_timer := None,
           h_frames := h_frames r @ [(rx_control_fd r,
             encode_receiver_ready \<lparr>rr_previous_transfer_id = ca_transfer_id m\<rparr>)]\<rparr>)
         else (Inr (), r))"
proof -
  have ready: "valid_frame (encode_receiver_ready \<lparr>rr_previous_transfer_id = i\<rparr>)" for i
    by (simp add: valid_frame_def encode_receiver_ready_def write_control_header_def kMaxControlFrameSize_def
        put_u64_def flip: length_greater_0_conv)
  show ?thesis
  proof (cases "rx_transfer r")
    case None
    then show ?thesis by (simp add: handle_complete_ack_def for_active_def eff_run)
  next
    case (Some st)
    have "finish_transfer i r = (Inr (), r\<lparr>rx_transfer := None, rx_draining := False, rx_drain_timer := None,
        h_frames := h_frames r @ [(rx_control_fd r, encode_receiver_ready \<lparr>rr_previous_transfer_id = i\<rparr>)]\<rparr>)" for i
      using assms ready
      by (simp add: finish_transfer_def bindS_run clear_timer_run set_transfer_def set_draining_def modifyS_run
          send_control_run send_frame_no_events)
    with Some show ?thesis by (simp add: handle_complete_ack_def for_active_def eff_run)
  qed
qed

end
