(* ===== verification/Receiver_Examples.thy ===== *)
theory Receiver_Examples
  imports Receiver_Properties
begin

text \<open>
  A small transfer in which the properties of the receiver apply: a file of three bytes, one
  block of one Section, on a machine where no call fails. The digest is a stand-in that is
  injective on short files.
\<close>

definition example_file :: bytes where
  "example_file = [1, 2, 3]"

definition example_sha :: "bytes \<Rightarrow> bytes" where
  "example_sha c = take kSha256Size (c @ replicate kSha256Size 0)"

definition example_meta :: MetaPacket where
  "example_meta = \<lparr>meta_common = \<lparr>hdr_type = PT_Meta, hdr_transfer_id = 7\<rparr>, meta_file_size = 3,
     meta_block_size = 1200, meta_total_blocks = 1, meta_section_block_count = 64,
     meta_file_name = ''f'', meta_sha256 = example_sha example_file\<rparr>"

definition example_transfer :: transfer_state where
  "example_transfer = new_transfer\<lparr>ts_meta := example_meta, ts_temporary_path := ''d/f.part-7'',
     ts_output_path := ''d/f'', ts_state_path := ''d/f.part-7.state'', ts_output_open := True,
     ts_received := [0]\<rparr>"

definition example_receiver :: receiver where
  "example_receiver = \<lparr>h_files = (\<lambda>_. None)(''d/f.part-7'' := Some [0, 0, 0]), h_events = [],
     h_clock = 5, h_frames = [], h_packets = [], h_getenv = (\<lambda>_. None),
     h_statvfs = (\<lambda>_. Inr (1000000, 4096)), h_scan = (\<lambda>_. Inr []),
     rx_transfer = Some example_transfer, rx_draining = False, rx_draining_round = 0,
     rx_hard_deadline = 0, rx_stop_requested = False, rx_drain_timer = None, rx_control_fd = 4,
     rx_output_directory = ''d'', rx_initial_drop_blocks = []\<rparr>"

text \<open>The same transfer with its block stored.\<close>

definition example_done :: receiver where
  "example_done = example_receiver\<lparr>
     h_files := (\<lambda>_. None)(''d/f.part-7'' := Some example_file),
     rx_transfer := Some (example_transfer\<lparr>ts_received := [1], ts_received_count := 1\<rparr>)\<rparr>"

text \<open>The DATA packet of the block.\<close>

definition example_packet :: bytes where
  "example_packet = write_common PT_Data 7 @ put_u32 0 @ put_u32 0 @ put_u64 0 @ put_u16 3
     @ put_u16 0 @ put_u32 (crc32 example_file) @ example_file"

lemmas example_defs = example_receiver_def example_transfer_def example_meta_def new_transfer_def
  example_file_def example_done_def transfer_id_of_def

lemma example_path [simp]:
  "c_str ''d/f.part-7'' = ''d/f.part-7''" "c_str ''d/f'' = ''d/f''"
  "c_str ''d/f.part-7.state'' = ''d/f.part-7.state''"
  by (simp_all add: c_str_def)

lemma example_packet_decodes:
  "decode_data example_packet = Inr \<lparr>dp_common = \<lparr>hdr_type = PT_Data, hdr_transfer_id = 7\<rparr>,
     dp_section_id = 0, dp_block_id = 0, dp_offset = 0, dp_payload_size = 3,
     dp_crc32 = crc32 example_file, dp_payload = example_file\<rparr>"
proof -
  have "encode_data 7 0 0 0 example_file 3 (crc32 example_file) = Inr example_packet"
    by (simp add: encode_data_def example_packet_def example_file_def kPayloadSize_def)
  then show ?thesis by (rule decode_encode_data) (simp add: example_file_def)
qed

lemma example_meta_fields [simp]:
  "meta_file_size example_meta = 3" "meta_block_size example_meta = 1200"
  "meta_total_blocks example_meta = 1" "meta_section_block_count example_meta = 64"
  "meta_common example_meta = \<lparr>hdr_type = PT_Meta, hdr_transfer_id = 7\<rparr>"
  "meta_file_name example_meta = ''f''" "meta_sha256 example_meta = example_sha example_file"
  by (simp_all add: example_meta_def)

lemma example_transfer_fields [simp]:
  "ts_meta example_transfer = example_meta" "ts_temporary_path example_transfer = ''d/f.part-7''"
  "ts_output_path example_transfer = ''d/f''" "ts_state_path example_transfer = ''d/f.part-7.state''"
  "ts_output_open example_transfer" "ts_received example_transfer = [0]"
  "ts_received_count example_transfer = 0" "\<not> ts_awaiting_complete_ack example_transfer"
  "\<not> ts_final_sha_failed example_transfer" "ts_active_section_id example_transfer = None"
  by (simp_all add: example_transfer_def new_transfer_def)

lemma example_receiver_fields [simp]:
  "rx_transfer example_receiver = Some example_transfer" "h_events example_receiver = []"
  "h_files example_receiver = (\<lambda>_. None)(''d/f.part-7'' := Some [0, 0, 0])"
  "rx_initial_drop_blocks example_receiver = []" "h_clock example_receiver = 5"
  "rx_control_fd example_receiver = 4" "h_frames example_receiver = []"
  by (simp_all add: example_receiver_def)

lemma example_sane: "sane_meta example_meta"
  by (simp add: sane_meta_def kPayloadSize_def)

lemma example_stored: "stored example_file example_receiver"
  by (simp add: stored_def example_sane stores_def wf_transfer_def count_flags_def)

lemma example_genuine:
  "decode_data example_packet = Inr d \<Longrightarrow> genuine example_file example_meta d"
  by (auto simp: example_packet_decodes genuine_def example_file_def block_bytes_def kPayloadSize_def)

section \<open>The properties in the example\<close>




theorem receiver_state_save_load_witness:
  "fst (save_receiver_state example_transfer example_receiver) = Inr () \<and>
    fst (load_receiver_state (ts_state_path example_transfer) (ts_temporary_path example_transfer)
      (ts_meta example_transfer) (snd (save_receiver_state example_transfer example_receiver)))
    = Inr (Some (ts_received example_transfer, ts_received_count example_transfer))"
  by (rule receiver_state_save_load [where content = "[0, 0, 0]"])
    (simp_all add: wf_transfer_def count_flags_def example_sha_def kSha256Size_def no_nul_def
      received_state_path_def)

theorem receiver_state_save_atomic_witness:
  "h_files (snd (save_receiver_state example_transfer (example_receiver\<lparr>h_events := [Upto 1, Upto 4, Fails EINTR]\<rparr>)))
      ''d/f.part-7.state'' = None
    \<or> h_files (snd (save_receiver_state example_transfer (example_receiver\<lparr>h_events := [Upto 1, Upto 4, Fails EINTR]\<rparr>)))
      ''d/f.part-7.state'' = Some (bytes_of_string (receiver_state_text example_transfer))"
  using receiver_state_save_atomic [of example_transfer
      "example_receiver\<lparr>h_events := [Upto 1, Upto 4, Fails EINTR]\<rparr>"]
  by (simp add: no_nul_def)

lemma example_done_fields [simp]:
  "rx_transfer example_done = Some (example_transfer\<lparr>ts_received := [1], ts_received_count := 1\<rparr>)"
  "h_events example_done = []"
  "h_files example_done = (\<lambda>_. None)(''d/f.part-7'' := Some example_file)"
  by (simp_all add: example_done_def)

lemma example_finalize:
  "finalize_transfer example_sha example_done = (Inr (Some (example_sha example_file)),
     example_done\<lparr>h_files := (\<lambda>_. None)(''d/f'' := Some example_file),
       rx_transfer := Some (example_transfer\<lparr>ts_received := [1], ts_received_count := 1, ts_output_open := False\<rparr>)\<rparr>)"
  by (simp add: finalize_transfer_def eff_run syscall_def hash_file_def file_content_def rename_file_def
      put_file_def remove_file_def get_ts_def set_ts_def fun_eq_iff)

theorem finalize_commits_verified_witness:
  "h_files (snd (finalize_transfer example_sha example_done)) ''d/f'' = Some example_file
    \<and> example_sha example_file = meta_sha256 example_meta"
  using finalize_commits_verified [of example_done _ example_sha, OF _ _ _ example_finalize]
  by (simp add: example_finalize)

theorem missing_bitmap_exact_witness:
  "\<exists>bm c. make_missing_bitmap example_transfer 0 = Inr (bm, c) \<and> length bm = bitmap_size_for_blocks 1
    \<and> bitmap_test bm 0 = Inr True \<and> c = 1"
  using missing_bitmap_exact [of example_transfer 0 1]
  by (auto simp: section_block_count_def section_first_block_def section_id_for_block_def
      validate_section_block_count_def bitmap_size_for_blocks_def local_blocks_def)


definition example_announcement :: FileMetaMessage where
  "example_announcement = \<lparr>fm_transfer_id = 7, fm_section_id = 0, fm_file_size = 3, fm_block_size = 1200,
     fm_total_blocks = 1, fm_section_block_count = 64, fm_file_name = ''f'',
     fm_sha256 = example_sha example_file\<rparr>"

theorem repeated_file_meta_witness:
  "handle_file_meta example_announcement example_receiver
    = send_frame 4 (encode_meta_ready \<lparr>mr_transfer_id = 7\<rparr>) example_receiver"
  using repeated_file_meta [of example_announcement example_receiver example_transfer]
  by (simp add: example_announcement_def acceptable_meta_def kSingleSectionId_def kPayloadSize_def
      transfer_id_of_def blocks_consistent_def expected_blocks_def safe_received_file_name_def
      path_filename_def Let_def)

theorem complete_ack_ends_transfer_witness:
  "handle_complete_ack \<lparr>ca_transfer_id = 7\<rparr>
      (example_receiver\<lparr>rx_transfer := Some (example_transfer\<lparr>ts_awaiting_complete_ack := True\<rparr>)\<rparr>)
    = (Inr (), example_receiver\<lparr>rx_transfer := None, rx_draining := False, rx_drain_timer := None,
        h_frames := [(4, encode_receiver_ready \<lparr>rr_previous_transfer_id = 7\<rparr>)]\<rparr>)"
  using complete_ack_ends_transfer [of "example_receiver\<lparr>rx_transfer := Some (example_transfer\<lparr>ts_awaiting_complete_ack := True\<rparr>)\<rparr>"
      "\<lparr>ca_transfer_id = 7\<rparr>"]
  by (simp add: transfer_id_of_def)

end
