(* ===== verification/Proxy.thy ===== *)
theory Proxy
  imports Host
begin

text \<open>
  The proxy's view of its receivers (\<open>src/sender.cpp\<close>): \<open>ReceiverConnection\<close>, registration and
  reconnection, the control frames of a round, missing-block bitmaps, and the bookkeeping of a
  round (completion test, isolation of slow receivers, aggregation of missing blocks).

  \<open>proxy\<close> extends \<open>host\<close> by the vector of receivers; a reference \<open>ReceiverConnection &\<close> is an
  index into it. A closed connection has descriptor -1. Addresses are pairs of IPv4 number and
  port in host order.
\<close>

type_synonym endpoint = "u32 \<times> u16"

record receiver_connection =
  rv_receiver_endpoint :: string
  rv_control_fd :: int
  rv_udp_destination :: endpoint
  rv_peer_destination :: endpoint
  rv_meta_ready :: bool
  rv_status_received :: bool
  rv_complete_received :: bool
  rv_completed :: bool
  rv_ready_for_next_transfer :: bool
  rv_isolated :: bool
  rv_abandoned :: bool
  rv_recovery_state :: ReceiverState
  rv_recovery_transfer_id :: u64
  rv_backfill_blocks :: "u32 list"
  rv_status :: "SectionStatusMessage option"
  rv_active_meta :: "FileMetaMessage option"

definition new_receiver :: receiver_connection where
  "new_receiver = \<lparr>rv_receiver_endpoint = [], rv_control_fd = -1, rv_udp_destination = (0, 0),
     rv_peer_destination = (0, 0), rv_meta_ready = False, rv_status_received = False,
     rv_complete_received = False, rv_completed = False, rv_ready_for_next_transfer = False,
     rv_isolated = False, rv_abandoned = False, rv_recovery_state = RS_Idle,
     rv_recovery_transfer_id = 0, rv_backfill_blocks = [], rv_status = None, rv_active_meta = None\<rparr>"

text \<open>What the coming waits report. \<open>epoll_wait\<close> returns after some nanoseconds with, per
  readable connection, what \<open>receive_control_frame\<close> then does on it, connections found closed,
  and perhaps a new connection at the listener; \<open>poll\<close> on one connection is alike. Each call of
  \<open>accept_pending_receiver_reconnects\<close> finds one batch of pending connections. \<open>px_random\<close> are the
  numbers the random generators will draw.\<close>

record accepted_receiver =
  acc_registration :: RegisterMessage
  acc_control_fd :: int
  acc_peer :: u32
  acc_receiver_endpoint :: string

datatype epoll_report = Readable nat "bytes result" | Hung_up nat

record epoll_wake =
  wk_elapsed :: nat
  wk_reports :: "epoll_report list"
  wk_listener :: "accepted_receiver result option"

datatype poll_outcome = Poll_error errno | Poll_timeout | Poll_hangup | Poll_nothing | Poll_frame "bytes result"

text \<open>The last fields are the connection to the central sender with what is received on it, and the
  variables \<open>receive_cached_file_from_central\<close> shares with its worker thread: the queue of Sections
  to distribute with their sizes, \<open>pending_bytes\<close>, the worker's exception (\<open>worker_failed\<close>), the
  result of the last Section, and whether and with which digest a failure is reported. \<open>px_schedule\<close>
  says how many tasks the worker completes before each point at which the two threads meet.\<close>

datatype DeliveryResult = DR_Success | DR_Sha256Mismatch | DR_Failed

record proxy = host +
  px_receivers :: "receiver_connection list"
  px_wakes :: "epoll_wake list"
  px_pending :: "accepted_receiver result list list"
  px_polls :: "nat \<Rightarrow> (nat \<times> poll_outcome) list"
  px_random :: "u64 list"
  px_central_fd :: int
  px_central :: "bytes result list"
  px_queue :: "(u32 \<times> u64) list"
  px_pending_bytes :: u64
  px_worker_error :: "error option"
  px_section_result :: DeliveryResult
  px_failure :: "bytes option"
  px_dispatch_complete :: bool
  px_schedule :: "nat list"

type_synonym 'a px = "(proxy, 'a) eff"

definition get_rv :: "nat \<Rightarrow> (receiver_connection \<Rightarrow> 'a) \<Rightarrow> 'a px" where
  "get_rv i g = getS (\<lambda>p. g (px_receivers p ! i))"

definition set_rv :: "nat \<Rightarrow> (receiver_connection \<Rightarrow> receiver_connection) \<Rightarrow> unit px" where
  "set_rv i f = modifyS (\<lambda>p. p\<lparr>px_receivers := (px_receivers p)[i := f (px_receivers p ! i)]\<rparr>)"

text \<open>\<open>for(auto &receiver:receivers)\<close>, by index.\<close>

definition for_receivers :: "(nat \<Rightarrow> unit px) \<Rightarrow> unit px" where
  "for_receivers body = bindS (getS (\<lambda>p. length (px_receivers p))) (\<lambda>n. forS [0..<n] body)"

definition set_receivers :: "(receiver_connection list \<Rightarrow> receiver_connection list) \<Rightarrow> unit px" where
  "set_receivers f = modifyS (\<lambda>p. p\<lparr>px_receivers := f (px_receivers p)\<rparr>)"

section \<open>State of a transfer and of a round\<close>

definition reset_transfer_state :: "receiver_connection list \<Rightarrow> receiver_connection list" where
  "reset_transfer_state receivers = map (\<lambda>receiver. receiver\<lparr>
     rv_meta_ready := False, rv_status_received := False, rv_complete_received := False,
     rv_completed := False, rv_ready_for_next_transfer := False, rv_isolated := False,
     rv_abandoned := False, rv_backfill_blocks := [], rv_status := None\<rparr>) receivers"

definition reset_round_state :: "receiver_connection list \<Rightarrow> receiver_connection list" where
  "reset_round_state receivers = map (\<lambda>receiver. receiver\<lparr>
     rv_status_received := False, rv_complete_received := False,
     rv_ready_for_next_transfer := False, rv_status := None\<rparr>) receivers"

definition has_status :: "SectionStatusCode \<Rightarrow> receiver_connection \<Rightarrow> bool" where
  "has_status code receiver = (case rv_status receiver of None \<Rightarrow> False | Some s \<Rightarrow> ss_status s = code)"

text \<open>A receiver that still takes part in the round.\<close>

definition participates :: "receiver_connection \<Rightarrow> bool" where
  "participates receiver \<longleftrightarrow> \<not> rv_completed receiver \<and> \<not> rv_isolated receiver \<and> \<not> rv_abandoned receiver"

definition receiver_reported_sha_mismatch :: "receiver_connection list \<Rightarrow> bool" where
  "receiver_reported_sha_mismatch receivers = list_ex (has_status SS_Failed) receivers"

definition all_receivers_completed :: "receiver_connection list \<Rightarrow> bool" where
  "all_receivers_completed receivers = list_all (\<lambda>r. rv_completed r \<or> rv_abandoned r) receivers"

fun round_responses_complete :: "receiver_connection list \<Rightarrow> bool \<Rightarrow> bool" where
  "round_responses_complete [] final_section = True"
| "round_responses_complete (receiver # receivers) final_section =
     (if rv_completed receiver \<or> rv_isolated receiver \<or> rv_abandoned receiver
      then round_responses_complete receivers final_section
      else if \<not> rv_status_received receiver then False
      else if final_section \<and> has_status SS_Complete receiver \<and> \<not> rv_complete_received receiver then False
      else round_responses_complete receivers final_section)"

section \<open>Frames to receivers\<close>

definition send_receiver_frame :: "nat \<Rightarrow> bytes \<Rightarrow> bool px" where
  "send_receiver_frame i frame =
     bindS (get_rv i rv_control_fd) (\<lambda>fd.
     if fd < 0 then returnS False
     else
       tryS (bindS (send_frame fd frame) (\<lambda>_. returnS True))
         (\<lambda>e. bindS (set_rv i (\<lambda>r. r\<lparr>rv_control_fd := -1\<rparr>)) (\<lambda>_. returnS False)))"

definition send_ignoring :: "nat \<Rightarrow> bytes \<Rightarrow> unit px" where
  "send_ignoring i frame = bindS (send_receiver_frame i frame) (\<lambda>_. returnS ())"

text \<open>\<open>receive_receiver_frame\<close>: \<open>received\<close> is what \<open>receive_control_frame\<close> does on the connection.\<close>

definition receive_receiver_frame :: "nat \<Rightarrow> bytes result \<Rightarrow> bytes option px" where
  "receive_receiver_frame i received =
     bindS (get_rv i rv_control_fd) (\<lambda>fd.
     if fd < 0 then returnS None
     else
       tryS (bindS (liftE received) (\<lambda>f. returnS (Some f)))
         (\<lambda>e. bindS (set_rv i (\<lambda>r. r\<lparr>rv_control_fd := -1\<rparr>)) (\<lambda>_. returnS None)))"

definition abandon_incomplete_receivers :: "receiver_connection list \<Rightarrow> receiver_connection list" where
  "abandon_incomplete_receivers receivers = map (\<lambda>receiver.
     if rv_completed receiver then receiver
     else receiver\<lparr>rv_abandoned := True, rv_control_fd := -1\<rparr>) receivers"

section \<open>Registration\<close>

text \<open>A new connection: its descriptor, the peer's address, and what \<open>receive_control_frame\<close>
  does on it.\<close>

definition accept_receiver_registration :: "int \<Rightarrow> u32 \<Rightarrow> bytes result \<Rightarrow> accepted_receiver result" where
  "accept_receiver_registration accepted peer received =
     bindE received (\<lambda>frame.
     bindE (decode_register frame) (\<lambda>registration.
       if reg_udp_port registration = 0 \<or> reg_peer_udp_port registration = 0
       then throw ''receiver UDP ports must not be zero''
       else if reg_state registration = RS_Idle \<and> reg_current_transfer_id registration \<noteq> 0
       then throw ''IDLE receiver has a current transfer''
       else if reg_state registration \<noteq> RS_Idle \<and> reg_current_transfer_id registration = 0
       then throw ''active receiver has no current transfer''
       else Inr \<lparr>acc_registration = registration, acc_control_fd = accepted, acc_peer = peer,
              acc_receiver_endpoint = receiver_endpoint_key peer (reg_peer_udp_port registration)\<rparr>))"

definition file_meta_frame :: "FileMetaMessage \<Rightarrow> bytes px" where
  "file_meta_frame meta = liftE (encode_file_meta meta)"

definition install_receiver_connection :: "nat \<Rightarrow> accepted_receiver \<Rightarrow> unit px" where
  "install_receiver_connection i accepted =
     bindS (get_rv i id) (\<lambda>old.
     let was_completed = rv_completed old; was_abandoned = rv_abandoned old;
         registration = acc_registration accepted in
     bindS (set_rv i (\<lambda>r. r\<lparr>rv_control_fd := acc_control_fd accepted,
       rv_receiver_endpoint := acc_receiver_endpoint accepted,
       rv_udp_destination := (acc_peer accepted, reg_udp_port registration),
       rv_peer_destination := (acc_peer accepted, reg_peer_udp_port registration),
       rv_recovery_state := reg_state registration,
       rv_recovery_transfer_id := reg_current_transfer_id registration\<rparr>)) (\<lambda>_.
     (case rv_active_meta old of
        None \<Rightarrow> returnS ()
      | Some meta \<Rightarrow>
          if reg_state registration = RS_Completed
             \<and> reg_current_transfer_id registration = fm_transfer_id meta
          then
            bindS (set_rv i (\<lambda>r. r\<lparr>rv_abandoned := False, rv_meta_ready := True,
              rv_status_received := True, rv_complete_received := True, rv_completed := True\<rparr>)) (\<lambda>_.
            send_ignoring i (encode_complete_ack \<lparr>ca_transfer_id = fm_transfer_id meta\<rparr>))
          else if reg_state registration = RS_Idle \<and> was_completed
          then set_rv i (\<lambda>r. r\<lparr>rv_ready_for_next_transfer := True\<rparr>)
          else if was_abandoned
          then
            (if reg_state registration = RS_Idle
             then set_rv i (\<lambda>r. r\<lparr>rv_ready_for_next_transfer := True\<rparr>)
             else send_ignoring i (encode_transfer_result
               \<lparr>tr_transfer_id = fm_transfer_id meta, tr_result = TR_Failed\<rparr>))
          else
            bindS (if reg_state registration = RS_Completed
                   then send_ignoring i (encode_complete_ack
                     \<lparr>ca_transfer_id = reg_current_transfer_id registration\<rparr>)
                   else if reg_state registration = RS_Receiving
                     \<and> reg_current_transfer_id registration \<noteq> fm_transfer_id meta
                   then send_ignoring i (encode_transfer_result
                     \<lparr>tr_transfer_id = reg_current_transfer_id registration, tr_result = TR_Failed\<rparr>)
                   else returnS ()) (\<lambda>_.
            bindS (set_rv i (\<lambda>r. r\<lparr>rv_meta_ready := False, rv_status_received := False,
              rv_complete_received := False, rv_completed := False,
              rv_ready_for_next_transfer := False, rv_isolated := False, rv_status := None,
              rv_recovery_state := RS_Receiving, rv_recovery_transfer_id := fm_transfer_id meta\<rparr>)) (\<lambda>_.
            bindS (file_meta_frame meta) (send_ignoring i))))))"

definition find_endpoint :: "string \<Rightarrow> receiver_connection list \<Rightarrow> nat option" where
  "find_endpoint key receivers =
     List.find (\<lambda>i. rv_receiver_endpoint (receivers ! i) = key) [0..<length receivers]"

text \<open>One accepted connection while the fixed set of receivers is still being collected, and
  afterwards; a bad registration is dropped.\<close>

definition accept_initial :: "accepted_receiver result \<Rightarrow> unit px" where
  "accept_initial attempt =
     tryS (bindS (liftE attempt) (\<lambda>accepted.
       bindS (getS px_receivers) (\<lambda>receivers.
       (case find_endpoint (acc_receiver_endpoint accepted) receivers of
          Some i \<Rightarrow> install_receiver_connection i accepted
        | None \<Rightarrow>
            bindS (set_receivers (\<lambda>rs. rs @ [new_receiver\<lparr>
              rv_receiver_endpoint := acc_receiver_endpoint accepted\<rparr>])) (\<lambda>_.
            install_receiver_connection (length receivers) accepted)))))
       (\<lambda>e. returnS ())"

text \<open>\<open>accept_receivers\<close>: the attempts until the expected number has registered.\<close>

fun accept_receivers :: "nat \<Rightarrow> accepted_receiver result list \<Rightarrow> unit px" where
  "accept_receivers expected [] = returnS ()"
| "accept_receivers expected (attempt # attempts) =
     bindS (getS (\<lambda>p. length (px_receivers p))) (\<lambda>n.
     if n \<ge> expected then returnS ()
     else bindS (accept_initial attempt) (\<lambda>_. accept_receivers expected attempts))"

definition accept_receiver_reconnect :: "accepted_receiver result \<Rightarrow> unit px" where
  "accept_receiver_reconnect attempt =
     tryS (bindS (liftE attempt) (\<lambda>accepted.
       bindS (getS px_receivers) (\<lambda>receivers.
       (case find_endpoint (acc_receiver_endpoint accepted) receivers of
          None \<Rightarrow> returnS ()
        | Some i \<Rightarrow> install_receiver_connection i accepted))))
       (\<lambda>e. returnS ())"

text \<open>The loop over the connections pending at the listener: \<open>poll\<close> before each, and once more to
  find that there is none left.\<close>

fun accept_pending_batch :: "accepted_receiver result list \<Rightarrow> unit px" where
  "accept_pending_batch [] = syscall_retry ''poll receiver listener''"
| "accept_pending_batch (attempt # attempts) =
     bindS (syscall_retry ''poll receiver listener'') (\<lambda>_.
     bindS (accept_receiver_reconnect attempt) (\<lambda>_. accept_pending_batch attempts))"

definition accept_pending_receiver_reconnects :: "unit px" where
  "accept_pending_receiver_reconnects =
     bindS (getS px_pending) (\<lambda>pending.
     bindS (modifyS (\<lambda>p. p\<lparr>px_pending := tl (px_pending p)\<rparr>)) (\<lambda>_.
     accept_pending_batch (case pending of [] \<Rightarrow> [] | batch # _ \<Rightarrow> batch)))"

section \<open>Missing-block bitmaps\<close>

definition validate_missing_bitmap :: "SectionStatusMessage \<Rightarrow> u32 \<Rightarrow> bool result" where
  "validate_missing_bitmap status section_blocks =
     (let expected_size = bitmap_size_for_blocks section_blocks; bitmap = ss_missing_bitmap status in
      if ss_status status = SS_Missing then
        (if length bitmap \<noteq> expected_size \<or> ss_missing_count status = 0 then Inr False
         else
           bindE (foldE (\<lambda>local_block counted.
               bindE (bitmap_test bitmap local_block) (\<lambda>b. Inr (if b then counted + 1 else counted)))
             (local_blocks section_blocks) (0 :: u32)) (\<lambda>counted.
           if section_blocks mod 8 \<noteq> 0 \<and> bitmap \<noteq> []
              \<and> last bitmap AND ucast (push_bit (unat (section_blocks mod 8)) (0xff :: u32)) \<noteq> 0
           then Inr False
           else Inr (counted = ss_missing_count status)))
      else Inr (ss_missing_count status = 0 \<and> bitmap = []))"

section \<open>Reports\<close>

definition handle_section_status :: "nat \<Rightarrow> SectionStatusMessage \<Rightarrow> u64 \<Rightarrow> u32 \<Rightarrow> u32 \<Rightarrow> u32 \<Rightarrow> unit px" where
  "handle_section_status i status transfer_id section_id round_id section_blocks =
     (if ss_transfer_id status \<noteq> transfer_id \<or> ss_section_id status \<noteq> section_id
         \<or> ss_round_id status \<noteq> round_id
      then returnS ()
      else
        bindS (liftE (validate_missing_bitmap status section_blocks)) (\<lambda>valid.
        if \<not> valid then returnS ()
        else set_rv i (\<lambda>r. r\<lparr>rv_status := Some status, rv_status_received := True\<rparr>)))"

definition handle_receiver_complete :: "nat \<Rightarrow> ReceiverCompleteMessage \<Rightarrow> u64 \<Rightarrow> u64 \<Rightarrow> bytes \<Rightarrow> unit px" where
  "handle_receiver_complete i complete transfer_id file_size digest =
     bindS (get_rv i id) (\<lambda>receiver.
     if \<not> rv_status_received receiver \<or> \<not> has_status SS_Complete receiver
        \<or> rc_transfer_id complete \<noteq> transfer_id \<or> rc_file_size complete \<noteq> file_size
        \<or> rc_sha256 complete \<noteq> digest
     then returnS ()
     else
       bindS (set_rv i (\<lambda>r. r\<lparr>rv_complete_received := True, rv_completed := True,
         rv_recovery_state := RS_Completed, rv_recovery_transfer_id := transfer_id\<rparr>)) (\<lambda>_.
       send_ignoring i (encode_complete_ack \<lparr>ca_transfer_id = transfer_id\<rparr>)))"

definition handle_control_frame ::
  "nat \<Rightarrow> bytes \<Rightarrow> u64 \<Rightarrow> u32 \<Rightarrow> u32 \<Rightarrow> u64 \<Rightarrow> u32 \<Rightarrow> bytes \<Rightarrow> unit px" where
  "handle_control_frame i frame transfer_id section_id round_id file_size section_blocks digest =
     bindS (liftE (peek_control_type frame)) (\<lambda>ty.
     if ty = CT_SectionStatus then
       bindS (liftE (decode_section_status frame)) (\<lambda>status.
       handle_section_status i status transfer_id section_id round_id section_blocks)
     else if ty = CT_ReceiverComplete then
       bindS (liftE (decode_receiver_complete frame)) (\<lambda>complete.
       handle_receiver_complete i complete transfer_id file_size digest)
     else returnS ())"

section \<open>Isolation and aggregation\<close>

definition missing_locals :: "bytes \<Rightarrow> u32 list \<Rightarrow> u32 list result" where
  "missing_locals bitmap locals =
     foldE (\<lambda>local_block acc.
       bindE (bitmap_test bitmap local_block) (\<lambda>b. Inr (if b then acc @ [local_block] else acc))) locals []"

definition isolate_receiver :: "u32 \<Rightarrow> u32 \<Rightarrow> u32 \<Rightarrow> u32 \<Rightarrow> receiver_connection \<Rightarrow> receiver_connection result" where
  "isolate_receiver first_block section_blocks round_id backfill_after_rounds receiver =
     (case rv_status receiver of
        None \<Rightarrow> Inr receiver
      | Some status \<Rightarrow>
          if rv_completed receiver \<or> rv_isolated receiver \<or> rv_abandoned receiver
             \<or> ss_status status \<noteq> SS_Missing \<or> round_id < backfill_after_rounds
          then Inr receiver
          else
            bindE (missing_locals (ss_missing_bitmap status) (local_blocks section_blocks)) (\<lambda>locals.
            Inr (receiver\<lparr>rv_backfill_blocks :=
                remdups (sort (rv_backfill_blocks receiver @ map (\<lambda>l. first_block + l) locals)),
              rv_isolated := True\<rparr>)))"

fun mapE :: "('a \<Rightarrow> 'b result) \<Rightarrow> 'a list \<Rightarrow> 'b list result" where
  "mapE f [] = Inr []"
| "mapE f (x # xs) = bindE (f x) (\<lambda>y. bindE (mapE f xs) (\<lambda>ys. Inr (y # ys)))"

definition isolate_slow_receivers ::
  "u32 \<Rightarrow> u32 \<Rightarrow> u32 \<Rightarrow> u32 \<Rightarrow> u32 \<Rightarrow> receiver_connection list \<Rightarrow> receiver_connection list result" where
  "isolate_slow_receivers total_blocks section_id round_id section_block_limit backfill_after_rounds receivers =
     bindE (section_first_block section_id section_block_limit) (\<lambda>first_block.
     bindE (section_block_count total_blocks section_id section_block_limit) (\<lambda>section_blocks.
     mapE (isolate_receiver first_block section_blocks round_id backfill_after_rounds) receivers))"

text \<open>For each block of the Section the indexes of the receivers that miss it.\<close>

definition missing_in :: "receiver_connection \<Rightarrow> u32 \<Rightarrow> bool result" where
  "missing_in receiver local_block =
     (case rv_status receiver of
        None \<Rightarrow> Inr False
      | Some status \<Rightarrow>
          if rv_completed receiver \<or> rv_isolated receiver \<or> rv_abandoned receiver
             \<or> ss_status status \<noteq> SS_Missing
          then Inr False
          else bitmap_test (ss_missing_bitmap status) local_block)"

definition aggregate_missing_blocks ::
  "receiver_connection list \<Rightarrow> u32 \<Rightarrow> u32 \<Rightarrow> u32 \<Rightarrow> nat list list result" where
  "aggregate_missing_blocks receivers total_blocks section_id section_block_limit =
     bindE (section_block_count total_blocks section_id section_block_limit) (\<lambda>section_blocks.
     foldE (\<lambda>receiver_index missing_by_block.
         foldE (\<lambda>local_block missing_by_block.
             bindE (missing_in (receivers ! receiver_index) local_block) (\<lambda>b.
             Inr (if b then missing_by_block[unat local_block := missing_by_block ! unat local_block @ [receiver_index]]
                  else missing_by_block)))
           (local_blocks section_blocks) missing_by_block)
       [0..<length receivers] (replicate (unat section_blocks) []))"

end
