(* ===== verification/Proxy_Rounds.thy ===== *)
theory Proxy_Rounds
  imports Proxy
begin

text \<open>
  A round of the proxy (\<open>src/sender.cpp\<close>): waiting for receivers, collecting the reports of a
  round, SECTION_END, the two kinds of repair (from the proxy, and between receivers), and the
  distribution of one Section.

  \<open>delivery\<close> collects the arguments these functions pass on unchanged. The descriptor
  \<open>input_fd\<close> is the file opened under \<open>dl_file_path\<close>. Pauses between packets and console output
  are left out.
\<close>

datatype RepairMode = RM_Baseline | RM_Peer

record delivery =
  dl_multicast_destination :: endpoint
  dl_file_path :: string
  dl_file_size :: u64
  dl_transfer_id :: u64
  dl_total_blocks :: u32
  dl_digest :: bytes
  dl_max_repair_rounds :: int
  dl_section_block_limit :: u32
  dl_repair_mode :: RepairMode

definition kReportTimeout :: nat where "kReportTimeout = 30 * 1000000000"
definition kMulticastRepairThreshold :: nat where "kMulticastRepairThreshold = 2"
definition kMinPeerBlocks :: nat where "kMinPeerBlocks = 16"
definition kMaxPeerTargetsPerSource :: nat where "kMaxPeerTargetsPerSource = 2"

section \<open>Waiting for receivers\<close>

definition watched_indexes :: "(receiver_connection \<Rightarrow> bool) \<Rightarrow> receiver_connection list \<Rightarrow> nat list" where
  "watched_indexes should_watch receivers =
     filter (\<lambda>i. should_watch (receivers ! i) \<and> \<not> rv_control_fd (receivers ! i) < 0) [0..<length receivers]"

definition next_wake :: "nat \<Rightarrow> epoll_wake px" where
  "next_wake timeout_ms p = (case px_wakes p of
      [] \<Rightarrow> (Inr \<lparr>wk_elapsed = timeout_ms * 1000000, wk_reports = [], wk_listener = None\<rparr>,
             p\<lparr>h_clock := h_clock p + timeout_ms * 1000000\<rparr>)
    | wake # wakes \<Rightarrow> (Inr wake, p\<lparr>px_wakes := wakes, h_clock := h_clock p + wk_elapsed wake\<rparr>))"

text \<open>Only registered connections are reported; a closed one is dropped at once.\<close>

definition close_hung_up :: "nat list \<Rightarrow> epoll_report \<Rightarrow> unit px" where
  "close_hung_up watched report = (case report of
      Readable i received \<Rightarrow> returnS ()
    | Hung_up i \<Rightarrow> whenS (i \<in> set watched) (set_rv i (\<lambda>r. r\<lparr>rv_control_fd := -1\<rparr>)))"

fun readable_in :: "nat list \<Rightarrow> epoll_report list \<Rightarrow> (nat \<times> bytes result) list" where
  "readable_in watched [] = []"
| "readable_in watched (Readable i received # reports) =
     (if i \<in> set watched then (i, received) # readable_in watched reports else readable_in watched reports)"
| "readable_in watched (Hung_up i # reports) = readable_in watched reports"

text \<open>The readable connections, each with what the next \<open>receive_control_frame\<close> on it does.\<close>

definition wait_for_receiver_events ::
  "(receiver_connection \<Rightarrow> bool) \<Rightarrow> nat \<Rightarrow> string \<Rightarrow> (nat \<times> bytes result) list px" where
  "wait_for_receiver_events should_watch timeout_ms operation =
     bindS (syscall (''epoll_create1 '' @ operation)) (\<lambda>_.
     bindS (getS (\<lambda>p. watched_indexes should_watch (px_receivers p))) (\<lambda>watched.
     bindS (forS watched (\<lambda>_. syscall (''epoll_ctl add '' @ operation))) (\<lambda>_.
     bindS (syscall (''epoll_ctl add receiver listener '' @ operation)) (\<lambda>_.
     bindS (syscall_retry (''epoll_wait '' @ operation)) (\<lambda>_.
     bindS (next_wake timeout_ms) (\<lambda>wake.
     bindS (forS (wk_reports wake) (close_hung_up watched)) (\<lambda>_.
     bindS (case wk_listener wake of None \<Rightarrow> returnS () | Some attempt \<Rightarrow> accept_receiver_reconnect attempt) (\<lambda>_.
     returnS (readable_in watched (wk_reports wake))))))))))"

text \<open>The loop the proxy waits in, three times with its own test, watch list and handler: until the
  test holds (true) or the deadline has passed (false). \<open>n\<close> is the number of wake-ups still to
  come; after the last one nothing happens until the deadline.\<close>

definition remaining_ms :: "nat \<Rightarrow> nat \<Rightarrow> nat" where
  "remaining_ms deadline now = max 1 ((deadline - now) div 1000000)"

fun wait_until ::
  "nat \<Rightarrow> nat \<Rightarrow> (receiver_connection list \<Rightarrow> bool) \<Rightarrow> (receiver_connection \<Rightarrow> bool) \<Rightarrow> string
     \<Rightarrow> (nat \<Rightarrow> bytes result \<Rightarrow> unit px) \<Rightarrow> bool px" where
  "wait_until n deadline finished should_watch operation handle =
     bindS (getS (\<lambda>p. finished (px_receivers p))) (\<lambda>ok.
     if ok then returnS True
     else
       bindS (getS h_clock) (\<lambda>now.
       if now \<ge> deadline then returnS False
       else
         bindS (wait_for_receiver_events should_watch (remaining_ms deadline now) operation) (\<lambda>ready.
         bindS (forS ready (\<lambda>(i, received). handle i received)) (\<lambda>_.
         (case n of
            0 \<Rightarrow> bindS (modifyS (\<lambda>p. p\<lparr>h_clock := max (h_clock p) deadline\<rparr>)) (\<lambda>_. returnS False)
          | Suc m \<Rightarrow> wait_until m deadline finished should_watch operation handle)))))"

declare wait_until.simps [simp del]

definition wait_for_all ::
  "nat \<Rightarrow> (receiver_connection list \<Rightarrow> bool) \<Rightarrow> (receiver_connection \<Rightarrow> bool) \<Rightarrow> string
     \<Rightarrow> (nat \<Rightarrow> bytes result \<Rightarrow> unit px) \<Rightarrow> bool px" where
  "wait_for_all timeout finished should_watch operation handle =
     bindS (getS id) (\<lambda>p.
     wait_until (length (px_wakes p)) (h_clock p + timeout) finished should_watch operation handle)"

section \<open>The reports of a round\<close>

definition handle_report :: "delivery \<Rightarrow> u32 \<Rightarrow> u32 \<Rightarrow> u32 \<Rightarrow> nat \<Rightarrow> bytes result \<Rightarrow> unit px" where
  "handle_report d section_id round_id section_blocks i received =
     bindS (receive_receiver_frame i received) (\<lambda>frame.
     (case frame of
        None \<Rightarrow> returnS ()
      | Some f \<Rightarrow> handle_control_frame i f (dl_transfer_id d) section_id round_id (dl_file_size d)
          section_blocks (dl_digest d)))"

definition collect_round_reports :: "delivery \<Rightarrow> u32 \<Rightarrow> u32 \<Rightarrow> unit px" where
  "collect_round_reports d section_id round_id =
     bindS (set_receivers reset_round_state) (\<lambda>_.
     bindS (liftE (section_count_for_blocks (dl_total_blocks d) (dl_section_block_limit d))) (\<lambda>section_count.
     let final_section = (section_id + 1 = section_count) in
     bindS (liftE (section_block_count (dl_total_blocks d) section_id (dl_section_block_limit d)))
       (\<lambda>section_blocks.
     bindS (wait_for_all kReportTimeout (\<lambda>rs. round_responses_complete rs final_section) participates
              ''receiver reports'' (handle_report d section_id round_id section_blocks)) (\<lambda>_.
     returnS ()))))"

section \<open>Sending\<close>

definition send_udp_packet :: "endpoint \<Rightarrow> bytes \<Rightarrow> unit px" where
  "send_udp_packet destination packet p = (case h_events p of
      Fails e # evs \<Rightarrow> (system_error ''sendto'' e, p\<lparr>h_events := evs\<rparr>)
    | Upto k # evs \<Rightarrow>
        (if k < length packet then (throw ''sendto sent a partial datagram'', p\<lparr>h_events := evs\<rparr>)
         else (Inr (), p\<lparr>h_events := evs, h_packets := h_packets p @ [(destination, packet)]\<rparr>))
    | [] \<Rightarrow> (Inr (), p\<lparr>h_packets := h_packets p @ [(destination, packet)]\<rparr>))"

text \<open>A control frame to every receiver that takes part in the round.\<close>

definition send_to_participants :: "bytes \<Rightarrow> unit px" where
  "send_to_participants frame = for_receivers (\<lambda>i.
     bindS (get_rv i participates) (\<lambda>b. whenS b (send_ignoring i frame)))"

definition send_end_round :: "delivery \<Rightarrow> u32 \<Rightarrow> u32 \<Rightarrow> unit px" where
  "send_end_round d section_id round_id =
     send_to_participants (encode_section_end \<lparr>se_transfer_id = dl_transfer_id d,
       se_section_id = section_id, se_round_id = round_id, se_total_blocks = dl_total_blocks d\<rparr>)"

definition send_repair_begin :: "delivery \<Rightarrow> u32 \<Rightarrow> u32 \<Rightarrow> unit px" where
  "send_repair_begin d section_id round_id =
     send_to_participants (encode_repair_begin \<lparr>rb_transfer_id = dl_transfer_id d,
       rb_section_id = section_id, rb_round_id = round_id\<rparr>)"

text \<open>\<open>read_block\<close>, the checksum and \<open>encode_data\<close> for one block.\<close>

definition data_packet :: "delivery \<Rightarrow> u32 \<Rightarrow> u32 \<Rightarrow> bytes px" where
  "data_packet d section_id block_id =
     bindS (read_block_of (dl_file_path d) (dl_file_path d) (dl_file_size d) block_id) (\<lambda>(payload, offset).
     liftE (encode_data (dl_transfer_id d) section_id block_id offset payload
       (of_nat (length payload)) (crc32 payload)))"

section \<open>Repair from the proxy\<close>

definition repair_block :: "delivery \<Rightarrow> u32 \<Rightarrow> u32 \<Rightarrow> nat list list \<Rightarrow> u32 \<Rightarrow> unit px" where
  "repair_block d section_id first_block missing_by_block local_block =
     (let targets = missing_by_block ! unat local_block in
      if targets = [] then returnS ()
      else
        bindS (data_packet d section_id (first_block + local_block)) (\<lambda>packet.
        if length targets \<ge> kMulticastRepairThreshold
        then send_udp_packet (dl_multicast_destination d) packet
        else forS targets (\<lambda>i.
          bindS (get_rv i rv_peer_destination) (\<lambda>destination. send_udp_packet destination packet))))"

definition aggregate :: "delivery \<Rightarrow> u32 \<Rightarrow> nat list list px" where
  "aggregate d section_id =
     bindS (getS px_receivers) (\<lambda>receivers.
     liftE (aggregate_missing_blocks receivers (dl_total_blocks d) section_id (dl_section_block_limit d)))"

definition send_repair_round :: "delivery \<Rightarrow> u32 \<Rightarrow> u32 \<Rightarrow> unit px" where
  "send_repair_round d section_id round_id =
     bindS (send_repair_begin d section_id round_id) (\<lambda>_.
     bindS (aggregate d section_id) (\<lambda>missing_by_block.
     bindS (liftE (section_first_block section_id (dl_section_block_limit d))) (\<lambda>first_block.
     bindS (liftE (section_block_count (dl_total_blocks d) section_id (dl_section_block_limit d)))
       (\<lambda>section_blocks.
     bindS (forS (local_blocks section_blocks) (repair_block d section_id first_block missing_by_block)) (\<lambda>_.
     send_end_round d section_id round_id)))))"

end
