(* ===== verification/Proxy_Repair.thy ===== *)
theory Proxy_Repair
  imports Proxy_Rounds
begin

text \<open>
  Repair between receivers (\<open>re_to_re\<close> of \<open>src/sender.cpp\<close>) and the distribution of a Section.

  \<open>rp_peer s t\<close> is \<open>peer_plan[s][t]\<close>, the blocks receiver \<open>s\<close> is to send to \<open>t\<close>; \<open>rp_fallback t\<close>
  the blocks the proxy sends to \<open>t\<close> itself; \<open>rp_target_count s\<close> the number of targets \<open>s\<close> serves.
  The vectors are indexed by receivers, so they are functions here, empty at first.
\<close>

section \<open>Who sends what\<close>

record repair_plan =
  rp_peer :: "nat \<Rightarrow> nat \<Rightarrow> u32 list"
  rp_fallback :: "nat \<Rightarrow> u32 list"
  rp_target_count :: "nat \<Rightarrow> nat"

definition empty_plan :: repair_plan where
  "empty_plan = \<lparr>rp_peer = \<lambda>_ _. [], rp_fallback = \<lambda>_. [], rp_target_count = \<lambda>_. 0\<rparr>"

definition source_has_block :: "delivery \<Rightarrow> u32 \<Rightarrow> u32 \<Rightarrow> receiver_connection \<Rightarrow> u32 \<Rightarrow> bool result" where
  "source_has_block d section_id round_id source local_block =
     (if rv_completed source \<or> rv_isolated source \<or> rv_abandoned source \<or> rv_control_fd source < 0
         \<or> \<not> rv_status_received source
      then Inr False
      else case rv_status source of
          None \<Rightarrow> Inr False
        | Some status \<Rightarrow>
            if ss_transfer_id status \<noteq> dl_transfer_id d \<or> ss_section_id status \<noteq> section_id
               \<or> ss_round_id status + 1 \<noteq> round_id
            then Inr False
            else if ss_status status = SS_Complete then Inr True
            else if ss_status status \<noteq> SS_Missing then Inr False
            else bindE (bitmap_test (ss_missing_bitmap status) local_block) (\<lambda>b. Inr (\<not> b)))"

text \<open>The first element that passes a test which may throw.\<close>

fun findE :: "('a \<Rightarrow> bool result) \<Rightarrow> 'a list \<Rightarrow> 'a option result" where
  "findE test [] = Inr None"
| "findE test (x # xs) = bindE (test x) (\<lambda>b. if b then Inr (Some x) else findE test xs)"

definition add_peer_block :: "nat \<Rightarrow> nat \<Rightarrow> u32 \<Rightarrow> repair_plan \<Rightarrow> repair_plan" where
  "add_peer_block s t block_id plan =
     plan\<lparr>rp_peer := (rp_peer plan)(s := (rp_peer plan s)(t := rp_peer plan s t @ [block_id]))\<rparr>"

definition add_fallback_blocks :: "nat \<Rightarrow> u32 list \<Rightarrow> repair_plan \<Rightarrow> repair_plan" where
  "add_fallback_blocks t block_ids plan =
     plan\<lparr>rp_fallback := (rp_fallback plan)(t := rp_fallback plan t @ block_ids)\<rparr>"

definition assign_target :: "(nat \<Rightarrow> bool result) \<Rightarrow> nat \<Rightarrow> u32 \<Rightarrow> nat \<Rightarrow> repair_plan \<Rightarrow> repair_plan result" where
  "assign_target has_block n block_id t plan =
     bindE (findE (\<lambda>i. if i = t \<or> rp_peer plan i t = [] then Inr False else has_block i) [0..<n]) (\<lambda>old_source.
     (case old_source of
        Some s \<Rightarrow> Inr (add_peer_block s t block_id plan)
      | None \<Rightarrow>
          bindE (findE (\<lambda>i. if i = t \<or> rp_target_count plan i \<ge> kMaxPeerTargetsPerSource
                             then Inr False else has_block i) [0..<n]) (\<lambda>new_source.
          (case new_source of
             Some s \<Rightarrow> Inr (add_peer_block s t block_id
               (plan\<lparr>rp_target_count := (rp_target_count plan)(s := rp_target_count plan s + 1)\<rparr>))
           | None \<Rightarrow> Inr (add_fallback_blocks t [block_id] plan)))))"

text \<open>One block: multicast when several receivers miss it, otherwise planned.\<close>

definition plan_block :: "delivery \<Rightarrow> u32 \<Rightarrow> u32 \<Rightarrow> u32 \<Rightarrow> nat list list \<Rightarrow> u32 \<Rightarrow> repair_plan \<Rightarrow> repair_plan px" where
  "plan_block d section_id round_id first_block missing_by_block local_block plan =
     (let targets = missing_by_block ! unat local_block; block_id = first_block + local_block in
      if targets = [] then returnS plan
      else if length targets \<ge> kMulticastRepairThreshold
      then
        bindS (data_packet d section_id block_id) (\<lambda>packet.
        bindS (send_udp_packet (dl_multicast_destination d) packet) (\<lambda>_. returnS plan))
      else
        bindS (getS px_receivers) (\<lambda>receivers.
        liftE (foldE (assign_target (\<lambda>i. source_has_block d section_id round_id (receivers ! i) local_block)
          (length receivers) block_id) targets plan)))"

section \<open>Tasks\<close>

text \<open>The loop over \<open>begin\<close> in steps of \<open>kMaxPeerRepairBlocks\<close>.\<close>

function task_chunks :: "u32 list \<Rightarrow> u32 list list" where
  "task_chunks blocks = (if blocks = [] then []
     else take kMaxPeerRepairBlocks blocks # task_chunks (drop kMaxPeerRepairBlocks blocks))"
  by auto
termination
  by (relation "measure length") (auto simp: kMaxPeerRepairBlocks_def)

declare task_chunks.simps [simp del]

definition peer_task :: "delivery \<Rightarrow> u32 \<Rightarrow> u32 \<Rightarrow> endpoint \<Rightarrow> u64 \<Rightarrow> u32 list \<Rightarrow> PeerRepairTaskMessage" where
  "peer_task d section_id round_id target task_id block_ids =
     \<lparr>pt_transfer_id = dl_transfer_id d, pt_section_id = section_id, pt_round_id = round_id,
      pt_task_id = task_id, pt_target_ipv4 = fst target, pt_target_port = snd target,
      pt_block_ids = block_ids\<rparr>"

definition send_task :: "delivery \<Rightarrow> u32 \<Rightarrow> u32 \<Rightarrow> nat \<Rightarrow> nat \<Rightarrow> u32 list \<Rightarrow> repair_plan \<times> u64 \<Rightarrow> (repair_plan \<times> u64) px" where
  "send_task d section_id round_id s t block_ids = (\<lambda>(plan, task_sequence).
     bindS (get_rv t rv_peer_destination) (\<lambda>target.
     bindS (liftE (encode_peer_repair_task (peer_task d section_id round_id target (task_sequence + 1) block_ids)))
       (\<lambda>frame.
     bindS (send_receiver_frame s frame) (\<lambda>sent.
     returnS (if sent then plan else add_fallback_blocks t block_ids plan, task_sequence + 1)))))"

definition send_pair :: "delivery \<Rightarrow> u32 \<Rightarrow> u32 \<Rightarrow> nat \<times> nat \<Rightarrow> repair_plan \<times> u64 \<Rightarrow> (repair_plan \<times> u64) px" where
  "send_pair d section_id round_id = (\<lambda>(s, t) (plan, task_sequence).
     let blocks = rp_peer plan s t in
     if blocks = [] then returnS (plan, task_sequence)
     else if length blocks < kMinPeerBlocks then returnS (add_fallback_blocks t blocks plan, task_sequence)
     else foldS (send_task d section_id round_id s t) (task_chunks blocks) (plan, task_sequence))"

definition index_pairs :: "nat \<Rightarrow> (nat \<times> nat) list" where
  "index_pairs n = concat (map (\<lambda>s. map (\<lambda>t. (s, t)) [0..<n]) [0..<n])"

definition send_fallback :: "delivery \<Rightarrow> u32 \<Rightarrow> repair_plan \<Rightarrow> nat \<Rightarrow> unit px" where
  "send_fallback d section_id plan t =
     forS (rp_fallback plan t) (\<lambda>block_id.
       bindS (data_packet d section_id block_id) (\<lambda>packet.
       bindS (get_rv t rv_peer_destination) (\<lambda>destination. send_udp_packet destination packet)))"

definition re_to_re :: "delivery \<Rightarrow> u32 \<Rightarrow> u32 \<Rightarrow> unit px" where
  "re_to_re d section_id round_id =
     bindS (send_repair_begin d section_id round_id) (\<lambda>_.
     bindS (aggregate d section_id) (\<lambda>missing_by_block.
     bindS (liftE (section_first_block section_id (dl_section_block_limit d))) (\<lambda>first_block.
     bindS (liftE (section_block_count (dl_total_blocks d) section_id (dl_section_block_limit d)))
       (\<lambda>section_blocks.
     bindS (getS (\<lambda>p. length (px_receivers p))) (\<lambda>n.
     bindS (foldS (plan_block d section_id round_id first_block missing_by_block)
              (local_blocks section_blocks) empty_plan) (\<lambda>plan.
     bindS (foldS (send_pair d section_id round_id) (index_pairs n) (plan, 0)) (\<lambda>(plan, task_sequence).
     bindS (forS [0..<n] (send_fallback d section_id plan)) (\<lambda>_.
     send_end_round d section_id round_id))))))))"

section \<open>Distribution of a Section\<close>

definition section_done :: "receiver_connection list \<Rightarrow> bool" where
  "section_done receivers = list_all (\<lambda>r. rv_completed r \<or> rv_isolated r \<or> rv_abandoned r
     \<or> has_status SS_Complete r) receivers"

text \<open>The first transmission of a block, with the fault injection of the tests.\<close>

definition send_initial_block :: "delivery \<Rightarrow> u32 \<Rightarrow> u32 list \<Rightarrow> u32 list \<Rightarrow> u32 \<Rightarrow> u32 \<Rightarrow> unit px" where
  "send_initial_block d section_id duplicate_blocks corrupt_blocks first_block local_block =
     (let block_id = first_block + local_block in
      bindS (data_packet d section_id block_id) (\<lambda>packet.
      bindS (if block_id \<in> set corrupt_blocks \<and> packet \<noteq> []
             then send_udp_packet (dl_multicast_destination d) (butlast packet @ [last packet XOR 0xff])
             else send_udp_packet (dl_multicast_destination d) packet) (\<lambda>_.
      whenS (block_id \<in> set duplicate_blocks) (send_udp_packet (dl_multicast_destination d) packet))))"

definition isolate :: "delivery \<Rightarrow> u32 \<Rightarrow> u32 \<Rightarrow> u32 \<Rightarrow> unit px" where
  "isolate d section_id round_id backfill_after_rounds =
     bindS (getS px_receivers) (\<lambda>receivers.
     bindS (liftE (isolate_slow_receivers (dl_total_blocks d) section_id round_id (dl_section_block_limit d)
       backfill_after_rounds receivers)) (\<lambda>receivers'.
     set_receivers (\<lambda>_. receivers')))"

text \<open>The repair rounds \<open>ks\<close>: the result when the function returns from inside the loop.\<close>

fun repair_rounds :: "delivery \<Rightarrow> u32 \<Rightarrow> u32 \<Rightarrow> nat list \<Rightarrow> DeliveryResult option px" where
  "repair_rounds d section_id backfill_after_rounds [] = returnS None"
| "repair_rounds d section_id backfill_after_rounds (k # ks) =
     bindS (getS px_receivers) (\<lambda>receivers.
     if all_receivers_completed receivers then returnS None
     else if section_done receivers then returnS (Some DR_Success)
     else
       bindS (if dl_repair_mode d = RM_Baseline then send_repair_round d section_id (of_nat k)
              else re_to_re d section_id (of_nat k)) (\<lambda>_.
       bindS (collect_round_reports d section_id (of_nat k)) (\<lambda>_.
       bindS (getS px_receivers) (\<lambda>receivers.
       if receiver_reported_sha_mismatch receivers then returnS (Some DR_Sha256Mismatch)
       else
         bindS (isolate d section_id (of_nat k) backfill_after_rounds) (\<lambda>_.
         repair_rounds d section_id backfill_after_rounds ks)))))"

definition distribute_section :: "delivery \<Rightarrow> u32 \<Rightarrow> DeliveryResult px" where
  "distribute_section d section_id =
     bindS (liftE (section_first_block section_id (dl_section_block_limit d))) (\<lambda>first_block.
     bindS (liftE (section_block_count (dl_total_blocks d) section_id (dl_section_block_limit d)))
       (\<lambda>section_blocks.
     bindS (getS h_getenv) (\<lambda>getenv.
     bindS (liftE (backfill_rounds getenv (dl_max_repair_rounds d))) (\<lambda>backfill_after_rounds.
     bindS (liftE (parse_block_set_env getenv ''SRCAST_DUPLICATE_DATA_BLOCKS'')) (\<lambda>duplicate_blocks.
     bindS (liftE (parse_block_set_env getenv ''SRCAST_CORRUPT_DATA_BLOCKS'')) (\<lambda>corrupt_blocks.
     let locals = (if env_flag_enabled getenv ''SRCAST_REVERSE_INITIAL_DATA''
           then rev (local_blocks section_blocks) else local_blocks section_blocks) in
     bindS (forS locals (send_initial_block d section_id duplicate_blocks corrupt_blocks first_block)) (\<lambda>_.
     bindS (send_end_round d section_id 0) (\<lambda>_.
     bindS (collect_round_reports d section_id 0) (\<lambda>_.
     bindS (getS px_receivers) (\<lambda>receivers.
     if receiver_reported_sha_mismatch receivers then returnS DR_Sha256Mismatch
     else
       bindS (isolate d section_id 0 backfill_after_rounds) (\<lambda>_.
       bindS (repair_rounds d section_id backfill_after_rounds
                [1..<Suc (nat (dl_max_repair_rounds d))]) (\<lambda>early.
       (case early of
          Some result \<Rightarrow> returnS result
        | None \<Rightarrow>
            bindS (getS px_receivers) (\<lambda>receivers.
            returnS (if section_done receivers then DR_Success else DR_Failed)))))))))))))))"

end
