(* ===== verification/Proxy_Transfer.thy ===== *)
theory Proxy_Transfer
  imports Proxy_Repair
begin

text \<open>
  A file's way from the proxy to its receivers (\<open>src/sender.cpp\<close>): announcing the transfer,
  waiting for META_READY and RECEIVER_READY, the Sections, TCP backfill of isolated receivers,
  the retries after a digest mismatch, and the end of the session.

  Backfill runs one task per isolated receiver in a thread pool. The tasks work on different
  receivers and connections; they are run one after the other here, in the order they are added,
  and the exception the caller sees is the first one in that order, as with \<open>task.get()\<close>.
\<close>

definition kMetaReadyTimeout :: nat where "kMetaReadyTimeout = 30 * 1000000000"
definition kReadyTimeout :: nat where "kReadyTimeout = 10 * 1000000000"
definition kBackfillTimeout :: nat where "kBackfillTimeout = 30 * 1000000000"
definition kMaxTransferRetries :: nat where "kMaxTransferRetries = 2"

section \<open>The next transfer may begin\<close>

definition handle_ready_frame :: "u64 \<Rightarrow> nat \<Rightarrow> bytes result \<Rightarrow> unit px" where
  "handle_ready_frame transfer_id i received =
     bindS (receive_receiver_frame i received) (\<lambda>frame.
     (case frame of
        None \<Rightarrow> returnS ()
      | Some f \<Rightarrow>
          bindS (liftE (peek_control_type f)) (\<lambda>ty.
          if ty \<noteq> CT_ReceiverReady then returnS ()
          else
            bindS (liftE (decode_receiver_ready f)) (\<lambda>message.
            if rr_previous_transfer_id message \<noteq> transfer_id then returnS ()
            else set_rv i (\<lambda>r. r\<lparr>rv_ready_for_next_transfer := True, rv_recovery_state := RS_Idle,
              rv_recovery_transfer_id := 0, rv_active_meta := None\<rparr>)))))"

definition wait_for_receivers_ready :: "u64 \<Rightarrow> unit px" where
  "wait_for_receivers_ready transfer_id =
     bindS (set_receivers (map (\<lambda>r. r\<lparr>rv_ready_for_next_transfer := False\<rparr>))) (\<lambda>_.
     bindS (wait_for_all kReadyTimeout (list_all (\<lambda>r. rv_abandoned r \<or> rv_ready_for_next_transfer r))
              (\<lambda>r. \<not> rv_abandoned r \<and> \<not> rv_ready_for_next_transfer r)
              ''receiver ready acknowledgements'' (handle_ready_frame transfer_id)) (\<lambda>ok.
     if ok then returnS () else throwS ''timed out waiting for receivers to reset transfer state''))"

definition notify_failed_receivers :: "u64 \<Rightarrow> unit px" where
  "notify_failed_receivers transfer_id = for_receivers (\<lambda>i.
     bindS (get_rv i id) (\<lambda>r.
     whenS (\<not> rv_completed r \<and> \<not> rv_abandoned r) (send_ignoring i (encode_transfer_result
       \<lparr>tr_transfer_id = transfer_id, tr_result = TR_Failed\<rparr>))))"

definition finish_failed_transfer :: "u64 \<Rightarrow> unit px" where
  "finish_failed_transfer transfer_id =
     bindS (notify_failed_receivers transfer_id) (\<lambda>_. wait_for_receivers_ready transfer_id)"

section \<open>Announcing a transfer\<close>

definition handle_meta_answer :: "u64 \<Rightarrow> nat \<Rightarrow> bytes result \<Rightarrow> unit px" where
  "handle_meta_answer transfer_id i received =
     bindS (receive_receiver_frame i received) (\<lambda>frame.
     (case frame of
        None \<Rightarrow> returnS ()
      | Some f \<Rightarrow>
          bindS (liftE (peek_control_type f)) (\<lambda>ty.
          if ty = CT_ReceiverReady then bindS (liftE (decode_receiver_ready f)) (\<lambda>_. returnS ())
          else if ty = CT_ReceiverComplete then
            bindS (liftE (decode_receiver_complete f)) (\<lambda>message.
            bindS (get_rv i rv_active_meta) (\<lambda>active.
            (case active of
               None \<Rightarrow> returnS ()
             | Some meta \<Rightarrow>
                 if rc_transfer_id message = transfer_id \<and> rc_file_size message = fm_file_size meta
                    \<and> rc_sha256 message = fm_sha256 meta
                 then
                   bindS (set_rv i (\<lambda>r. r\<lparr>rv_meta_ready := True, rv_complete_received := True,
                     rv_completed := True, rv_recovery_state := RS_Completed,
                     rv_recovery_transfer_id := transfer_id\<rparr>)) (\<lambda>_.
                   send_ignoring i (encode_complete_ack \<lparr>ca_transfer_id = transfer_id\<rparr>))
                 else returnS ())))
          else if ty \<noteq> CT_MetaReady then returnS ()
          else
            bindS (liftE (decode_meta_ready f)) (\<lambda>message.
            if mr_transfer_id message \<noteq> transfer_id then throwS ''invalid or stale META_READY''
            else set_rv i (\<lambda>r. r\<lparr>rv_meta_ready := True, rv_recovery_state := RS_Receiving,
              rv_recovery_transfer_id := transfer_id\<rparr>)))))"

definition wait_for_meta_ready :: "u64 \<Rightarrow> unit px" where
  "wait_for_meta_ready transfer_id =
     bindS (wait_for_all kMetaReadyTimeout
              (list_all (\<lambda>r. rv_completed r \<or> rv_abandoned r \<or> rv_meta_ready r))
              (\<lambda>r. \<not> rv_completed r \<and> \<not> rv_abandoned r \<and> \<not> rv_meta_ready r)
              ''META_READY'' (handle_meta_answer transfer_id)) (\<lambda>ok.
     if ok then returnS () else throwS ''timed out waiting for META_READY'')"

definition announce_to :: "FileMetaMessage \<Rightarrow> bytes \<Rightarrow> nat \<Rightarrow> unit px" where
  "announce_to file_meta frame i =
     (let transfer_id = fm_transfer_id file_meta in
      bindS (set_rv i (\<lambda>r. r\<lparr>rv_active_meta := Some file_meta\<rparr>)) (\<lambda>_.
      bindS (get_rv i id) (\<lambda>r.
      if rv_recovery_state r = RS_Completed \<and> rv_recovery_transfer_id r = transfer_id
      then
        bindS (set_rv i (\<lambda>r. r\<lparr>rv_meta_ready := True, rv_status_received := True,
          rv_complete_received := True, rv_completed := True\<rparr>)) (\<lambda>_.
        send_ignoring i (encode_complete_ack \<lparr>ca_transfer_id = transfer_id\<rparr>))
      else
        bindS (if rv_recovery_state r = RS_Completed
               then send_ignoring i (encode_complete_ack \<lparr>ca_transfer_id = rv_recovery_transfer_id r\<rparr>)
               else if rv_recovery_state r = RS_Receiving \<and> rv_recovery_transfer_id r \<noteq> transfer_id
               then send_ignoring i (encode_transfer_result
                 \<lparr>tr_transfer_id = rv_recovery_transfer_id r, tr_result = TR_Failed\<rparr>)
               else returnS ()) (\<lambda>_.
        bindS (set_rv i (\<lambda>r. r\<lparr>rv_recovery_state := RS_Receiving,
          rv_recovery_transfer_id := transfer_id\<rparr>)) (\<lambda>_.
        send_ignoring i frame)))))"

definition delivery_meta :: "delivery \<Rightarrow> string \<Rightarrow> FileMetaMessage" where
  "delivery_meta d file_name =
     \<lparr>fm_transfer_id = dl_transfer_id d, fm_section_id = kSingleSectionId, fm_file_size = dl_file_size d,
      fm_block_size = of_nat kPayloadSize, fm_total_blocks = dl_total_blocks d,
      fm_section_block_count = dl_section_block_limit d, fm_file_name = file_name, fm_sha256 = dl_digest d\<rparr>"

definition begin_receiver_transfer :: "delivery \<Rightarrow> string \<Rightarrow> unit px" where
  "begin_receiver_transfer d file_name =
     bindS accept_pending_receiver_reconnects (\<lambda>_.
     bindS (set_receivers reset_transfer_state) (\<lambda>_.
     bindS (liftE (encode_file_meta (delivery_meta d file_name))) (\<lambda>frame.
     bindS (for_receivers (announce_to (delivery_meta d file_name) frame)) (\<lambda>_.
     wait_for_meta_ready (dl_transfer_id d)))))"

section \<open>Backfill\<close>

definition abandon_receiver :: "nat \<Rightarrow> unit px" where
  "abandon_receiver i = set_rv i (\<lambda>r. r\<lparr>rv_abandoned := True, rv_control_fd := -1\<rparr>)"

definition backfill_block :: "delivery \<Rightarrow> nat \<Rightarrow> u32 \<Rightarrow> bool px" where
  "backfill_block d i block_id =
     bindS (read_block_of (dl_file_path d) (dl_file_path d) (dl_file_size d) block_id) (\<lambda>(payload, offset).
     bindS (liftE (encode_backfill_data \<lparr>bd_transfer_id = dl_transfer_id d, bd_block_id = block_id,
       bd_offset = offset, bd_payload_size = of_nat (length payload), bd_crc32 = crc32 payload,
       bd_payload = payload\<rparr>)) (\<lambda>frame.
     send_receiver_frame i frame))"

text \<open>The blocks in order, until a frame cannot be sent (false).\<close>

fun backfill_blocks :: "delivery \<Rightarrow> nat \<Rightarrow> u32 list \<Rightarrow> bool px" where
  "backfill_blocks d i [] = returnS True"
| "backfill_blocks d i (block_id # block_ids) =
     bindS (backfill_block d i block_id) (\<lambda>sent.
     if sent then backfill_blocks d i block_ids else returnS False)"

text \<open>The wait for RECEIVER_COMPLETE, over what the calls to \<open>poll\<close> report with the time each takes;
  true when it arrived. After the last one nothing happens until the deadline.\<close>

fun backfill_wait :: "delivery \<Rightarrow> nat \<Rightarrow> nat \<Rightarrow> (nat \<times> poll_outcome) list \<Rightarrow> bool px" where
  "backfill_wait d deadline i [] =
     bindS (modifyS (\<lambda>p. p\<lparr>h_clock := max (h_clock p) deadline\<rparr>)) (\<lambda>_.
     bindS (abandon_receiver i) (\<lambda>_. returnS False))"
| "backfill_wait d deadline i ((elapsed, outcome) # polls) =
     bindS (getS h_clock) (\<lambda>now.
     if now \<ge> deadline then bindS (abandon_receiver i) (\<lambda>_. returnS False)
     else
       bindS (modifyS (\<lambda>p. p\<lparr>h_clock := h_clock p + elapsed, px_polls := (px_polls p)(i := polls)\<rparr>)) (\<lambda>_.
       (case outcome of
          Poll_error e \<Rightarrow>
            if e = EINTR then backfill_wait d deadline i polls
            else liftE (system_error ''poll TCP backfill result'' e)
        | Poll_timeout \<Rightarrow> bindS (abandon_receiver i) (\<lambda>_. returnS False)
        | Poll_hangup \<Rightarrow> bindS (abandon_receiver i) (\<lambda>_. returnS False)
        | Poll_nothing \<Rightarrow> backfill_wait d deadline i polls
        | Poll_frame received \<Rightarrow>
            bindS (receive_receiver_frame i received) (\<lambda>frame.
            (case frame of
               None \<Rightarrow> bindS (abandon_receiver i) (\<lambda>_. returnS False)
             | Some f \<Rightarrow>
                 bindS (liftE (peek_control_type f)) (\<lambda>ty.
                 if ty = CT_SectionStatus then
                   bindS (liftE (decode_section_status f)) (\<lambda>status.
                   if ss_transfer_id status = dl_transfer_id d \<and> ss_status status = SS_Failed
                   then bindS (set_rv i (\<lambda>r. r\<lparr>rv_status := Some status, rv_status_received := True\<rparr>))
                          (\<lambda>_. returnS False)
                   else backfill_wait d deadline i polls)
                 else if ty \<noteq> CT_ReceiverComplete then backfill_wait d deadline i polls
                 else
                   bindS (liftE (decode_receiver_complete f)) (\<lambda>complete.
                   if rc_transfer_id complete \<noteq> dl_transfer_id d \<or> rc_file_size complete \<noteq> dl_file_size d
                      \<or> rc_sha256 complete \<noteq> dl_digest d
                   then backfill_wait d deadline i polls
                   else returnS True)))))))"

definition backfill_one_receiver :: "delivery \<Rightarrow> nat \<Rightarrow> unit px" where
  "backfill_one_receiver d i =
     bindS (get_rv i id) (\<lambda>receiver.
     if \<not> rv_isolated receiver \<or> rv_completed receiver \<or> rv_abandoned receiver then returnS ()
     else
       bindS (send_receiver_frame i (encode_backfill_begin
         \<lparr>bb_transfer_id = dl_transfer_id d, bb_total_blocks = dl_total_blocks d\<rparr>)) (\<lambda>sent.
       if \<not> sent then abandon_receiver i
       else
         bindS (backfill_blocks d i (rv_backfill_blocks receiver)) (\<lambda>sent.
         if \<not> sent then abandon_receiver i
         else
           bindS (send_receiver_frame i (encode_backfill_end \<lparr>be_transfer_id = dl_transfer_id d,
             be_file_size = dl_file_size d, be_total_blocks = dl_total_blocks d,
             be_sha256 = dl_digest d\<rparr>)) (\<lambda>sent.
           if \<not> sent then abandon_receiver i
           else
             bindS (getS id) (\<lambda>p.
             bindS (backfill_wait d (h_clock p + kBackfillTimeout) i (px_polls p i)) (\<lambda>completed.
             whenS completed
               (bindS (set_rv i (\<lambda>r. r\<lparr>rv_complete_received := True, rv_completed := True,
                  rv_isolated := False, rv_recovery_state := RS_Completed,
                  rv_recovery_transfer_id := dl_transfer_id d\<rparr>)) (\<lambda>_.
                send_ignoring i (encode_complete_ack \<lparr>ca_transfer_id = dl_transfer_id d\<rparr>)))))))))"

text \<open>Tasks whose exceptions are kept for \<open>get\<close>: the first one.\<close>

fun run_tasks :: "(nat \<Rightarrow> unit px) \<Rightarrow> nat list \<Rightarrow> error option px" where
  "run_tasks task [] = returnS None"
| "run_tasks task (i # indexes) =
     bindS (tryS (bindS (task i) (\<lambda>_. returnS None)) (\<lambda>e. returnS (Some e))) (\<lambda>failure.
     bindS (run_tasks task indexes) (\<lambda>later.
     returnS (case failure of None \<Rightarrow> later | Some e \<Rightarrow> Some e)))"

definition needs_backfill :: "receiver_connection \<Rightarrow> bool" where
  "needs_backfill r \<longleftrightarrow> rv_isolated r \<and> \<not> rv_completed r \<and> \<not> rv_abandoned r"

definition backfill_isolated_receivers :: "delivery \<Rightarrow> unit px" where
  "backfill_isolated_receivers d =
     bindS (getS px_receivers) (\<lambda>receivers.
     let indexes = filter (\<lambda>i. needs_backfill (receivers ! i)) [0..<length receivers] in
     if indexes = [] then returnS ()
     else
       bindS (run_tasks (backfill_one_receiver d) indexes) (\<lambda>failure.
       (case failure of
          Some e \<Rightarrow> liftE (Inl e)
        | None \<Rightarrow> accept_pending_receiver_reconnects)))"

section \<open>One attempt, and a file\<close>

fun distribute_sections :: "delivery \<Rightarrow> u32 list \<Rightarrow> DeliveryResult px" where
  "distribute_sections d [] = returnS DR_Success"
| "distribute_sections d (section_id # section_ids) =
     bindS (getS px_receivers) (\<lambda>receivers.
     if all_receivers_completed receivers then returnS DR_Success
     else
       bindS (distribute_section d section_id) (\<lambda>result.
       if result \<noteq> DR_Success then returnS result else distribute_sections d section_ids))"

definition send_file_attempt :: "delivery \<Rightarrow> string \<Rightarrow> DeliveryResult px" where
  "send_file_attempt d file_name =
     bindS (begin_receiver_transfer d file_name) (\<lambda>_.
     bindS (liftE (section_count_for_blocks (dl_total_blocks d) (dl_section_block_limit d))) (\<lambda>section_count.
     bindS (distribute_sections d (local_blocks section_count)) (\<lambda>result.
     bindS (if result = DR_Sha256Mismatch then returnS result
            else
              bindS (backfill_isolated_receivers d) (\<lambda>_.
              bindS (getS px_receivers) (\<lambda>receivers.
              returnS (if receiver_reported_sha_mismatch receivers then DR_Sha256Mismatch else result)))) (\<lambda>result.
     bindS (getS px_receivers) (\<lambda>receivers.
     let result = (if all_receivers_completed receivers then DR_Success
                   else if result = DR_Success then DR_Failed else result) in
     bindS (whenS (result \<noteq> DR_Success) (notify_failed_receivers (dl_transfer_id d))) (\<lambda>_.
     bindS (wait_for_receivers_ready (dl_transfer_id d)) (\<lambda>_.
     returnS result)))))))"

text \<open>\<open>create_transfer_id\<close>: numbers are drawn until one is new. It throws the placeholder only when
  the listed numbers are used up, where the code draws on.\<close>

definition create_transfer_id :: "u64 list \<Rightarrow> u64 px" where
  "create_transfer_id used_transfer_ids =
     bindS (getS (\<lambda>p. dropWhile (\<lambda>i. i \<in> set used_transfer_ids) (px_random p))) (\<lambda>drawn.
     (case drawn of
        [] \<Rightarrow> throwS ''still drawing''
      | i # later \<Rightarrow> bindS (modifyS (\<lambda>p. p\<lparr>px_random := later\<rparr>)) (\<lambda>_. returnS i)))"

fun send_attempts :: "nat \<Rightarrow> delivery \<Rightarrow> string \<Rightarrow> u64 list \<Rightarrow> DeliveryResult \<Rightarrow> DeliveryResult px" where
  "send_attempts 0 d file_name used_transfer_ids result = returnS result"
| "send_attempts (Suc n) d file_name used_transfer_ids result =
     bindS (create_transfer_id used_transfer_ids) (\<lambda>transfer_id.
     bindS (send_file_attempt (d\<lparr>dl_transfer_id := transfer_id\<rparr>) file_name) (\<lambda>result.
     if result \<noteq> DR_Sha256Mismatch then returnS result
     else send_attempts n d file_name (transfer_id # used_transfer_ids) result))"

definition source_file_name :: "string \<Rightarrow> string result" where
  "source_file_name file_path =
     (let file_name = path_filename file_path in
      if file_name = [] then throw ''source file has no valid file name''
      else bindE (validate_file_name_field file_name) (\<lambda>_. Inr file_name))"

definition proxy_send_file :: "(bytes \<Rightarrow> bytes) \<Rightarrow> delivery \<Rightarrow> string \<Rightarrow> unit px" where
  "proxy_send_file sha setup file_path =
     bindS (stat_source file_path) (\<lambda>file_size.
     if blocks_of_file file_size > 0xffffffff
     then throwS (''file is too large for protocol block numbering: '' @ file_path)
     else
       bindS (hash_file sha file_path) (\<lambda>digest.
       bindS (liftE (source_file_name file_path)) (\<lambda>file_name.
       bindS (syscall (''open source file '' @ file_path)) (\<lambda>_.
       bindS (send_attempts (Suc kMaxTransferRetries)
                (setup\<lparr>dl_file_path := file_path, dl_file_size := file_size,
                  dl_total_blocks := ucast (blocks_of_file file_size), dl_digest := digest\<rparr>)
                file_name [] DR_Failed) (\<lambda>result.
       whenS (result \<noteq> DR_Success) (set_receivers abandon_incomplete_receivers))))))"

text \<open>The end of \<open>main\<close>: the files of the command line one after the other, and SESSION_END.\<close>

definition end_session :: "unit px" where
  "end_session =
     bindS accept_pending_receiver_reconnects (\<lambda>_.
     for_receivers (\<lambda>i. send_ignoring i encode_session_end))"

definition send_files :: "(bytes \<Rightarrow> bytes) \<Rightarrow> delivery \<Rightarrow> string list \<Rightarrow> unit px" where
  "send_files sha setup files =
     bindS (forS files (proxy_send_file sha setup)) (\<lambda>_. end_session)"

end
