(* ===== verification/Central_State.thy ===== *)
theory Central_State
  imports Receiver_State
begin

text \<open>
  The proxy's checkpoint of a file it caches from the central sender (\<open>src/sender.cpp\<close>): the
  \<open>.state\<close> file next to the cached file, with the number of the next Section. It is written and
  read like the receiver's state file, whose lemmas serve here again.
\<close>

definition central_checkpoint_path :: "string \<Rightarrow> string" where
  "central_checkpoint_path final_path = final_path @ ''.state''"

definition central_checkpoint_text :: "CentralFileMetaMessage \<Rightarrow> u32 \<Rightarrow> string" where
  "central_checkpoint_text meta next_section_id =
     ''SRC_PROXY_CHECKPOINT 3'' @ newline
     @ print_dec (unat (cfm_transfer_id meta)) @ newline
     @ print_dec (unat (cfm_file_size meta)) @ newline
     @ print_dec (unat (cfm_total_blocks meta)) @ newline
     @ print_dec (unat (cfm_section_block_count meta)) @ newline
     @ print_quoted (cfm_file_name meta) @ newline
     @ hex_digest (cfm_sha256 meta) @ newline
     @ print_dec (unat next_section_id) @ newline"

text \<open>The fields in the order they are extracted.\<close>

record central_checkpoint_file =
  ccf_magic :: string
  ccf_version :: int
  ccf_transfer_id :: u64
  ccf_file_size :: u64
  ccf_total_blocks :: u32
  ccf_section_block_count :: u32
  ccf_file_name :: string
  ccf_digest_hex :: string
  ccf_next_section_id :: u32

definition parse_central_checkpoint :: "string \<Rightarrow> central_checkpoint_file option" where
  "parse_central_checkpoint input =
     Option.bind (extract_word input) (\<lambda>(magic, input).
     Option.bind (extract_int input) (\<lambda>(version, input).
     Option.bind (extract_u64 input) (\<lambda>(transfer_id, input).
     Option.bind (extract_u64 input) (\<lambda>(file_size, input).
     Option.bind (extract_u32 input) (\<lambda>(total_blocks, input).
     Option.bind (extract_u32 input) (\<lambda>(section_block_count, input).
     Option.bind (extract_quoted input) (\<lambda>(file_name, input).
     Option.bind (extract_word input) (\<lambda>(digest_hex, input).
     Option.bind (extract_u32 input) (\<lambda>(next_section_id, input).
       Some \<lparr>ccf_magic = magic, ccf_version = version, ccf_transfer_id = transfer_id,
         ccf_file_size = file_size, ccf_total_blocks = total_blocks,
         ccf_section_block_count = section_block_count, ccf_file_name = file_name,
         ccf_digest_hex = digest_hex, ccf_next_section_id = next_section_id\<rparr>)))))))))"

definition accept_central_checkpoint :: "CentralFileMetaMessage \<Rightarrow> u32 \<Rightarrow> central_checkpoint_file option \<Rightarrow> u32" where
  "accept_central_checkpoint meta section_count parsed = (case parsed of
      None \<Rightarrow> 0
    | Some f \<Rightarrow>
        if ccf_magic f \<noteq> ''SRC_PROXY_CHECKPOINT'' \<or> ccf_version f \<noteq> 3
           \<or> ccf_transfer_id f \<noteq> cfm_transfer_id meta
           \<or> ccf_file_size f \<noteq> cfm_file_size meta \<or> ccf_total_blocks f \<noteq> cfm_total_blocks meta
           \<or> ccf_section_block_count f \<noteq> cfm_section_block_count meta
           \<or> ccf_file_name f \<noteq> cfm_file_name meta
           \<or> ccf_digest_hex f \<noteq> hex_digest (cfm_sha256 meta)
           \<or> ccf_next_section_id f \<ge> section_count
        then 0 else ccf_next_section_id f)"

definition load_central_checkpoint ::
  "string \<Rightarrow> string \<Rightarrow> CentralFileMetaMessage \<Rightarrow> ('a host_scheme, u32) eff" where
  "load_central_checkpoint checkpoint_path temporary_path meta =
     bindS (file_exists checkpoint_path) (\<lambda>has_checkpoint.
     bindS (file_exists temporary_path) (\<lambda>has_file.
     if \<not> has_checkpoint \<or> \<not> has_file then returnS 0
     else bindS (file_size_or_error temporary_path) (\<lambda>temporary_size.
       if temporary_size \<noteq> Some (cfm_file_size meta) then returnS 0
       else bindS (tryS (bindS (syscall ''open'') (\<lambda>_. getS (file_content checkpoint_path))) (\<lambda>e. returnS None)) (\<lambda>input.
         (case input of
            None \<Rightarrow> returnS 0
          | Some text \<Rightarrow>
              bindS (liftE (section_count_for_blocks (cfm_total_blocks meta) (cfm_section_block_count meta)))
                (\<lambda>section_count.
              returnS (accept_central_checkpoint meta section_count
                (parse_central_checkpoint (string_of_bytes text)))))))))"

definition save_central_checkpoint ::
  "string \<Rightarrow> CentralFileMetaMessage \<Rightarrow> u32 \<Rightarrow> ('a host_scheme, unit) eff" where
  "save_central_checkpoint checkpoint_path meta next_section_id =
     (let temporary_checkpoint = checkpoint_path @ ''.tmp'' in
      bindS (write_text_file temporary_checkpoint (central_checkpoint_text meta next_section_id)
               ''open central checkpoint failed: '' ''write central checkpoint failed: '') (\<lambda>_.
      rename_file temporary_checkpoint checkpoint_path ''commit central checkpoint failed''))"

section \<open>Round trip\<close>

lemma extract_checkpoint_magic:
  "extract_word (''SRC_PROXY_CHECKPOINT 3'' @ newline @ s) = Some (''SRC_PROXY_CHECKPOINT'', '' 3'' @ newline @ s)"
proof -
  have w: "is_word ''SRC_PROXY_CHECKPOINT''" by (simp add: is_word_def is_space_def char_code_def)
  have e: "ends_word ('' 3'' @ newline @ s)" by (simp add: ends_word_def)
  show ?thesis using extract_word_append [OF w e] by simp
qed

lemma parse_central_checkpoint_text:
  assumes "cfm_sha256 meta \<noteq> []"
  shows "parse_central_checkpoint (central_checkpoint_text meta n) =
    Some \<lparr>ccf_magic = ''SRC_PROXY_CHECKPOINT'', ccf_version = 3, ccf_transfer_id = cfm_transfer_id meta,
      ccf_file_size = cfm_file_size meta, ccf_total_blocks = cfm_total_blocks meta,
      ccf_section_block_count = cfm_section_block_count meta, ccf_file_name = cfm_file_name meta,
      ccf_digest_hex = hex_digest (cfm_sha256 meta), ccf_next_section_id = n\<rparr>"
proof -
  have last: "extract_u32 (print_dec (unat n) @ newline) = Some (n, newline)"
    using extract_u32_print newline_steps by simp
  show ?thesis
    by (simp only: central_checkpoint_text_def parse_central_checkpoint_def extract_checkpoint_magic
        extract_int_3 newline_steps extract_u64_print extract_u32_print extract_quoted_print
        hex_digest_eq_hex_bytes extract_word_append [OF is_word_hex_bytes [OF assms]] last
        Option.bind.bind_lunit bind.simps prod.case append_assoc)
qed

lemma save_central_checkpoint_no_events:
  assumes "h_events s = []" and "c_str path \<noteq> c_str (path @ ''.tmp'')"
  shows "save_central_checkpoint path meta n s = (Inr (), s\<lparr>h_files := (h_files s)(c_str (path @ ''.tmp'') := None,
    c_str path := Some (bytes_of_string (central_checkpoint_text meta n)))\<rparr>)"
  using assms
  by (simp add: save_central_checkpoint_def Let_def bindS_run write_text_file_no_events rename_file_no_events)

text \<open>C25: A checkpoint resumes where it was saved. On a file system that does not fail and with the
  temporary file of the announced size in place, \<open>load_central_checkpoint\<close> after
  \<open>save_central_checkpoint\<close> returns the saved Section number, and 0 (start over) when that number
  is not below the Section count.\<close>

theorem central_checkpoint_roundtrip:
  assumes "length (cfm_sha256 meta) = kSha256Size" and "no_nul path" and "no_nul tmp"
    and "tmp \<noteq> path" and "tmp \<noteq> path @ ''.tmp''" and "h_events s = []"
    and "h_files s tmp = Some content" and "of_nat (length content) = cfm_file_size meta"
    and "section_count_for_blocks (cfm_total_blocks meta) (cfm_section_block_count meta) = Inr count"
  shows "fst (save_central_checkpoint path meta n s) = Inr () \<and>
    fst (load_central_checkpoint path tmp meta (snd (save_central_checkpoint path meta n s)))
      = Inr (if n < count then n else 0)"
proof -
  have sha: "cfm_sha256 meta \<noteq> []" using assms(1) by (auto simp: kSha256Size_def)
  let ?t = "path @ ''.tmp''"
  have paths: "c_str path = path" "c_str tmp = tmp" "c_str ?t = ?t"
    using assms(2,3) by (simp_all add: c_str_no_nul)
  have ne: "path \<noteq> ?t" by simp
  let ?files = "(h_files s)(?t := None, path := Some (bytes_of_string (central_checkpoint_text meta n)))"
  have saved: "save_central_checkpoint path meta n s = (Inr (), s\<lparr>h_files := ?files\<rparr>)"
    using save_central_checkpoint_no_events [OF assms(6), of path] ne paths by simp
  have "file_size_or_error tmp (s\<lparr>h_files := ?files\<rparr>) = (Inr (Some (cfm_file_size meta)), s\<lparr>h_files := ?files\<rparr>)"
    using assms(4-8) paths by (simp add: file_size_or_error_def eff_run syscall_def file_content_def)
  then show ?thesis
    using assms(4-7,9) ne paths parse_central_checkpoint_text [OF sha, of n]
    by (simp add: saved load_central_checkpoint_def eff_run file_exists_def file_content_def syscall_def
        accept_central_checkpoint_def linorder_not_le [symmetric] del: linorder_not_le)
qed

text \<open>C26: A loaded checkpoint is never past the end: whatever is on the disk and whatever fails, the
  Section to resume from is 0 or below the Section count.\<close>

theorem central_checkpoint_in_range:
  assumes "section_count_for_blocks (cfm_total_blocks meta) (cfm_section_block_count meta) = Inr count"
    and "fst (load_central_checkpoint path tmp meta s) = Inr n"
  shows "n = 0 \<or> n < count"
  using assms
  by (auto simp: load_central_checkpoint_def eff_run accept_central_checkpoint_def
      split: if_splits sum.splits option.splits)

text \<open>C27: A checkpoint is replaced atomically: whichever call of \<open>save_central_checkpoint\<close> fails, the
  checkpoint file afterwards is the one from before or the complete new text.\<close>

theorem central_checkpoint_save_atomic:
  assumes "no_nul path"
  shows "h_files (snd (save_central_checkpoint path meta n s)) path
    \<in> {h_files s path, Some (bytes_of_string (central_checkpoint_text meta n))}"
proof -
  let ?tmp = "path @ ''.tmp''"
  have paths: "c_str path = path" "c_str ?tmp = ?tmp" using assms by (simp_all add: c_str_no_nul)
  from replace_file_atomic [OF this] show ?thesis
    by (simp add: save_central_checkpoint_def Let_def)
qed

section \<open>An example\<close>

definition example_central_meta :: CentralFileMetaMessage where
  "example_central_meta = \<lparr>cfm_transfer_id = 9, cfm_file_size = 3, cfm_block_size = 1400, cfm_total_blocks = 2,
     cfm_section_block_count = 1, cfm_file_name = ''f'', cfm_sha256 = replicate 32 0\<rparr>"

definition example_disk :: host where
  "example_disk = \<lparr>h_files = (\<lambda>_. None)(''c.part'' := Some [1, 2, 3]), h_events = [], h_clock = 0,
     h_frames = [], h_packets = [], h_getenv = (\<lambda>_. None), h_statvfs = (\<lambda>_. Inl ''none''),
     h_scan = (\<lambda>_. Inl ''none'')\<rparr>"

lemma example_central_fields [simp]:
  "cfm_sha256 example_central_meta = replicate 32 0" "cfm_file_size example_central_meta = 3"
  "h_events example_disk = []" "h_files example_disk = (\<lambda>_. None)(''c.part'' := Some [1, 2, 3])"
  by (simp_all add: example_central_meta_def example_disk_def)

lemma example_central_sections:
  "section_count_for_blocks (cfm_total_blocks example_central_meta) (cfm_section_block_count example_central_meta) = Inr 2"
  by code_simp

theorem central_checkpoint_roundtrip_witness:
  "fst (save_central_checkpoint ''c.state'' example_central_meta 1 example_disk) = Inr () \<and>
    fst (load_central_checkpoint ''c.state'' ''c.part'' example_central_meta
      (snd (save_central_checkpoint ''c.state'' example_central_meta 1 example_disk))) = Inr 1"
proof -
  have "no_nul ''c.state''" "no_nul ''c.part''" by (simp_all add: no_nul_def)
  from central_checkpoint_roundtrip [OF _ this _ _ _ _ _ example_central_sections, of example_disk "[1, 2, 3]" 1]
  show ?thesis by (simp add: kSha256Size_def)
qed

theorem central_checkpoint_in_range_witness:
  "load_central_checkpoint ''c.state'' ''c.part'' example_central_meta example_disk = (Inr 0, example_disk)
    \<and> ((0::u32) = 0 \<or> (0::u32) < 2)"
proof -
  have run: "load_central_checkpoint ''c.state'' ''c.part'' example_central_meta example_disk = (Inr 0, example_disk)"
    by (simp add: load_central_checkpoint_def eff_run file_exists_def file_content_def c_str_def)
  with central_checkpoint_in_range [OF example_central_sections, of "''c.state''" "''c.part''" example_disk 0]
  show ?thesis by simp
qed

theorem central_checkpoint_save_atomic_witness:
  "h_files (snd (save_central_checkpoint ''c.state'' example_central_meta 1
      (example_disk\<lparr>h_events := [Upto 1, Upto 4, Fails EINTR]\<rparr>))) ''c.state''
    \<in> {None, Some (bytes_of_string (central_checkpoint_text example_central_meta 1))}"
proof -
  have "no_nul ''c.state''" by (simp add: no_nul_def)
  from central_checkpoint_save_atomic [OF this, of example_central_meta 1
      "example_disk\<lparr>h_events := [Upto 1, Upto 4, Fails EINTR]\<rparr>"]
  show ?thesis by simp
qed

end
