(* ===== verification/Proxy_Frame.thy ===== *)
theory Proxy_Frame
  imports Proxy_Transfer
begin

text \<open>
  What a transfer leaves alone. Registering again, waiting, the rounds, the distribution of a
  Section, backfill and a whole transfer attempt change neither a file, nor which receivers there
  are and in which order, nor the environment, nor the variables of the pipeline that feeds them:
  \<open>proxy_frame\<close> collects these, and \<open>same c\<close> says that they are \<open>c\<close>.
\<close>

definition proxy_frame :: "proxy \<Rightarrow> _" where
  "proxy_frame p =
     ((h_files p, h_getenv p, h_statvfs p, h_scan p),
      map rv_receiver_endpoint (px_receivers p),
      (px_central_fd p, px_central p),
      (px_queue p, px_pending_bytes p, px_worker_error p, px_section_result p, px_failure p,
       px_dispatch_complete p, px_schedule p))"

abbreviation endpoints_of :: "'a \<times> string list \<times> 'b \<Rightarrow> string list" where
  "endpoints_of c \<equiv> fst (snd c)"

definition same :: "_ \<Rightarrow> proxy \<Rightarrow> bool" where
  "same c p \<longleftrightarrow> proxy_frame p = c"

named_theorems same "operations that keep the frame"

lemmas keep_structure = keeps_pure keeps_bind keeps_try keeps_when keeps_for keeps_fold keeps_if
  keeps_case_option keeps_let

lemma map_update_same: "g y = g (xs ! i) \<Longrightarrow> map g (xs[i := y]) = map g xs"
  by (cases "i < length xs") (simp_all add: map_update list_update_same_conv list_update_beyond)

section \<open>Elementary steps\<close>

lemma same_syscall [same]: "keeps (same c) (syscall op)"
  by (auto simp: keeps_def syscall_def same_def proxy_frame_def split: list.split io_event.split)

lemma same_syscall_retry [same]: "keeps (same c) (syscall_retry op)"
  unfolding syscall_retry_def
  by (intro keep_structure same keeps_modify) (simp add: same_def proxy_frame_def)

lemma same_send_frame [same]: "keeps (same c) (send_frame fd frame)"
  by (auto simp: keeps_def send_frame_def same_def proxy_frame_def split: prod.split sum.split)

lemma same_read_block_of [same]: "keeps (same c) (read_block_of fd path n b)"
  by (auto simp: keeps_def read_block_of_def same_def proxy_frame_def Let_def split: prod.split)

lemma same_send_udp_packet [same]: "keeps (same c) (send_udp_packet destination packet)"
  by (auto simp: keeps_def send_udp_packet_def same_def proxy_frame_def split: list.split io_event.split)

lemma same_next_wake [same]: "keeps (same c) (next_wake timeout_ms)"
  by (auto simp: keeps_def next_wake_def same_def proxy_frame_def split: list.split)

lemma same_clock [same]: "keeps (same c) (modifyS (\<lambda>p. p\<lparr>h_clock := f p\<rparr>))"
  by (intro keeps_modify) (simp add: same_def proxy_frame_def)

lemma same_polls [same]: "keeps (same c) (modifyS (\<lambda>p. p\<lparr>h_clock := f p, px_polls := g p\<rparr>))"
  by (intro keeps_modify) (simp add: same_def proxy_frame_def)

lemma same_random [same]: "keeps (same c) (modifyS (\<lambda>p. p\<lparr>px_random := later\<rparr>))"
  by (intro keeps_modify) (simp add: same_def proxy_frame_def)

lemma same_get_rv [same]: "keeps (same c) (get_rv i g)"
  by (simp add: get_rv_def)

lemma same_set_rv [same]:
  "(\<And>r. rv_receiver_endpoint (f r) = rv_receiver_endpoint r) \<Longrightarrow> keeps (same c) (set_rv i f)"
  unfolding set_rv_def
  by (intro keeps_modify) (simp add: same_def proxy_frame_def map_update_same)

lemma same_set_endpoint:
  assumes "i < length (endpoints_of c)" and "\<And>r. rv_receiver_endpoint (f r) = endpoints_of c ! i"
  shows "keeps (same c) (set_rv i f)"
proof -
  have "map rv_receiver_endpoint (rs[i := f (rs ! i)]) = map rv_receiver_endpoint rs"
    if "map rv_receiver_endpoint rs = endpoints_of c" for rs
  proof (rule map_update_same)
    have "i < length rs" using assms(1) that by (metis length_map)
    then show "rv_receiver_endpoint (f (rs ! i)) = rv_receiver_endpoint (rs ! i)"
      using assms(2) that by (metis nth_map)
  qed
  then show ?thesis
    unfolding set_rv_def by (intro keeps_modify) (auto simp: same_def proxy_frame_def)
qed

lemma same_set_receivers [same]:
  "(\<And>rs. map rv_receiver_endpoint (f rs) = map rv_receiver_endpoint rs) \<Longrightarrow> keeps (same c) (set_receivers f)"
  unfolding set_receivers_def by (intro keeps_modify) (simp add: same_def proxy_frame_def)

lemma same_for_receivers [same]: "(\<And>i. keeps (same c) (body i)) \<Longrightarrow> keeps (same c) (for_receivers body)"
  unfolding for_receivers_def by (intro keep_structure) simp

section \<open>Receivers and registration\<close>

lemma same_send_receiver_frame [same]: "keeps (same c) (send_receiver_frame i frame)"
  unfolding send_receiver_frame_def by (intro keep_structure same) simp_all

lemma same_send_ignoring [same]: "keeps (same c) (send_ignoring i frame)"
  unfolding send_ignoring_def by (intro keep_structure same)

lemma same_receive_receiver_frame [same]: "keeps (same c) (receive_receiver_frame i received)"
  unfolding receive_receiver_frame_def by (intro keep_structure same) simp_all

lemma same_file_meta_frame [same]: "keeps (same c) (file_meta_frame meta)"
  by (simp add: file_meta_frame_def)

lemma same_install_receiver_connection:
  assumes "i < length (endpoints_of c)" and "endpoints_of c ! i = acc_receiver_endpoint accepted"
  shows "keeps (same c) (install_receiver_connection i accepted)"
proof -
  have first: "keeps (same c) (set_rv i (\<lambda>r. r\<lparr>rv_control_fd := a1, rv_receiver_endpoint := acc_receiver_endpoint accepted,
      rv_udp_destination := a2, rv_peer_destination := a3, rv_recovery_state := a4,
      rv_recovery_transfer_id := a5\<rparr>))" for a1 a2 a3 a4 a5
    using assms by (intro same_set_endpoint) simp_all
  show ?thesis
    unfolding install_receiver_connection_def Let_def
    by (rule keeps_bind [OF same_get_rv], rule keeps_bind [OF first], (intro keep_structure same; simp))
qed

lemma find_endpoint_Some:
  assumes "find_endpoint key receivers = Some i"
  shows "i < length receivers \<and> rv_receiver_endpoint (receivers ! i) = key"
proof -
  from assms obtain k where "k < length [0..<length receivers]" "i = [0..<length receivers] ! k"
    "rv_receiver_endpoint (receivers ! ([0..<length receivers] ! k)) = key"
    unfolding find_endpoint_def find_Some_iff by blast
  then show ?thesis by simp
qed

lemma same_accept_receiver_reconnect [same]: "keeps (same c) (accept_receiver_reconnect attempt)"
proof -
  have "keeps (same c) (bindS (getS px_receivers) (\<lambda>receivers.
      case find_endpoint (acc_receiver_endpoint accepted) receivers of
        None \<Rightarrow> returnS () | Some i \<Rightarrow> install_receiver_connection i accepted))" for accepted
  proof (rule keeps_bind_getS)
    fix p assume p: "same c p"
    show "same c (snd ((case find_endpoint (acc_receiver_endpoint accepted) (px_receivers p) of
        None \<Rightarrow> returnS () | Some i \<Rightarrow> install_receiver_connection i accepted) p))"
    proof (cases "find_endpoint (acc_receiver_endpoint accepted) (px_receivers p)")
      case None
      with p show ?thesis by (simp add: returnS_def)
    next
      case (Some i)
      from find_endpoint_Some [OF Some] p have "i < length (endpoints_of c)"
        "endpoints_of c ! i = acc_receiver_endpoint accepted"
        by (auto simp: same_def proxy_frame_def)
      with same_install_receiver_connection p Some show ?thesis by (simp add: keepsD)
    qed
  qed
  then show ?thesis
    unfolding accept_receiver_reconnect_def
    by (intro keeps_try keeps_bind [OF keeps_pure(3)]) simp_all
qed

lemma same_accept_pending_batch [same]: "keeps (same c) (accept_pending_batch attempts)"
  by (induction attempts) (auto intro!: keep_structure same)

lemma same_accept_pending [same]: "keeps (same c) accept_pending_receiver_reconnects"
  unfolding accept_pending_receiver_reconnects_def
  by (intro keep_structure same keeps_modify) (simp add: same_def proxy_frame_def)

section \<open>Waiting\<close>

lemma same_close_hung_up [same]: "keeps (same c) (close_hung_up watched report)"
  unfolding close_hung_up_def by (cases report) (auto intro!: keep_structure same)

lemma same_wait_for_receiver_events [same]:
  "keeps (same c) (wait_for_receiver_events should_watch timeout_ms operation)"
  unfolding wait_for_receiver_events_def by (intro keep_structure same)

lemma same_wait_until [same]:
  "(\<And>i received. keeps (same c) (handle i received)) \<Longrightarrow>
     keeps (same c) (wait_until n deadline finished should_watch operation handle)"
proof (induction n)
  case 0
  then show ?case
    by (subst wait_until.simps) (auto intro!: keep_structure same split: prod.split)
next
  case (Suc n)
  then show ?case
    by (subst wait_until.simps) (auto intro!: keep_structure same split: prod.split)
qed

lemma same_wait_for_all [same]:
  "(\<And>i received. keeps (same c) (handle i received)) \<Longrightarrow>
     keeps (same c) (wait_for_all timeout finished should_watch operation handle)"
  unfolding wait_for_all_def by (intro keep_structure same)

section \<open>Rounds\<close>

lemma same_handle_section_status [same]:
  "keeps (same c) (handle_section_status i status transfer_id section_id round_id section_blocks)"
  unfolding handle_section_status_def by (intro keep_structure same) simp_all

lemma same_handle_receiver_complete [same]:
  "keeps (same c) (handle_receiver_complete i complete transfer_id file_size digest)"
  unfolding handle_receiver_complete_def by (intro keep_structure same) simp_all

lemma same_handle_control_frame [same]:
  "keeps (same c) (handle_control_frame i frame transfer_id section_id round_id file_size section_blocks digest)"
  unfolding handle_control_frame_def by (intro keep_structure same)

lemma same_handle_report [same]:
  "keeps (same c) (handle_report d section_id round_id section_blocks i received)"
  unfolding handle_report_def by (intro keep_structure same)

lemma same_collect_round_reports [same]: "keeps (same c) (collect_round_reports d section_id round_id)"
  unfolding collect_round_reports_def Let_def reset_round_state_def
  by (intro keep_structure same) simp_all

lemma same_rounds [same]:
  "keeps (same c) (send_to_participants frame)" "keeps (same c) (send_end_round d section_id round_id)"
  "keeps (same c) (send_repair_begin d section_id round_id)" "keeps (same c) (aggregate d section_id)"
  unfolding send_to_participants_def send_end_round_def send_repair_begin_def aggregate_def
  by (intro keep_structure same)+

lemma same_data_packet [same]: "keeps (same c) (data_packet d section_id block_id)"
  unfolding data_packet_def by (auto intro!: keep_structure same split: prod.split)

lemma same_repair_block [same]: "keeps (same c) (repair_block d section_id first_block missing_by_block local_block)"
  unfolding repair_block_def Let_def by (intro keep_structure same)

lemma same_send_repair_round [same]: "keeps (same c) (send_repair_round d section_id round_id)"
  unfolding send_repair_round_def by (intro keep_structure same)

section \<open>Peer repair and Sections\<close>

lemma same_plan_block [same]: "keeps (same c) (plan_block d section_id round_id first_block missing_by_block local_block plan)"
  unfolding plan_block_def Let_def by (intro keep_structure same)

lemma same_send_task [same]: "keeps (same c) (send_task d section_id round_id s t block_ids x)"
  unfolding send_task_def by (cases x) (auto intro!: keep_structure same)

lemma same_send_pair [same]: "keeps (same c) (send_pair d section_id round_id st x)"
  unfolding send_pair_def Let_def by (cases st; cases x) (auto intro!: keep_structure same)

lemma same_send_fallback [same]: "keeps (same c) (send_fallback d section_id plan t)"
  unfolding send_fallback_def by (intro keep_structure same)

lemma same_re_to_re [same]: "keeps (same c) (re_to_re d section_id round_id)"
  unfolding re_to_re_def by (auto intro!: keep_structure same split: prod.split)

lemma same_send_initial_block [same]:
  "keeps (same c) (send_initial_block d section_id duplicate_blocks corrupt_blocks first_block local_block)"
  unfolding send_initial_block_def Let_def by (intro keep_structure same)

lemma mapE_endpoints:
  assumes "mapE f xs = Inr ys" and "\<And>x y. f x = Inr y \<Longrightarrow> rv_receiver_endpoint y = rv_receiver_endpoint x"
  shows "map rv_receiver_endpoint ys = map rv_receiver_endpoint xs"
  using assms by (induction xs arbitrary: ys) (auto simp: bindE_Inr_iff)

lemma isolate_endpoints:
  assumes "isolate_slow_receivers total_blocks section_id round_id section_block_limit after rs = Inr rs'"
  shows "map rv_receiver_endpoint rs' = map rv_receiver_endpoint rs"
  using assms unfolding isolate_slow_receivers_def bindE_Inr_iff
  by (auto elim!: mapE_endpoints simp: isolate_receiver_def bindE_Inr_iff split: option.splits if_splits)

lemma same_isolate [same]: "keeps (same c) (isolate d section_id round_id after)"
proof (rule keepsI)
  fix p assume p: "same c p"
  show "same c (snd (isolate d section_id round_id after p))"
    using p isolate_endpoints
    by (auto simp: isolate_def eff_run set_receivers_def same_def proxy_frame_def split: sum.split)
qed

lemma same_repair_rounds [same]: "keeps (same c) (repair_rounds d section_id after ks)"
  by (induction ks) (auto intro!: keep_structure same)

lemma same_distribute_section [same]: "keeps (same c) (distribute_section d section_id)"
  unfolding distribute_section_def Let_def by (intro keep_structure same)

section \<open>Transfers\<close>

lemma same_handle_ready_frame [same]: "keeps (same c) (handle_ready_frame transfer_id i received)"
  unfolding handle_ready_frame_def by (intro keep_structure same) simp_all

lemma same_wait_for_receivers_ready [same]: "keeps (same c) (wait_for_receivers_ready transfer_id)"
  unfolding wait_for_receivers_ready_def by (intro keep_structure same) simp_all

lemma same_notify_failed_receivers [same]: "keeps (same c) (notify_failed_receivers transfer_id)"
  unfolding notify_failed_receivers_def by (intro keep_structure same)

lemma same_finish_failed_transfer [same]: "keeps (same c) (finish_failed_transfer transfer_id)"
  unfolding finish_failed_transfer_def by (intro keep_structure same)

lemma same_handle_meta_answer [same]: "keeps (same c) (handle_meta_answer transfer_id i received)"
  unfolding handle_meta_answer_def by (intro keep_structure same) simp_all

lemma same_wait_for_meta_ready [same]: "keeps (same c) (wait_for_meta_ready transfer_id)"
  unfolding wait_for_meta_ready_def by (intro keep_structure same)

lemma same_announce_to [same]: "keeps (same c) (announce_to file_meta frame i)"
  unfolding announce_to_def Let_def by (intro keep_structure same) simp_all

lemma same_begin_receiver_transfer [same]: "keeps (same c) (begin_receiver_transfer d file_name)"
  unfolding begin_receiver_transfer_def reset_transfer_state_def by (intro keep_structure same) simp_all

lemma same_abandon_receiver [same]: "keeps (same c) (abandon_receiver i)"
  unfolding abandon_receiver_def by (intro same) simp

lemma same_backfill_block [same]: "keeps (same c) (backfill_block d i block_id)"
  unfolding backfill_block_def by (auto intro!: keep_structure same split: prod.split)

lemma same_backfill_blocks [same]: "keeps (same c) (backfill_blocks d i block_ids)"
  by (induction block_ids) (auto intro!: keep_structure same)

lemma same_backfill_wait [same]: "keeps (same c) (backfill_wait d deadline i polls)"
proof (induction polls)
  case Nil
  then show ?case by (auto intro!: keep_structure same)
next
  case (Cons x polls)
  then show ?case
    by (cases x) (auto intro!: keep_structure same split: poll_outcome.split)
qed

lemma same_backfill_one_receiver [same]: "keeps (same c) (backfill_one_receiver d i)"
  unfolding backfill_one_receiver_def by (intro keep_structure same) simp_all

lemma same_run_tasks [same]: "(\<And>i. keeps (same c) (task i)) \<Longrightarrow> keeps (same c) (run_tasks task indexes)"
  by (induction indexes) (auto intro!: keep_structure same)

lemma same_backfill_isolated_receivers [same]: "keeps (same c) (backfill_isolated_receivers d)"
  unfolding backfill_isolated_receivers_def Let_def by (intro keep_structure same)

lemma same_distribute_sections [same]: "keeps (same c) (distribute_sections d section_ids)"
  by (induction section_ids) (auto intro!: keep_structure same)

lemma same_send_file_attempt [same]: "keeps (same c) (send_file_attempt d file_name)"
  unfolding send_file_attempt_def Let_def by (intro keep_structure same)

lemma same_create_transfer_id [same]: "keeps (same c) (create_transfer_id used)"
  unfolding create_transfer_id_def
  by (auto intro!: keep_structure same split: list.split)

lemma same_send_attempts [same]: "keeps (same c) (send_attempts n d file_name used result)"
  by (induction n arbitrary: d used result) (auto intro!: keep_structure same)

lemma same_stat_source [same]: "keeps (same c) (stat_source file_path)"
  unfolding stat_source_def by (intro keep_structure same)

lemma same_hash_file [same]: "keeps (same c) (hash_file sha path)"
  unfolding hash_file_def by (intro keep_structure same)

lemma same_proxy_send_file [same]: "keeps (same c) (proxy_send_file sha setup file_path)"
  unfolding proxy_send_file_def abandon_incomplete_receivers_def
  by (intro keep_structure same) simp_all

lemma same_end_session [same]: "keeps (same c) end_session"
  unfolding end_session_def by (intro keep_structure same)

lemma same_send_files [same]: "keeps (same c) (send_files sha setup files)"
  unfolding send_files_def by (intro keep_structure same)

end
