(* ===== verification/Steps.thy ===== *)
theory Steps
  imports Main
begin

text \<open>
  Step relations of interleaved threads: what an invariant and a variant that every step decreases
  give for runs. A run keeps the invariant and is no longer than the variant of its first state; when
  every state that is not final can go on, a final state can be reached from everywhere.
\<close>

locale invariant_steps =
  fixes step :: "'s \<Rightarrow> 's \<Rightarrow> bool" and inv :: "'s \<Rightarrow> bool"
  assumes step_inv: "step s t \<Longrightarrow> inv s \<Longrightarrow> inv t"
begin

lemma steps_inv: "step\<^sup>*\<^sup>* s t \<Longrightarrow> inv s \<Longrightarrow> inv t"
  by (induction rule: rtranclp_induct) (auto intro: step_inv)

lemma run_inv: "(step ^^ n) s t \<Longrightarrow> inv s \<Longrightarrow> inv t"
  using steps_inv by (blast dest: relpowp_imp_rtranclp)

end

locale terminating_steps = invariant_steps step inv
  for step :: "'s \<Rightarrow> 's \<Rightarrow> bool" and inv :: "'s \<Rightarrow> bool" +
  fixes variant :: "'s \<Rightarrow> nat"
  assumes step_decreases: "step s t \<Longrightarrow> variant t < variant s"
begin

lemma run_length: "(step ^^ n) s t \<Longrightarrow> n + variant t \<le> variant s"
proof (induction n arbitrary: t)
  case (Suc n)
  then obtain u where "(step ^^ n) s u" and "step u t" by auto
  with Suc.IH [of u] step_decreases [of u t] show ?case by simp
qed simp

lemma reaches_final:
  assumes "\<And>u. inv u \<Longrightarrow> \<not> final u \<Longrightarrow> \<exists>t. step u t" and "inv s"
  shows "\<exists>t. step\<^sup>*\<^sup>* s t \<and> inv t \<and> final t"
  using assms(2)
proof (induction s rule: measure_induct_rule [of variant])
  case (less s)
  show ?case
  proof (cases "final s")
    case True
    with less.prems show ?thesis by blast
  next
    case False
    with assms(1) less.prems obtain u where "step s u" by blast
    with less.IH [OF step_decreases step_inv] less.prems show ?thesis
      by (blast intro: converse_rtranclp_into_rtranclp)
  qed
qed

end

end
