(* ===== verification/Dispatch.thy ===== *)
theory Dispatch
  imports Prelude Steps
begin

text \<open>
  The two threads of \<open>receive_cached_file_from_central\<close> (\<open>src/sender.cpp\<close>) as interleaved steps. A
  step is what a thread does in one critical section of \<open>dispatch_mutex\<close>: the worker takes a task,
  books a finished or failed one, or returns; the producer queues a task, begins to wait because
  the queue holds too many bytes, goes on after the wait, gives up on the worker's failure, closes
  the queue (\<open>complete_dispatch\<close>) or cancels (\<open>stop_dispatch\<close>).

  \<open>dq_todo\<close> are the tasks the producer has yet to queue and \<open>dq_done\<close> those the worker has finished:
  what the threads do between the critical sections. The lemmas show that tasks are done in order
  and once each, that the queued bytes never exceed the high watermark, that the threads never
  block each other for ever, and that every run ends.
\<close>

type_synonym task = "u32 \<times> u64"

record dispatch =
  dq_todo :: "task list"
  dq_queue :: "task list"
  dq_pending :: u64
  dq_running :: "task option"
  dq_done :: "task list"
  dq_waiting :: bool
  dq_producer_done :: bool
  dq_cancel :: bool
  dq_failed :: bool
  dq_exited :: bool

definition start_dispatch :: "task list \<Rightarrow> dispatch" where
  "start_dispatch tasks = \<lparr>dq_todo = tasks, dq_queue = [], dq_pending = 0, dq_running = None,
     dq_done = [], dq_waiting = False, dq_producer_done = False, dq_cancel = False,
     dq_failed = False, dq_exited = False\<rparr>"

definition push_task :: "task \<Rightarrow> task list \<Rightarrow> dispatch \<Rightarrow> dispatch" where
  "push_task t ts s = s\<lparr>dq_todo := ts, dq_queue := dq_queue s @ [t],
     dq_pending := dq_pending s + snd t, dq_waiting := False\<rparr>"

inductive dispatch_step :: "u64 \<Rightarrow> u64 \<Rightarrow> dispatch \<Rightarrow> dispatch \<Rightarrow> bool" for low high where
  take_task: "dispatch_step low high s (s\<lparr>dq_queue := ts, dq_running := Some t\<rparr>)"
    if "\<not> dq_exited s" "dq_running s = None" "\<not> dq_cancel s" "dq_queue s = t # ts"
| task_done: "dispatch_step low high s (s\<lparr>dq_running := None, dq_pending := dq_pending s - snd t,
      dq_done := dq_done s @ [t]\<rparr>)"
    if "dq_running s = Some t"
| task_failed: "dispatch_step low high s (s\<lparr>dq_running := None, dq_pending := dq_pending s - snd t,
      dq_failed := True, dq_cancel := True, dq_exited := True\<rparr>)"
    if "dq_running s = Some t"
| worker_returns: "dispatch_step low high s (s\<lparr>dq_exited := True\<rparr>)"
    if "\<not> dq_exited s" "dq_running s = None" "dq_cancel s \<or> dq_producer_done s \<and> dq_queue s = []"
| queue_task: "dispatch_step low high s (push_task t ts s)"
    if "dq_todo s = t # ts" "\<not> dq_waiting s" "\<not> dq_cancel s" "\<not> dq_pending s + snd t > high"
| begin_wait: "dispatch_step low high s (s\<lparr>dq_waiting := True\<rparr>)"
    if "dq_todo s = t # ts" "\<not> dq_waiting s" "dq_pending s + snd t > high"
| end_wait: "dispatch_step low high s (push_task t ts s)"
    if "dq_todo s = t # ts" "dq_waiting s" "\<not> dq_cancel s" "dq_pending s \<le> low"
| give_up: "dispatch_step low high s (s\<lparr>dq_todo := [], dq_waiting := False, dq_producer_done := True\<rparr>)"
    if "dq_failed s" "\<not> dq_producer_done s"
| close_queue: "dispatch_step low high s (s\<lparr>dq_producer_done := True\<rparr>)"
    if "dq_todo s = []" "\<not> dq_producer_done s"
| cancel: "dispatch_step low high s (s\<lparr>dq_cancel := True, dq_todo := [], dq_producer_done := True\<rparr>)"
    if "\<not> dq_waiting s" "\<not> dq_producer_done s"

inductive_cases dispatch_stepE: "dispatch_step low high s t"

abbreviation dispatch_steps :: "u64 \<Rightarrow> u64 \<Rightarrow> dispatch \<Rightarrow> dispatch \<Rightarrow> bool" where
  "dispatch_steps low high \<equiv> (dispatch_step low high)\<^sup>*\<^sup>*"

lemma dispatch_two_steps:
  "dispatch_step low high s t \<Longrightarrow> dispatch_step low high t u \<Longrightarrow> dispatch_steps low high s u"
  by (meson converse_rtranclp_into_rtranclp r_into_rtranclp)

section \<open>The queue invariant\<close>

definition queued_bytes :: "task list \<Rightarrow> nat" where
  "queued_bytes ts = sum_list (map (\<lambda>t. unat (snd t)) ts)"

lemma queued_bytes_simps [simp]:
  "queued_bytes [] = 0" "queued_bytes (t # ts) = unat (snd t) + queued_bytes ts"
  "queued_bytes (ts @ us) = queued_bytes ts + queued_bytes us"
  by (simp_all add: queued_bytes_def)

definition running :: "dispatch \<Rightarrow> task list" where
  "running s = (case dq_running s of None \<Rightarrow> [] | Some t \<Rightarrow> [t])"

text \<open>\<open>m\<close> bounds the bytes of one task.\<close>

definition dispatch_inv :: "task list \<Rightarrow> u64 \<Rightarrow> u64 \<Rightarrow> dispatch \<Rightarrow> bool" where
  "dispatch_inv tasks m high s \<longleftrightarrow>
     queued_bytes (running s @ dq_queue s) = unat (dq_pending s) \<and> dq_pending s \<le> high \<and>
     (\<forall>t \<in> set (running s @ dq_queue s @ dq_todo s). snd t \<le> m) \<and>
     (\<exists>rest. dq_done s @ running s @ rest = tasks) \<and>
     (\<not> dq_cancel s \<longrightarrow> dq_done s @ running s @ dq_queue s @ dq_todo s = tasks) \<and>
     (dq_failed s \<longrightarrow> dq_cancel s) \<and> (dq_producer_done s \<longrightarrow> dq_todo s = []) \<and>
     (dq_waiting s \<longrightarrow> \<not> dq_producer_done s \<and> dq_todo s \<noteq> []) \<and> (dq_exited s \<longrightarrow> dq_running s = None) \<and>
     (dq_cancel s \<longrightarrow> dq_failed s \<or> dq_producer_done s) \<and>
     (dq_exited s \<longrightarrow> dq_cancel s \<or> dq_producer_done s \<and> dq_queue s = [])"

lemma start_dispatch_inv:
  "\<forall>t \<in> set tasks. snd t \<le> m \<Longrightarrow> dispatch_inv tasks m high (start_dispatch tasks)"
  by (simp add: dispatch_inv_def start_dispatch_def running_def)

lemma pending_push:
  assumes "unat pending + unat b \<le> unat (high :: u64)"
  shows "unat (pending + b) = unat pending + unat b" "pending + b \<le> high"
proof -
  show "unat (pending + b) = unat pending + unat b"
    using assms unat_u64_less [of high] by (simp add: unat_word_ariths)
  with assms show "pending + b \<le> high" by (simp add: word_le_nat_alt)
qed

lemma push_task_inv:
  assumes "dispatch_inv tasks m high s" and "dq_todo s = t # ts" and "\<not> dq_cancel s"
    and "unat (dq_pending s) + unat (snd t) \<le> unat high" and "\<not> dq_producer_done s" and "\<not> dq_exited s"
  shows "dispatch_inv tasks m high (push_task t ts s)"
  using assms pending_push [OF assms(4)]
  by (auto simp: dispatch_inv_def push_task_def running_def)

lemma task_done_inv:
  assumes "dispatch_inv tasks m high s" and "dq_running s = Some t"
  shows "unat (dq_pending s - snd t) = queued_bytes (dq_queue s)" and "dq_pending s - snd t \<le> high"
proof -
  have sum: "unat (dq_pending s) = unat (snd t) + queued_bytes (dq_queue s)" and le: "dq_pending s \<le> high"
    using assms by (simp_all add: dispatch_inv_def running_def)
  have "snd t \<le> dq_pending s" using sum by (simp add: word_le_nat_alt)
  then have sub: "unat (dq_pending s - snd t) = unat (dq_pending s) - unat (snd t)" by (rule unat_sub)
  then show "unat (dq_pending s - snd t) = queued_bytes (dq_queue s)" using sum by simp
  show "dq_pending s - snd t \<le> high" using sub le by (simp add: word_le_nat_alt)
qed

lemma dispatch_step_inv:
  assumes "dispatch_step low high s s'" and "dispatch_inv tasks m high s"
    and "unat low + unat m \<le> unat high" and "unat high + unat m < 2 ^ 64"
  shows "dispatch_inv tasks m high s'"
  using assms(1)
proof (cases rule: dispatch_step.cases)
  case (task_done t)
  with task_done_inv [OF assms(2)] assms(2) show ?thesis
    by (auto simp: dispatch_inv_def running_def)
next
  case (task_failed t)
  with task_done_inv [OF assms(2)] assms(2) show ?thesis
    by (auto simp: dispatch_inv_def running_def)
next
  case (queue_task t ts)
  then have "\<not> dq_producer_done s" "\<not> dq_exited s" "snd t \<le> m" "dq_pending s \<le> high"
    using assms(2) by (auto simp: dispatch_inv_def)
  then have "unat (dq_pending s) + unat (snd t) < 2 ^ 64"
    using assms(4) by (simp add: word_le_nat_alt)
  then have "unat (dq_pending s + snd t) = unat (dq_pending s) + unat (snd t)" by (simp add: unat_word_ariths)
  then have "unat (dq_pending s) + unat (snd t) \<le> unat high"
    using queue_task by (simp add: word_less_nat_alt)
  with push_task_inv [OF assms(2)] queue_task \<open>\<not> dq_producer_done s\<close> \<open>\<not> dq_exited s\<close> show ?thesis by simp
next
  case (end_wait t ts)
  then have "\<not> dq_producer_done s" "\<not> dq_exited s" "snd t \<le> m"
    using assms(2) by (auto simp: dispatch_inv_def)
  moreover have "unat (dq_pending s) + unat (snd t) \<le> unat high"
    using end_wait \<open>snd t \<le> m\<close> assms(3) by (simp add: word_le_nat_alt)
  ultimately show ?thesis using push_task_inv [OF assms(2)] end_wait by simp
qed (use assms(2) in \<open>auto simp: dispatch_inv_def running_def\<close>)

section \<open>Every run ends\<close>

definition dispatch_variant :: "dispatch \<Rightarrow> nat" where
  "dispatch_variant s = 4 * length (dq_todo s) + 2 * length (dq_queue s) + length (running s)
     + (if dq_waiting s then 0 else 1) + (if dq_producer_done s then 0 else 2) + (if dq_exited s then 0 else 1)"

lemma dispatch_step_decreases: "dispatch_step low high s s' \<Longrightarrow> dispatch_variant s' < dispatch_variant s"
  by (induction rule: dispatch_step.induct) (auto simp: dispatch_variant_def push_task_def running_def)

interpretation pipeline_steps: terminating_steps "dispatch_step low high"
    "\<lambda>s. unat low + unat m \<le> unat high \<and> unat high + unat m < 2 ^ 64 \<and> dispatch_inv tasks m high s" dispatch_variant
  for low high m tasks
  by unfold_locales (auto intro: dispatch_step_inv dispatch_step_decreases)

lemma dispatch_reach_inv:
  assumes "dispatch_steps low high s s'" and "dispatch_inv tasks m high s"
    and "unat low + unat m \<le> unat high" and "unat high + unat m < 2 ^ 64"
  shows "dispatch_inv tasks m high s'"
  using pipeline_steps.steps_inv [OF assms(1)] assms(2-4) by blast

section \<open>Properties\<close>

text \<open>C32: Tasks are distributed in the order they are queued, each at most once, and the bytes of
  queued and running Sections are what \<open>pending_bytes\<close> says and never exceed the high watermark,
  however the two threads interleave.\<close>

theorem dispatch_in_order_and_bounded:
  assumes "dispatch_steps low high (start_dispatch tasks) s" and "\<forall>t \<in> set tasks. snd t \<le> m"
    and "unat low + unat m \<le> unat high" and "unat high + unat m < 2 ^ 64"
  shows "(\<exists>rest. dq_done s @ running s @ rest = tasks)
    \<and> unat (dq_pending s) = queued_bytes (running s @ dq_queue s)
    \<and> queued_bytes (running s @ dq_queue s) \<le> unat high
    \<and> (dq_exited s \<and> \<not> dq_cancel s \<longrightarrow> dq_done s = tasks)"
proof -
  have inv: "dispatch_inv tasks m high s"
    using dispatch_reach_inv [OF assms(1) start_dispatch_inv [OF assms(2)] assms(3,4)] .
  then have "dq_done s = tasks" if "dq_exited s" "\<not> dq_cancel s"
    using that by (auto simp: dispatch_inv_def running_def)
  with inv show ?thesis by (auto simp: dispatch_inv_def word_le_nat_alt)
qed

text \<open>C33: The two threads never wait for each other for ever: until the producer is done and the worker
  has returned, one of them can go on, without the central connection having to fail (a step that
  cancels only after the worker's own failure).\<close>

theorem dispatch_no_deadlock:
  assumes "dispatch_steps low high (start_dispatch tasks) s" and "\<forall>t \<in> set tasks. snd t \<le> m"
    and "unat low + unat m \<le> unat high" and "unat high + unat m < 2 ^ 64"
    and "\<not> (dq_producer_done s \<and> dq_exited s)"
  shows "\<exists>s'. dispatch_step low high s s' \<and> (dq_cancel s' \<longrightarrow> dq_cancel s)"
proof -
  have inv: "dispatch_inv tasks m high s"
    using dispatch_reach_inv [OF assms(1) start_dispatch_inv [OF assms(2)] assms(3,4)] .
  show ?thesis
  proof (cases "dq_running s")
    case (Some t)
    then show ?thesis by (intro exI conjI, rule task_done) simp_all
  next
    case None
    show ?thesis
    proof (cases "\<not> dq_exited s \<and> (dq_cancel s \<or> dq_queue s \<noteq> [] \<or> dq_producer_done s)")
      case True
      then consider "dq_cancel s \<or> dq_producer_done s \<and> dq_queue s = []" | t ts where "\<not> dq_cancel s" "dq_queue s = t # ts"
        by (cases "dq_queue s") auto
      then show ?thesis
      proof cases
        case 1
        with True None have "dispatch_step low high s (s\<lparr>dq_exited := True\<rparr>)" by (intro worker_returns) auto
        then show ?thesis by (intro exI [of _ "s\<lparr>dq_exited := True\<rparr>"]) simp
      next
        case (2 t ts)
        with True None have "dispatch_step low high s (s\<lparr>dq_queue := ts, dq_running := Some t\<rparr>)"
          by (intro take_task) auto
        then show ?thesis by (intro exI [of _ "s\<lparr>dq_queue := ts, dq_running := Some t\<rparr>"]) simp
      qed
    next
      case False
      then have open_producer: "\<not> dq_producer_done s" using assms(5) by auto
      show ?thesis
      proof (cases "dq_cancel s")
        case True
        then have "dq_failed s" using inv open_producer by (auto simp: dispatch_inv_def)
        from give_up [OF this open_producer] show ?thesis using True by blast
      next
        case not_cancelled: False
        then have empty: "dq_queue s = []" using False inv open_producer by (auto simp: dispatch_inv_def)
        then have "unat (dq_pending s) = 0" using inv None by (auto simp: dispatch_inv_def running_def)
        then have zero: "dq_pending s = 0" by (simp only: unat_eq_zero)
        show ?thesis
        proof (cases "dq_todo s")
          case Nil
          from close_queue [OF this open_producer] have "dispatch_step low high s (s\<lparr>dq_producer_done := True\<rparr>)" .
          then show ?thesis by (intro exI [of _ "s\<lparr>dq_producer_done := True\<rparr>"]) simp
        next
          case (Cons t ts)
          have "snd t \<le> high"
            using inv Cons assms(3) by (auto simp: dispatch_inv_def word_le_nat_alt)
          moreover have "\<not> dq_cancel (push_task t ts s)" using not_cancelled by (simp add: push_task_def)
          ultimately show ?thesis
            using queue_task [of s t ts high low] end_wait [of s t ts low high] Cons zero not_cancelled
            by (cases "dq_waiting s") (auto simp: not_less)
        qed
      qed
    qed
  qed
qed

text \<open>C34: The pipeline terminates: a run of the two threads over k Sections has at most 4k + 4 steps.\<close>

theorem dispatch_run_bounded:
  assumes "(dispatch_step low high ^^ n) (start_dispatch tasks) s"
  shows "n \<le> 4 * length tasks + 4"
  using pipeline_steps.run_length [OF assms]
  by (simp add: dispatch_variant_def start_dispatch_def running_def split: if_splits)

section \<open>An example\<close>

text \<open>Two Sections of 100 bytes: the first is queued and taken.\<close>

definition example_tasks :: "task list" where
  "example_tasks = [(0, 100), (1, 100)]"

definition example_dispatch :: dispatch where
  "example_dispatch = (start_dispatch example_tasks)\<lparr>dq_todo := [(1, 100)], dq_pending := 100, dq_running := Some (0, 100)\<rparr>"

lemma example_dispatch_steps:
  "(dispatch_step 200 400 ^^ 2) (start_dispatch example_tasks) example_dispatch"
proof -
  let ?s = "start_dispatch example_tasks"
  have "dispatch_step 200 400 ?s (push_task (0, 100) [(1, 100)] ?s)"
    by (rule queue_task) (simp_all add: start_dispatch_def example_tasks_def)
  moreover have "dispatch_step 200 400 (push_task (0, 100) [(1, 100)] ?s)
      ((push_task (0, 100) [(1, 100)] ?s)\<lparr>dq_queue := [], dq_running := Some (0, 100)\<rparr>)"
    by (rule take_task) (simp_all add: start_dispatch_def push_task_def)
  ultimately show ?thesis
    by (auto simp: numeral_2_eq_2 example_dispatch_def push_task_def start_dispatch_def)
qed

lemma example_dispatch_reached: "dispatch_steps 200 400 (start_dispatch example_tasks) example_dispatch"
  using example_dispatch_steps by (rule relpowp_imp_rtranclp)

theorem dispatch_in_order_and_bounded_witness:
  "(\<exists>rest. dq_done example_dispatch @ running example_dispatch @ rest = example_tasks)
    \<and> unat (dq_pending example_dispatch) = queued_bytes (running example_dispatch @ dq_queue example_dispatch)
    \<and> queued_bytes (running example_dispatch @ dq_queue example_dispatch) \<le> unat (400 :: u64)"
  using dispatch_in_order_and_bounded [OF example_dispatch_reached, of 100]
  by (simp add: example_tasks_def)

theorem dispatch_no_deadlock_witness:
  "\<exists>s'. dispatch_step 200 400 example_dispatch s' \<and> \<not> dq_cancel s'"
  using dispatch_no_deadlock [OF example_dispatch_reached, of 100]
  by (simp add: example_tasks_def example_dispatch_def start_dispatch_def)

theorem dispatch_run_bounded_witness: "(2 :: nat) \<le> 4 * length example_tasks + 4"
  by (rule dispatch_run_bounded [OF example_dispatch_steps])

end
