(* ===== verification/Central_Dispatch.thy ===== *)
theory Central_Dispatch
  imports Proxy_Frame Central_State Dispatch
begin

text \<open>
  The pipeline inside \<open>receive_cached_file_from_central\<close> (\<open>src/sender.cpp\<close>): while the proxy
  receives a file from the central sender, a worker thread distributes the complete Sections.

  The threads share the queue, \<open>pending_bytes\<close> and the worker's outcome under one mutex. Beyond that
  the producer only writes blocks of Sections that are not yet queued and talks to the central
  sender, while the worker only uses the receivers and blocks of queued Sections, so the effects of
  a task commute with those of the producer up to the next point where the producer takes the
  mutex: tasks run there, as many as \<open>px_schedule\<close> says.

  \<open>cancel_dispatch\<close> is set by the worker together with \<open>worker_failed\<close> and by \<open>stop_dispatch\<close>, after
  which the producer does not look at the queue again.
\<close>

section \<open>The worker\<close>

definition section_failure :: error where
  "section_failure = Runtime_error ''receiver repair failed for central section''"

text \<open>One pass of \<open>dispatch_worker\<close>: take a task, distribute the Section, account for it.\<close>

definition finish_task :: "u64 \<Rightarrow> error + DeliveryResult \<Rightarrow> proxy \<Rightarrow> proxy" where
  "finish_task task_bytes outcome p =
     (case outcome of
        Inl e \<Rightarrow> p\<lparr>px_pending_bytes := px_pending_bytes p - task_bytes, px_worker_error := Some e\<rparr>
      | Inr result \<Rightarrow> p\<lparr>px_pending_bytes := px_pending_bytes p - task_bytes, px_section_result := result,
          px_worker_error := (if result = DR_Failed then Some section_failure else px_worker_error p)\<rparr>)"

definition worker_step :: "delivery \<Rightarrow> unit px" where
  "worker_step d =
     bindS (getS id) (\<lambda>p.
     (case px_queue p of
        [] \<Rightarrow> returnS ()
      | (section_id, task_bytes) # later \<Rightarrow>
          if px_worker_error p \<noteq> None then returnS ()
          else
            bindS (modifyS (\<lambda>p. p\<lparr>px_queue := later\<rparr>)) (\<lambda>_.
            bindS (tryS (bindS (distribute_section d section_id) (\<lambda>result. returnS (Inr result)))
                     (\<lambda>e. returnS (Inl e))) (\<lambda>outcome.
            modifyS (finish_task task_bytes outcome)))))"

fun worker_steps :: "nat \<Rightarrow> delivery \<Rightarrow> unit px" where
  "worker_steps 0 d = returnS ()"
| "worker_steps (Suc n) d = bindS (worker_step d) (\<lambda>_. worker_steps n d)"

text \<open>The tasks finished before the producer takes the mutex.\<close>

definition worker_runs :: "delivery \<Rightarrow> unit px" where
  "worker_runs d =
     bindS (getS px_schedule) (\<lambda>schedule.
     bindS (modifyS (\<lambda>p. p\<lparr>px_schedule := tl (px_schedule p)\<rparr>)) (\<lambda>_.
     worker_steps (case schedule of [] \<Rightarrow> 0 | n # _ \<Rightarrow> n) d))"

text \<open>\<open>dispatch_condition.wait\<close> in \<open>enqueue_section\<close>: the worker goes on until the producer may
  continue; \<open>n\<close> is the number of queued tasks.\<close>

fun wait_for_low :: "nat \<Rightarrow> delivery \<Rightarrow> u64 \<Rightarrow> unit px" where
  "wait_for_low n d low_watermark =
     bindS (getS id) (\<lambda>p.
     if px_worker_error p \<noteq> None \<or> px_pending_bytes p \<le> low_watermark then returnS ()
     else (case n of
        0 \<Rightarrow> returnS ()
      | Suc m \<Rightarrow> bindS (worker_step d) (\<lambda>_. wait_for_low m d low_watermark)))"

declare wait_for_low.simps [simp del]

section \<open>The producer\<close>

definition no_digest :: bytes where
  "no_digest = replicate kSha256Size 0"

definition fail_after_meta :: "string \<Rightarrow> bytes \<Rightarrow> 'a px" where
  "fail_after_meta reason sha256 =
     bindS (modifyS (\<lambda>p. p\<lparr>px_failure := Some sha256\<rparr>)) (\<lambda>_. throwS reason)"

definition rethrow_worker_error :: "error \<Rightarrow> 'a px" where
  "rethrow_worker_error e =
     bindS (modifyS (\<lambda>p. p\<lparr>px_failure := Some no_digest\<rparr>)) (\<lambda>_. liftE (Inl e))"

definition throw_if_worker_failed :: "delivery \<Rightarrow> unit px" where
  "throw_if_worker_failed d =
     bindS (worker_runs d) (\<lambda>_.
     bindS (getS px_worker_error) (\<lambda>worker_error.
     (case worker_error of None \<Rightarrow> returnS () | Some e \<Rightarrow> rethrow_worker_error e)))"

text \<open>The watermarks, and the size of a Section.\<close>

definition maximum_section_bytes :: "CentralFileMetaMessage \<Rightarrow> u64" where
  "maximum_section_bytes meta = min (cfm_file_size meta)
     (ucast (cfm_section_block_count meta) * ucast (cfm_block_size meta))"

definition high_watermark :: "CentralFileMetaMessage \<Rightarrow> u64" where
  "high_watermark meta = maximum_section_bytes meta * 4"

definition low_watermark :: "CentralFileMetaMessage \<Rightarrow> u64" where
  "low_watermark meta = maximum_section_bytes meta * 2"

definition section_bytes :: "CentralFileMetaMessage \<Rightarrow> u32 \<Rightarrow> u64 result" where
  "section_bytes meta section_id =
     bindE (section_first_block section_id (cfm_section_block_count meta)) (\<lambda>first_block.
     bindE (section_block_count (cfm_total_blocks meta) section_id (cfm_section_block_count meta))
       (\<lambda>section_blocks.
     let offset = ucast first_block * ucast (cfm_block_size meta) in
     Inr (min (ucast section_blocks * ucast (cfm_block_size meta)) (cfm_file_size meta - offset))))"

definition enqueue_section :: "delivery \<Rightarrow> CentralFileMetaMessage \<Rightarrow> u32 \<Rightarrow> unit px" where
  "enqueue_section d meta section_id =
     bindS (liftE (section_bytes meta section_id)) (\<lambda>task_bytes.
     bindS (worker_runs d) (\<lambda>_.
     bindS (getS id) (\<lambda>p.
     bindS (whenS (px_pending_bytes p + task_bytes > high_watermark meta)
              (wait_for_low (length (px_queue p)) d (low_watermark meta))) (\<lambda>_.
     bindS (getS px_worker_error) (\<lambda>worker_error.
     (case worker_error of
        Some e \<Rightarrow> rethrow_worker_error e
      | None \<Rightarrow> modifyS (\<lambda>p. p\<lparr>px_queue := px_queue p @ [(section_id, task_bytes)],
          px_pending_bytes := px_pending_bytes p + task_bytes\<rparr>)))))))"

text \<open>\<open>complete_dispatch\<close>: the worker finishes the queue, or stops at its failure, and is joined.\<close>

definition complete_dispatch :: "delivery \<Rightarrow> unit px" where
  "complete_dispatch d =
     bindS (getS (\<lambda>p. length (px_queue p))) (\<lambda>n.
     bindS (worker_steps n d) (\<lambda>_.
     bindS (getS px_worker_error) (\<lambda>worker_error.
     (case worker_error of None \<Rightarrow> returnS () | Some e \<Rightarrow> rethrow_worker_error e))))"

text \<open>\<open>stop_dispatch\<close>: the worker is cancelled and joined; what it had not begun is never sent.\<close>

definition stop_dispatch :: "delivery \<Rightarrow> unit px" where
  "stop_dispatch d = bindS (worker_runs d) (\<lambda>_. modifyS (\<lambda>p. p\<lparr>px_queue := []\<rparr>))"

section \<open>The pipeline as steps\<close>

text \<open>Between two points where the threads meet no task is running and the producer is not waiting;
  \<open>todo\<close> and \<open>finished\<close> are the tasks still to queue and those distributed.\<close>

definition dispatch_of :: "task list \<Rightarrow> task list \<Rightarrow> proxy \<Rightarrow> dispatch" where
  "dispatch_of todo finished p =
     (let failed = px_worker_error p \<noteq> None in
      \<lparr>dq_todo = todo, dq_queue = px_queue p, dq_pending = px_pending_bytes p, dq_running = None,
       dq_done = finished, dq_waiting = False, dq_producer_done = False, dq_cancel = failed,
       dq_failed = failed, dq_exited = failed\<rparr>)"

lemma worker_step_idle:
  "px_queue p = [] \<or> px_worker_error p \<noteq> None \<Longrightarrow> worker_step d p = (Inr (), p)"
  by (auto simp: worker_step_def eff_run split: list.split)

lemma worker_step_runs:
  assumes "px_queue p = (section_id, b) # later" and "px_worker_error p = None"
  shows "\<exists>outcome q. worker_step d p = (Inr (), finish_task b outcome q)
    \<and> proxy_frame q = proxy_frame (p\<lparr>px_queue := later\<rparr>)"
proof -
  let ?p = "p\<lparr>px_queue := later\<rparr>"
  obtain r q where q: "distribute_section d section_id ?p = (r, q)" by force
  have "proxy_frame q = proxy_frame ?p"
    using keepsD [OF same_distribute_section [of "proxy_frame ?p" d section_id], of ?p] q by (simp add: same_def)
  moreover have "\<exists>outcome. worker_step d p = (Inr (), finish_task b outcome q)"
    using assms q by (cases r) (auto simp: worker_step_def bindS_def tryS_def getS_def modifyS_def returnS_def)
  ultimately show ?thesis by blast
qed

lemma proxy_frame_pipeline:
  assumes "proxy_frame q = proxy_frame p"
  shows "px_queue q = px_queue p" "px_pending_bytes q = px_pending_bytes p"
    "px_worker_error q = px_worker_error p" "px_section_result q = px_section_result p"
    "px_failure q = px_failure p" "px_dispatch_complete q = px_dispatch_complete p"
    "px_schedule q = px_schedule p" "h_files q = h_files p" "px_central q = px_central p"
    "px_central_fd q = px_central_fd p" "map rv_receiver_endpoint (px_receivers q) = map rv_receiver_endpoint (px_receivers p)"
  using assms by (simp_all add: proxy_frame_def)

text \<open>A task of the worker is two steps: it is taken, and booked as done or failed.\<close>

lemma worker_step_simulates:
  "\<exists>finished'. dispatch_steps low high (dispatch_of todo finished p)
     (dispatch_of todo finished' (snd (worker_step d p)))"
proof (cases "px_queue p = [] \<or> px_worker_error p \<noteq> None")
  case True
  then show ?thesis using worker_step_idle [OF True, of d] by auto
next
  case False
  then obtain section_id b later where q: "px_queue p = (section_id, b) # later" and ok: "px_worker_error p = None"
    by (cases "px_queue p") auto
  from worker_step_runs [OF this] obtain outcome q where
    run: "worker_step d p = (Inr (), finish_task b outcome q)"
    and frame: "proxy_frame q = proxy_frame (p\<lparr>px_queue := later\<rparr>)" by blast
  note fields = proxy_frame_pipeline [OF frame]
  let ?s = "dispatch_of todo finished p" and ?t = "(section_id, b)"
  let ?u = "?s\<lparr>dq_queue := later, dq_running := Some ?t\<rparr>"
  have taken: "dispatch_step low high ?s ?u"
    using q ok by (intro take_task) (simp_all add: dispatch_of_def)
  have "\<exists>finished'. dispatch_step low high ?u (dispatch_of todo finished' (finish_task b outcome q))"
  proof (cases "px_worker_error (finish_task b outcome q) = None")
    case True
    have eq: "?u\<lparr>dq_running := None, dq_pending := dq_pending ?u - snd ?t, dq_done := dq_done ?u @ [?t]\<rparr>
        = dispatch_of todo (finished @ [?t]) (finish_task b outcome q)"
      using True fields ok by (cases outcome) (simp_all add: dispatch_of_def finish_task_def split: if_splits)
    have "dispatch_step low high ?u (dispatch_of todo (finished @ [?t]) (finish_task b outcome q))"
      unfolding eq [symmetric] by (rule task_done) simp
    then show ?thesis by blast
  next
    case False
    have eq: "?u\<lparr>dq_running := None, dq_pending := dq_pending ?u - snd ?t,
        dq_failed := True, dq_cancel := True, dq_exited := True\<rparr> = dispatch_of todo finished (finish_task b outcome q)"
      using False fields ok by (cases outcome) (simp_all add: dispatch_of_def finish_task_def split: if_splits)
    have "dispatch_step low high ?u (dispatch_of todo finished (finish_task b outcome q))"
      unfolding eq [symmetric] by (rule task_failed) simp
    then show ?thesis by blast
  qed
  then obtain finished' where "dispatch_step low high ?u (dispatch_of todo finished' (finish_task b outcome q))" ..
  from dispatch_two_steps [OF taken this] run show ?thesis by auto
qed

lemma worker_steps_simulate:
  "\<exists>finished'. dispatch_steps low high (dispatch_of todo finished p)
     (dispatch_of todo finished' (snd (worker_steps n d p)))"
proof (induction n arbitrary: finished p)
  case 0
  then show ?case by (auto simp: eff_run)
next
  case (Suc n)
  have ok: "fst (worker_step d p) = Inr ()"
    using worker_step_idle [of p d] worker_step_runs [of p _ _ _ d] by (cases "px_queue p") force+
  obtain f1 where "dispatch_steps low high (dispatch_of todo finished p) (dispatch_of todo f1 (snd (worker_step d p)))"
    using worker_step_simulates by blast
  moreover obtain f2 where "dispatch_steps low high (dispatch_of todo f1 (snd (worker_step d p)))
      (dispatch_of todo f2 (snd (worker_steps n d (snd (worker_step d p)))))"
    using Suc by blast
  moreover have "snd (worker_steps (Suc n) d p) = snd (worker_steps n d (snd (worker_step d p)))"
    using ok by (simp add: bindS_run)
  ultimately show ?case by (metis rtranclp_trans)
qed

lemma worker_runs_simulate:
  "\<exists>finished'. dispatch_steps low high (dispatch_of todo finished p)
     (dispatch_of todo finished' (snd (worker_runs d p)))"
proof -
  have "dispatch_of todo finished (p\<lparr>px_schedule := x\<rparr>) = dispatch_of todo finished p" for x
    by (simp add: dispatch_of_def)
  then show ?thesis
    using worker_steps_simulate [of low high todo finished "p\<lparr>px_schedule := tl (px_schedule p)\<rparr>"]
    by (simp add: worker_runs_def eff_step)
qed

lemma worker_steps_return: "fst (worker_steps n d p) = Inr ()"
proof (induction n arbitrary: p)
  case 0
  then show ?case by (simp add: returnS_run)
next
  case (Suc n)
  have "fst (worker_step d p) = Inr ()"
    using worker_step_idle [of p d] worker_step_runs [of p _ _ _ d] by (cases "px_queue p") force+
  with Suc show ?case by (simp add: bindS_run)
qed

text \<open>The wait ends with room in the queue or with the worker's failure, because an empty queue has no
  pending bytes.\<close>

definition queue_ok :: "u64 \<Rightarrow> proxy \<Rightarrow> bool" where
  "queue_ok high p \<longleftrightarrow> queued_bytes (px_queue p) = unat (px_pending_bytes p) \<and> px_pending_bytes p \<le> high"

lemma worker_step_queue_ok: "queue_ok high p \<Longrightarrow> queue_ok high (snd (worker_step d p))"
proof (cases "px_queue p = [] \<or> px_worker_error p \<noteq> None")
  case True
  moreover assume "queue_ok high p"
  ultimately show ?thesis using worker_step_idle [OF True, of d] by simp
next
  case False
  moreover assume ok: "queue_ok high p"
  ultimately obtain section_id b later where q: "px_queue p = (section_id, b) # later" and err: "px_worker_error p = None"
    by (cases "px_queue p") auto
  from worker_step_runs [OF this] obtain outcome q where
    run: "worker_step d p = (Inr (), finish_task b outcome q)"
    and frame: "proxy_frame q = proxy_frame (p\<lparr>px_queue := later\<rparr>)" by blast
  have sum: "unat b + queued_bytes later = unat (px_pending_bytes p)" using ok q by (simp add: queue_ok_def)
  then have "b \<le> px_pending_bytes p" by (simp add: word_le_nat_alt)
  then have "unat (px_pending_bytes p - b) = unat (px_pending_bytes p) - unat b" by (rule unat_sub)
  moreover have "unat (px_pending_bytes p) \<le> unat high" using ok by (simp add: queue_ok_def word_le_nat_alt)
  ultimately have "queued_bytes later = unat (px_pending_bytes p - b)" "px_pending_bytes p - b \<le> high"
    using sum unfolding word_le_nat_alt by linarith+
  then show ?thesis
    using run proxy_frame_pipeline(1,2) [OF frame] by (cases outcome) (simp_all add: queue_ok_def finish_task_def)
qed

lemma worker_step_length:
  "px_worker_error p = None \<Longrightarrow> length (px_queue (snd (worker_step d p))) = length (px_queue p) - 1"
proof (cases "px_queue p")
  case Nil
  then show ?thesis using worker_step_idle [of p d] by simp
next
  case (Cons t later)
  moreover assume "px_worker_error p = None"
  ultimately obtain outcome q where "worker_step d p = (Inr (), finish_task (snd t) outcome q)"
    "proxy_frame q = proxy_frame (p\<lparr>px_queue := later\<rparr>)"
    using worker_step_runs [of p "fst t" "snd t" later d] by auto
  then show ?thesis using Cons proxy_frame_pipeline(1) [of q "p\<lparr>px_queue := later\<rparr>"]
    by (cases outcome) (simp_all add: finish_task_def)
qed

lemma wait_for_low_ends:
  assumes "queue_ok high p" and "length (px_queue p) \<le> n"
  shows "\<exists>q. wait_for_low n d low p = (Inr (), q) \<and> queue_ok high q
    \<and> (px_worker_error q \<noteq> None \<or> px_pending_bytes q \<le> low)
    \<and> (\<exists>finished'. dispatch_steps low high (dispatch_of todo finished p) (dispatch_of todo finished' q))"
  using assms
proof (induction n arbitrary: p finished)
  case 0
  then have "unat (px_pending_bytes p) = 0" by (simp add: queue_ok_def)
  then have "px_pending_bytes p = 0" by (simp only: unat_eq_zero)
  with 0 show ?case by (subst wait_for_low.simps) (auto simp: eff_run)
next
  case (Suc n)
  show ?case
  proof (cases "px_worker_error p \<noteq> None \<or> px_pending_bytes p \<le> low")
    case True
    then have "wait_for_low (Suc n) d low p = (Inr (), p)"
      by (subst wait_for_low.simps) (simp add: eff_run)
    with True Suc.prems(1) show ?thesis by blast
  next
    case False
    let ?p = "snd (worker_step d p)"
    have "worker_step d p = (Inr (), ?p)"
      using worker_steps_return [of 1 d p] by (simp add: bindS_run returnS_run prod_eq_iff split: sum.splits)
    then have run: "wait_for_low (Suc n) d low p = wait_for_low n d low ?p"
      using False by (subst wait_for_low.simps) (simp add: eff_step)
    obtain f1 where f1: "dispatch_steps low high (dispatch_of todo finished p) (dispatch_of todo f1 ?p)"
      using worker_step_simulates by blast
    have "length (px_queue ?p) \<le> n" using worker_step_length [of p d] False Suc.prems(2) by simp
    from Suc.IH [OF worker_step_queue_ok [OF Suc.prems(1)] this, of f1] run f1 show ?thesis
      by (auto intro: rtranclp_trans)
  qed
qed

lemma worker_steps_queue_ok: "queue_ok high p \<Longrightarrow> queue_ok high (snd (worker_steps n d p))"
proof (induction n arbitrary: p)
  case 0
  then show ?case by (simp add: returnS_run)
next
  case (Suc n)
  then show ?case using worker_step_queue_ok [OF Suc.prems] by (simp add: bindS_run split: sum.split)
qed

lemma worker_runs_queue_ok: "queue_ok high p \<Longrightarrow> queue_ok high (snd (worker_runs d p))"
  using worker_steps_queue_ok [of high "p\<lparr>px_schedule := tl (px_schedule p)\<rparr>"]
  by (simp add: worker_runs_def eff_step queue_ok_def)

lemma worker_runs_return: "fst (worker_runs d p) = Inr ()"
  by (simp add: worker_runs_def eff_step worker_steps_return)

text \<open>A Section has at most the bytes the watermarks are made of, and these do not wrap.\<close>

lemma section_bytes_bound:
  assumes "section_bytes meta section_id = Inr b" and "cfm_block_size meta = of_nat kPayloadSize"
    and "exact_blocks (cfm_file_size meta) (cfm_total_blocks meta)"
  shows "b \<le> maximum_section_bytes meta"
proof -
  let ?tot = "cfm_total_blocks meta" and ?sb = "cfm_section_block_count meta" and ?fs = "cfm_file_size meta"
  from assms(1) obtain first n where f: "section_first_block section_id ?sb = Inr first"
    "section_block_count ?tot section_id ?sb = Inr n"
    and b: "b = min (ucast n * ucast (cfm_block_size meta)) (?fs - ucast first * ucast (cfm_block_size meta))"
    by (auto simp: section_bytes_def bindE_Inr_iff)
  from section_block_count_Inr [OF f(2)] f(1) have n: "n \<le> ?sb" and first: "first < ?tot" by auto
  have bs: "ucast x * ucast (cfm_block_size meta) = block_offset x" for x :: u32
    by (simp add: assms(2) block_offset_def kPayloadSize_def)
  have "block_offset first \<le> ?fs"
    using block_inside [OF assms(3) first] by (simp add: word_le_nat_alt unat_block_offset)
  then have "?fs - block_offset first \<le> ?fs" by (simp add: word_le_nat_alt unat_sub)
  moreover have "block_offset n \<le> block_offset ?sb"
    using n by (simp add: word_le_nat_alt unat_block_offset)
  ultimately show ?thesis
    unfolding maximum_section_bytes_def b bs by (auto simp: min_def)
qed

lemma watermarks:
  assumes "cfm_block_size meta = of_nat kPayloadSize"
  shows "unat (low_watermark meta) = 2 * unat (maximum_section_bytes meta)"
    and "unat (high_watermark meta) = 4 * unat (maximum_section_bytes meta)"
    and "unat (high_watermark meta) + unat (maximum_section_bytes meta) < 2 ^ 64"
proof -
  have "maximum_section_bytes meta \<le> block_offset (cfm_section_block_count meta)"
    by (simp add: maximum_section_bytes_def assms block_offset_def kPayloadSize_def)
  then have "unat (maximum_section_bytes meta) \<le> unat (cfm_section_block_count meta) * 1200"
    by (simp add: word_le_nat_alt unat_block_offset kPayloadSize_def)
  then have small: "unat (maximum_section_bytes meta) < 4294967296 * 1200"
    using unat_u32_less [of "cfm_section_block_count meta"] by linarith
  then show "unat (low_watermark meta) = 2 * unat (maximum_section_bytes meta)"
    and high: "unat (high_watermark meta) = 4 * unat (maximum_section_bytes meta)"
    by (simp_all add: low_watermark_def high_watermark_def unat_word_ariths)
  show "unat (high_watermark meta) + unat (maximum_section_bytes meta) < 2 ^ 64"
    using small by (simp add: high)
qed

text \<open>C35: Queueing a Section in the program is a run of the abstract pipeline: when
  \<open>enqueue_section\<close> returns, the tasks the worker finished meanwhile, the wait for the low watermark
  and the new task are steps of the two threads, from the state with this Section as the
  producer's next task to the state without it; the queue's account of pending bytes stays exact
  and within the high watermark.\<close>

theorem enqueue_section_refines:
  assumes "enqueue_section d meta section_id p = (Inr (), q)" and "queue_ok (high_watermark meta) p"
    and "section_bytes meta section_id = Inr b" and "cfm_block_size meta = of_nat kPayloadSize"
    and "exact_blocks (cfm_file_size meta) (cfm_total_blocks meta)"
  shows "queue_ok (high_watermark meta) q \<and> (\<exists>finished'. dispatch_steps (low_watermark meta) (high_watermark meta)
    (dispatch_of ((section_id, b) # todo) finished p) (dispatch_of todo finished' q))"
proof -
  let ?low = "low_watermark meta" and ?high = "high_watermark meta" and ?t = "(section_id, b)"
  note w = watermarks [OF assms(4)] and b = section_bytes_bound [OF assms(3-5)]
  obtain u where u: "worker_runs d p = (Inr (), u)" using worker_runs_return [of d p] by (metis prod.collapse)
  have ok_u: "queue_ok ?high u" using worker_runs_queue_ok [OF assms(2), of d] u by simp
  obtain f1 where f1: "dispatch_steps ?low ?high (dispatch_of (?t # todo) finished p) (dispatch_of (?t # todo) f1 u)"
    using worker_runs_simulate [of ?low ?high "?t # todo" finished p d] u by auto
  let ?push = "\<lambda>v. v\<lparr>px_queue := px_queue v @ [?t], px_pending_bytes := px_pending_bytes v + b\<rparr>"
  have pushed: "queue_ok ?high (?push v)" if "queue_ok ?high v" "unat (px_pending_bytes v) + unat b \<le> unat ?high" for v
    using that pending_push [OF that(2)] by (simp add: queue_ok_def)
  have abs: "push_task ?t todo (dispatch_of (?t # todo) f v) = dispatch_of todo f (?push v)" for f v
    by (simp add: push_task_def dispatch_of_def Let_def)
  have step: "dispatch_steps ?low ?high (dispatch_of (?t # todo) f v) (dispatch_of todo f (?push v))"
    if "px_worker_error v = None" "\<not> px_pending_bytes v + b > ?high" for f v
  proof (rule r_into_rtranclp)
    show "dispatch_step ?low ?high (dispatch_of (?t # todo) f v) (dispatch_of todo f (?push v))"
      unfolding abs [symmetric] using that by (intro queue_task) (simp_all add: dispatch_of_def)
  qed
  show ?thesis
  proof (cases "px_pending_bytes u + b > ?high")
    case False
    then have run: "px_worker_error u = None" "q = ?push u"
      using assms(1,3) u by (auto simp: enqueue_section_def eff_step rethrow_worker_error_def modifyS_run liftE_run
          bindS_modifyS split: option.splits)
    have "unat (px_pending_bytes u) \<le> unat ?high" using ok_u by (simp add: queue_ok_def word_le_nat_alt)
    then have "unat (px_pending_bytes u + b) = unat (px_pending_bytes u) + unat b"
      using b w(3) by (simp add: word_le_nat_alt unat_word_ariths)
    then have "unat (px_pending_bytes u) + unat b \<le> unat ?high" using False by (simp add: word_less_nat_alt)
    from pushed [OF ok_u this] step [OF run(1) False] f1 run(2) show ?thesis
      by (auto intro: rtranclp_trans)
  next
    case True
    obtain v f2 where v: "wait_for_low (length (px_queue u)) d ?low u = (Inr (), v)" "queue_ok ?high v"
      "px_worker_error v \<noteq> None \<or> px_pending_bytes v \<le> ?low"
      and f2: "dispatch_steps ?low ?high (dispatch_of (?t # todo) f1 u) (dispatch_of (?t # todo) f2 v)"
      using wait_for_low_ends [OF ok_u order_refl, of d ?low "?t # todo" f1] by blast
    have run: "px_worker_error v = None" "q = ?push v"
      using assms(1,3) u v(1) True by (auto simp: enqueue_section_def eff_step rethrow_worker_error_def modifyS_run liftE_run
          bindS_modifyS split: option.splits)
    have room: "unat (px_pending_bytes v) + unat b \<le> unat ?high"
      using v(3) run(1) b w(1,2) by (simp add: word_le_nat_alt)
    then have "\<not> px_pending_bytes v + b > ?high"
      using pending_push [OF room] by simp
    from rtranclp_trans [OF rtranclp_trans [OF f1 f2] step [OF run(1) this]] pushed [OF v(2) room] run(2)
    show ?thesis by blast
  qed
qed

text \<open>C36: The end of the pipeline is a run of it as well: when \<open>complete_dispatch\<close> returns without an
  exception, every queued Section has been taken and booked, nothing is queued or pending, and no
  task failed.\<close>

theorem complete_dispatch_refines:
  assumes "complete_dispatch d p = (Inr (), q)" and "queue_ok high p"
  shows "px_queue q = [] \<and> px_pending_bytes q = 0 \<and> px_worker_error q = None
    \<and> (\<exists>finished'. dispatch_steps low high (dispatch_of todo finished p) (dispatch_of todo finished' q))"
proof -
  have "worker_steps (length (px_queue p)) d p = (Inr (), snd (worker_steps (length (px_queue p)) d p))"
    using worker_steps_return [of "length (px_queue p)" d p] by (simp add: prod_eq_iff)
  with assms(1) have q: "q = snd (worker_steps (length (px_queue p)) d p)" and err: "px_worker_error q = None"
    by (auto simp: complete_dispatch_def eff_step rethrow_worker_error_def modifyS_run liftE_run returnS_run
        bindS_modifyS getS_run split: option.splits)
  have "px_queue (snd (worker_steps n d p)) = []"
    if "px_worker_error (snd (worker_steps n d p)) = None" "length (px_queue p) \<le> n" for n
    using that
  proof (induction n arbitrary: p)
    case 0
    then show ?case by (simp add: returnS_run)
  next
    case (Suc n)
    have run: "worker_steps (Suc n) d p = worker_steps n d (snd (worker_step d p))"
      using worker_steps_return [of 1 d p] by (simp add: bindS_run returnS_run split: sum.splits)
    show ?case
    proof (cases "px_worker_error p")
      case None
      then have "length (px_queue (snd (worker_step d p))) \<le> n" using worker_step_length [of p d] Suc.prems(2) by simp
      with Suc.IH Suc.prems(1) run show ?thesis by simp
    next
      case (Some e)
      have "worker_steps k d p = (Inr (), p)" for k
        using worker_step_idle [of p d] Some by (induction k) (simp_all add: eff_run)
      with Suc.prems(1) Some show ?thesis by (metis option.distinct(1) snd_conv)
    qed
  qed
  with q err have empty: "px_queue q = []" by simp
  have "queue_ok high q" using worker_steps_queue_ok [OF assms(2)] q by simp
  then have "unat (px_pending_bytes q) = 0" using empty by (simp add: queue_ok_def)
  then have "px_pending_bytes q = 0" by (simp only: unat_eq_zero)
  with empty err q worker_steps_simulate show ?thesis by blast
qed

section \<open>An example\<close>

text \<open>A file of three bytes, one block, one Section, and no receiver left to serve.\<close>

definition example_cache_meta :: CentralFileMetaMessage where
  "example_cache_meta = \<lparr>cfm_transfer_id = 9, cfm_file_size = 3, cfm_block_size = 1200, cfm_total_blocks = 1,
     cfm_section_block_count = 1, cfm_file_name = ''f'', cfm_sha256 = replicate 32 0\<rparr>"

definition example_delivery :: delivery where
  "example_delivery = \<lparr>dl_multicast_destination = (0xE0000001, 9000), dl_file_path = ''f'', dl_file_size = 3,
     dl_transfer_id = 9, dl_total_blocks = 1, dl_digest = replicate 32 0, dl_max_repair_rounds = 2,
     dl_section_block_limit = 1, dl_repair_mode = RM_Baseline\<rparr>"

definition example_proxy :: proxy where
  "example_proxy = \<lparr>h_files = (\<lambda>_. None)(''f'' := Some [1, 2, 3]), h_events = [], h_clock = 0,
     h_frames = [], h_packets = [], h_getenv = (\<lambda>_. None), h_statvfs = (\<lambda>_. Inl ''none''),
     h_scan = (\<lambda>_. Inl ''none''), px_receivers = [], px_wakes = [], px_pending = [], px_polls = (\<lambda>_. []),
     px_random = [], px_central_fd = 5, px_central = [], px_queue = [(0, 3)], px_pending_bytes = 3,
     px_worker_error = None, px_section_result = DR_Success, px_failure = None,
     px_dispatch_complete = False, px_schedule = [0]\<rparr>"

lemma example_cache_meta_fields [simp]:
  "cfm_file_size example_cache_meta = 3" "cfm_block_size example_cache_meta = 1200"
  "cfm_total_blocks example_cache_meta = 1" "cfm_section_block_count example_cache_meta = 1"
  by (simp_all add: example_cache_meta_def)

lemma example_section: "section_first_block 0 1 = Inr 0" "section_block_count 1 0 1 = Inr 1"
  "section_count_for_blocks 1 1 = Inr 1" "local_blocks 1 = [0]"
  by (simp_all add: section_defs local_blocks_def)

lemma example_section_bytes: "section_bytes example_cache_meta 0 = Inr 3"
  by (simp add: section_bytes_def example_section)

lemma example_maximum: "maximum_section_bytes example_cache_meta = 3"
  by (simp add: maximum_section_bytes_def)

lemma example_queue_ok: "queue_ok (high_watermark example_cache_meta) example_proxy"
  by (simp add: queue_ok_def example_proxy_def high_watermark_def example_maximum)

lemma example_exact: "exact_blocks 3 1"
  by (simp add: exact_blocks_def kPayloadSize_def)

text \<open>Distributing the Section sends its one block.\<close>

lemma no_receivers:
  assumes "px_receivers s = []"
  shows "for_receivers body s = (Inr (), s)" "send_end_round d section_id round_id s = (Inr (), s)"
    "set_receivers reset_round_state s = (Inr (), s)"
    "wait_for_all timeout (\<lambda>rs. round_responses_complete rs final_section) should_watch op handle s = (Inr True, s)"
proof -
  have same: "s\<lparr>px_receivers := []\<rparr> = s" using assms by simp
  show all: "for_receivers body s = (Inr (), s)" for body
    using assms by (simp add: for_receivers_def eff_run)
  show "send_end_round d section_id round_id s = (Inr (), s)"
    by (simp add: send_end_round_def send_to_participants_def all)
  show "set_receivers reset_round_state s = (Inr (), s)"
    using assms same by (simp add: set_receivers_def modifyS_run reset_round_state_def)
  show "wait_for_all timeout (\<lambda>rs. round_responses_complete rs final_section) should_watch op handle s = (Inr True, s)"
    using assms by (simp add: wait_for_all_def eff_step, subst wait_until.simps) (simp add: eff_step returnS_run)
qed

lemma example_distribute:
  "\<exists>packet. distribute_section example_delivery 0 (p\<lparr>h_files := (\<lambda>_. None)(''f'' := Some [1, 2, 3]), h_events := [],
      h_getenv := (\<lambda>_. None), px_receivers := []\<rparr>)
    = (Inr DR_Success, p\<lparr>h_files := (\<lambda>_. None)(''f'' := Some [1, 2, 3]), h_events := [],
      h_getenv := (\<lambda>_. None), px_receivers := [],
      h_packets := h_packets p @ [((0xE0000001, 9000), packet)]\<rparr>)"
proof -
  let ?p = "p\<lparr>h_files := (\<lambda>_. None)(''f'' := Some [1, 2, 3]), h_events := [],
      h_getenv := (\<lambda>_. None), px_receivers := []\<rparr>"
  obtain packet where packet: "encode_data 9 0 0 0 [1, 2, 3] 3 (crc32 [1, 2, 3]) = Inr packet" "packet \<noteq> []"
    by (simp add: encode_data_def kPayloadSize_def)
  have data: "data_packet example_delivery 0 0 ?p = (Inr packet, ?p)"
    using packet by (simp add: data_packet_def example_delivery_def eff_run read_block_of_def read_block_def
        file_content_def c_str_def content_or_empty_def block_offset_def wanted_size_def kPayloadSize_def)
  let ?q = "?p\<lparr>h_packets := h_packets p @ [((0xE0000001, 9000), packet)]\<rparr>"
  have sent: "send_udp_packet (0xE0000001, 9000) packet ?p = (Inr (), ?q)"
    by (simp add: send_udp_packet_def)
  have round: "collect_round_reports example_delivery 0 0 ?q = (Inr (), ?q)"
    by (simp add: collect_round_reports_def no_receivers example_delivery_def
        example_section eff_step returnS_run Let_def)
  have isolated: "isolate example_delivery 0 0 2 ?q = (Inr (), ?q)"
    by (simp add: isolate_def eff_step isolate_slow_receivers_def example_delivery_def example_section
        set_receivers_def modifyS_run)
  have initial: "send_initial_block example_delivery 0 [] [] 0 0 ?p = (Inr (), ?q)"
    using data sent by (simp add: send_initial_block_def eff_step example_delivery_def returnS_run whenS_run)
  have env: "backfill_rounds (\<lambda>_. None) 2 = Inr 2" "parse_block_set_env (\<lambda>_. None) name = Inr []"
    "\<not> env_flag_enabled (\<lambda>_. None) name" for name
    by (simp_all add: backfill_rounds_def env_number_def parse_block_set_env_def env_flag_enabled_def)
  have fields: "dl_section_block_limit example_delivery = 1" "dl_total_blocks example_delivery = 1"
    "dl_max_repair_rounds example_delivery = 2"
    by (simp_all add: example_delivery_def)
  have rounds: "repair_rounds example_delivery 0 2 ks ?q = (Inr None, ?q)" for ks
    by (cases ks) (simp_all add: eff_step all_receivers_completed_def returnS_run)
  have "distribute_section example_delivery 0 ?p = (Inr DR_Success, ?q)"
    unfolding distribute_section_def
    by (simp add: eff_step fields example_section env initial no_receivers round receiver_reported_sha_mismatch_def
        isolated rounds section_done_def returnS_run)
  then show ?thesis by blast
qed

lemma example_worker: "\<exists>packet. complete_dispatch example_delivery example_proxy
    = (Inr (), example_proxy\<lparr>px_queue := [], px_pending_bytes := 0,
        h_packets := [((0xE0000001, 9000), packet)]\<rparr>)"
proof -
  have same: "example_proxy\<lparr>px_queue := []\<rparr>\<lparr>h_files := (\<lambda>_. None)(''f'' := Some [1, 2, 3]), h_events := [],
      h_getenv := (\<lambda>_. None), px_receivers := []\<rparr> = example_proxy\<lparr>px_queue := []\<rparr>"
    by (simp add: example_proxy_def)
  obtain packet where "distribute_section example_delivery 0 (example_proxy\<lparr>px_queue := []\<rparr>)
      = (Inr DR_Success, example_proxy\<lparr>px_queue := [], h_packets := [((0xE0000001, 9000), packet)]\<rparr>)"
    using example_distribute [of "example_proxy\<lparr>px_queue := []\<rparr>"]
    by (simp add: example_proxy_def) blast
  then have "worker_step example_delivery example_proxy = (Inr (), example_proxy\<lparr>px_queue := [],
      px_pending_bytes := 0, h_packets := [((0xE0000001, 9000), packet)]\<rparr>)"
    by (simp add: worker_step_def eff_step tryS_def finish_task_def example_proxy_def returnS_run modifyS_run)
  then have "complete_dispatch example_delivery example_proxy = (Inr (), example_proxy\<lparr>px_queue := [],
      px_pending_bytes := 0, h_packets := [((0xE0000001, 9000), packet)]\<rparr>)"
    by (simp add: complete_dispatch_def eff_step example_proxy_def returnS_run)
  then show ?thesis by blast
qed

theorem enqueue_section_refines_witness:
  "\<exists>q. enqueue_section example_delivery example_cache_meta 0 example_proxy = (Inr (), q)
    \<and> queue_ok (high_watermark example_cache_meta) q
    \<and> (\<exists>finished'. dispatch_steps (low_watermark example_cache_meta) (high_watermark example_cache_meta)
        (dispatch_of [(0, 3)] [] example_proxy) (dispatch_of [] finished' q))"
proof -
  have "enqueue_section example_delivery example_cache_meta 0 example_proxy
      = (Inr (), example_proxy\<lparr>px_schedule := [], px_queue := [(0, 3), (0, 3)], px_pending_bytes := 6\<rparr>)"
    by (simp add: enqueue_section_def worker_runs_def example_section_bytes high_watermark_def example_maximum
        eff_step returnS_run modifyS_run example_proxy_def)
  then obtain q where q: "enqueue_section example_delivery example_cache_meta 0 example_proxy = (Inr (), q)" by blast
  from enqueue_section_refines [OF this example_queue_ok example_section_bytes, of "[]" "[]"] q example_exact
  show ?thesis by (auto simp: kPayloadSize_def)
qed

theorem complete_dispatch_refines_witness:
  "\<exists>q. complete_dispatch example_delivery example_proxy = (Inr (), q)
    \<and> px_queue q = [] \<and> px_pending_bytes q = 0 \<and> px_worker_error q = None
    \<and> (\<exists>finished'. dispatch_steps 6 (high_watermark example_cache_meta)
        (dispatch_of [] [] example_proxy) (dispatch_of [] finished' q))"
proof -
  obtain q where q: "complete_dispatch example_delivery example_proxy = (Inr (), q)"
    using example_worker by blast
  from complete_dispatch_refines [OF this example_queue_ok, of 6 "[]" "[]"] q show ?thesis by auto
qed

end
