(* ===== verification/Central_Cache.thy ===== *)
theory Central_Cache
  imports Central_Dispatch
begin

text \<open>
  \<open>receive_cached_file_from_central\<close> of \<open>src/sender.cpp\<close>: the proxy receives a file from the central
  sender into a temporary file, Section by Section, confirms each complete Section, lets the worker
  of \<open>Central_Dispatch\<close> distribute it, and commits the whole file after checking its digest.

  \<open>cache\<close> holds the local variables of the receive loop; \<open>central_job\<close> what is fixed once
  CENTRAL_FILE_META has been accepted. Frames of the central sender come from \<open>px_central\<close>.
\<close>

record central_job =
  cj_meta :: CentralFileMetaMessage
  cj_delivery :: delivery
  cj_final_path :: string
  cj_temporary_path :: string
  cj_checkpoint_path :: string
  cj_section_count :: u32

record cache =
  ca_received :: bytes
  ca_received_count :: u32
  ca_duplicate_count :: u64
  ca_rejected_count :: u64
  ca_next_section_id :: u32

record cached_file =
  cc_path :: string
  cc_transfer_id :: u64
  cc_file_size :: u64
  cc_total_blocks :: u32
  cc_sha256 :: bytes

definition send_central :: "bytes \<Rightarrow> unit px" where
  "send_central frame = bindS (getS px_central_fd) (\<lambda>fd. send_frame fd frame)"

definition send_central_status :: "CentralFileMetaMessage \<Rightarrow> CentralStatusCode \<Rightarrow> bytes \<Rightarrow> unit px" where
  "send_central_status meta status sha256 =
     send_central (encode_central_status \<lparr>cs_transfer_id = cfm_transfer_id meta, cs_status = status,
       cs_file_size = cfm_file_size meta, cs_sha256 = sha256\<rparr>)"

definition receive_central :: "bytes px" where
  "receive_central p = (case px_central p of
      [] \<Rightarrow> (throw ''control connection closed'', p)
    | received # later \<Rightarrow> (received, p\<lparr>px_central := later\<rparr>))"

section \<open>A block\<close>

text \<open>CENTRAL_DATA is stored when it is a block of the Section being received with the offset, size and
  checksum it must have; a block that is there already is counted and left alone.\<close>

definition central_block_size :: "CentralFileMetaMessage \<Rightarrow> u32 \<Rightarrow> u16" where
  "central_block_size meta block_id =
     ucast (min (ucast (cfm_block_size meta)) (cfm_file_size meta - ucast block_id * ucast (cfm_block_size meta)) :: u64)"

definition central_data_fits :: "CentralFileMetaMessage \<Rightarrow> CentralDataMessage \<Rightarrow> bool" where
  "central_data_fits meta data \<longleftrightarrow>
     \<not> (cd_offset data \<noteq> ucast (cd_block_id data) * ucast (cfm_block_size meta)
        \<or> cd_payload_size data \<noteq> central_block_size meta (cd_block_id data)
        \<or> cd_offset data + ucast (cd_payload_size data) > cfm_file_size meta
        \<or> crc32 (cd_payload data) \<noteq> cd_crc32 data)"

definition reject :: "cache \<Rightarrow> cache" where
  "reject c = c\<lparr>ca_rejected_count := ca_rejected_count c + 1\<rparr>"

definition cache_block :: "central_job \<Rightarrow> CentralDataMessage \<Rightarrow> cache \<Rightarrow> cache px" where
  "cache_block job data c =
     (let meta = cj_meta job; b = unat (cd_block_id data) in
      if cd_transfer_id data \<noteq> cfm_transfer_id meta \<or> cd_block_id data \<ge> cfm_total_blocks meta
         \<or> cd_section_id data \<noteq> ca_next_section_id c
      then returnS (reject c)
      else
        bindS (liftE (section_id_for_block (cd_block_id data) (cfm_section_block_count meta))) (\<lambda>section_id.
        if cd_section_id data \<noteq> section_id then returnS (reject c)
        else if \<not> central_data_fits meta data then returnS (reject c)
        else if ca_received c ! b \<noteq> 0
        then returnS (c\<lparr>ca_duplicate_count := ca_duplicate_count c + 1\<rparr>)
        else
          bindS (write_all_at (cj_temporary_path job) (cd_payload data) (cd_offset data)) (\<lambda>_.
          returnS (c\<lparr>ca_received := (ca_received c)[b := 1], ca_received_count := ca_received_count c + 1\<rparr>))))"

section \<open>The end of a Section\<close>

definition section_complete :: "bytes \<Rightarrow> u32 \<Rightarrow> u32 \<Rightarrow> bool" where
  "section_complete received first_block section_blocks =
     list_all (\<lambda>local_block. received ! unat (first_block + local_block) \<noteq> 0) (local_blocks section_blocks)"

definition end_is_clean :: "central_job \<Rightarrow> CentralFileEndMessage \<Rightarrow> cache \<Rightarrow> bool" where
  "end_is_clean job e c \<longleftrightarrow>
     \<not> (cfe_transfer_id e \<noteq> cfm_transfer_id (cj_meta job) \<or> cfe_total_blocks e \<noteq> cfm_total_blocks (cj_meta job)
        \<or> cfe_section_id e \<noteq> ca_next_section_id c \<or> cfe_section_id e \<ge> cj_section_count job
        \<or> ca_rejected_count c \<noteq> 0)"

text \<open>Everything up to the confirmation: on stable storage, in the checkpoint unless it is the last
  Section, and queued for distribution.\<close>

definition commit_section :: "central_job \<Rightarrow> u32 \<Rightarrow> unit px" where
  "commit_section job section_id =
     bindS (syscall ''fsync central cache section'') (\<lambda>_.
     bindS (whenS (section_id + 1 \<noteq> cj_section_count job)
              (save_central_checkpoint (cj_checkpoint_path job) (cj_meta job) (section_id + 1))) (\<lambda>_.
     enqueue_section (cj_delivery job) (cj_meta job) section_id))"

text \<open>The new local variables, or \<open>None\<close> when this was the last Section.\<close>

definition cache_section_end :: "central_job \<Rightarrow> CentralFileEndMessage \<Rightarrow> cache \<Rightarrow> cache option px" where
  "cache_section_end job e c =
     (let meta = cj_meta job; section_id = cfe_section_id e in
      if \<not> end_is_clean job e c then fail_after_meta ''central transfer did not complete cleanly'' no_digest
      else
        bindS (liftE (section_first_block section_id (cfm_section_block_count meta))) (\<lambda>first_block.
        bindS (liftE (section_block_count (cfm_total_blocks meta) section_id (cfm_section_block_count meta)))
          (\<lambda>section_blocks.
        if \<not> section_complete (ca_received c) first_block section_blocks
        then fail_after_meta ''central section has missing blocks'' no_digest
        else
          bindS (commit_section job section_id) (\<lambda>_.
          if section_id + 1 = cj_section_count job then returnS None
          else
            bindS (send_central_status meta CS_Cached no_digest) (\<lambda>_.
            returnS (Some (c\<lparr>ca_next_section_id := section_id + 1\<rparr>)))))))"

section \<open>The complete file\<close>

text \<open>The digest is checked before the file gets its final name.\<close>

definition commit_cached_file :: "(bytes \<Rightarrow> bytes) \<Rightarrow> central_job \<Rightarrow> cache \<Rightarrow> bytes px" where
  "commit_cached_file sha job c =
     (let meta = cj_meta job in
      if ca_received_count c \<noteq> cfm_total_blocks meta
      then fail_after_meta ''central transfer missing final blocks'' no_digest
      else
        bindS (syscall ''fsync central cache'') (\<lambda>_.
        bindS (hash_file sha (cj_temporary_path job)) (\<lambda>actual_digest.
        if actual_digest \<noteq> cfm_sha256 meta
        then fail_after_meta ''central cached file SHA-256 mismatch'' actual_digest
        else
          bindS (rename_file (cj_temporary_path job) (cj_final_path job) ''commit central cache failed'') (\<lambda>_.
          bindS (remove_file (cj_checkpoint_path job)) (\<lambda>_.
          returnS actual_digest)))))"

definition finish_delivery :: "delivery \<Rightarrow> DeliveryResult \<Rightarrow> DeliveryResult px" where
  "finish_delivery d section_result =
     (if section_result \<noteq> DR_Success then returnS section_result
      else
        bindS (backfill_isolated_receivers d) (\<lambda>_.
        bindS (getS px_receivers) (\<lambda>receivers.
        if receiver_reported_sha_mismatch receivers
        then bindS (finish_failed_transfer (dl_transfer_id d)) (\<lambda>_. returnS DR_Sha256Mismatch)
        else if \<not> all_receivers_completed receivers
        then bindS (finish_failed_transfer (dl_transfer_id d)) (\<lambda>_. returnS DR_Failed)
        else returnS DR_Success)))"

text \<open>\<open>retried\<close> is \<open>used_transfer_ids.size()!=1U\<close>.\<close>

definition finish_cached_transfer :: "(bytes \<Rightarrow> bytes) \<Rightarrow> central_job \<Rightarrow> cache \<Rightarrow> cached_file px" where
  "finish_cached_transfer sha job c =
     (let meta = cj_meta job; d = cj_delivery job in
      bindS (complete_dispatch d) (\<lambda>_.
      bindS (modifyS (\<lambda>p. p\<lparr>px_dispatch_complete := True\<rparr>)) (\<lambda>_.
      bindS (getS px_section_result) (\<lambda>section_result.
      bindS (whenS (section_result = DR_Sha256Mismatch) (finish_failed_transfer (cfm_transfer_id meta))) (\<lambda>_.
      bindS (commit_cached_file sha job c) (\<lambda>actual_digest.
      bindS (syscall ''open central cache for TCP backfill'') (\<lambda>_.
      let d = d\<lparr>dl_file_path := cj_final_path job, dl_digest := actual_digest\<rparr> in
      bindS (finish_delivery d section_result) (\<lambda>delivery_result.
      let retried = (delivery_result = DR_Sha256Mismatch) in
      bindS (if retried
             then send_attempts kMaxTransferRetries d (cfm_file_name meta) [cfm_transfer_id meta] delivery_result
             else returnS delivery_result) (\<lambda>delivery_result.
      bindS (whenS (delivery_result \<noteq> DR_Success) (set_receivers abandon_incomplete_receivers)) (\<lambda>_.
      bindS (send_central_status meta CS_Cached actual_digest) (\<lambda>_.
      bindS (whenS (delivery_result = DR_Success \<and> section_result = DR_Success \<and> \<not> retried)
               (wait_for_receivers_ready (cfm_transfer_id meta))) (\<lambda>_.
      returnS \<lparr>cc_path = cj_final_path job, cc_transfer_id = cfm_transfer_id meta,
        cc_file_size = cfm_file_size meta, cc_total_blocks = cfm_total_blocks meta,
        cc_sha256 = actual_digest\<rparr>))))))))))))"

section \<open>The receive loop\<close>

definition cache_frame ::
  "(bytes \<Rightarrow> bytes) \<Rightarrow> central_job \<Rightarrow> bytes \<Rightarrow> cache \<Rightarrow> (cached_file + cache) px" where
  "cache_frame sha job frame c =
     bindS (liftE (peek_control_type frame)) (\<lambda>ty.
     if ty = CT_CentralData then
       bindS (liftE (decode_central_data frame)) (\<lambda>data.
       bindS (cache_block job data c) (\<lambda>c. returnS (Inr c)))
     else if ty \<noteq> CT_CentralFileEnd
     then throwS ''unexpected central control message during file transfer''
     else
       bindS (liftE (decode_central_file_end frame)) (\<lambda>e.
       bindS (cache_section_end job e c) (\<lambda>next.
       (case next of
          Some c \<Rightarrow> returnS (Inr c)
        | None \<Rightarrow> bindS (finish_cached_transfer sha job c) (\<lambda>cached. returnS (Inl cached))))))"

text \<open>\<open>n\<close> is the number of frames still to come; after the last the connection is closed.\<close>

fun cache_loop :: "(bytes \<Rightarrow> bytes) \<Rightarrow> central_job \<Rightarrow> nat \<Rightarrow> cache \<Rightarrow> cached_file px" where
  "cache_loop sha job n c =
     bindS (throw_if_worker_failed (cj_delivery job)) (\<lambda>_.
     bindS receive_central (\<lambda>frame.
     bindS (throw_if_worker_failed (cj_delivery job)) (\<lambda>_.
     bindS (cache_frame sha job frame c) (\<lambda>outcome.
     (case (outcome, n) of
        (Inl cached, _) \<Rightarrow> returnS cached
      | (Inr c, 0) \<Rightarrow> throwS ''control connection closed''
      | (Inr c, Suc m) \<Rightarrow> cache_loop sha job m c)))))"

declare cache_loop.simps [simp del]

definition pipeline :: "(bytes \<Rightarrow> bytes) \<Rightarrow> central_job \<Rightarrow> u32 \<Rightarrow> cache \<Rightarrow> cached_file px" where
  "pipeline sha job resume_section c =
     (let meta = cj_meta job in
      bindS (send_central (encode_central_resume \<lparr>cr_transfer_id = cfm_transfer_id meta,
        cr_next_section_id = resume_section, cr_total_sections = cj_section_count job,
        cr_file_size = cfm_file_size meta, cr_sha256 = no_digest\<rparr>)) (\<lambda>_.
      bindS (forS (local_blocks resume_section) (enqueue_section (cj_delivery job) meta)) (\<lambda>_.
      bindS (getS (\<lambda>p. length (px_central p))) (\<lambda>n.
      cache_loop sha job n c))))"

text \<open>The \<open>catch(...)\<close> of the pipeline: cancel, report a failure that is one, end the transfer at the
  receivers, and throw again.\<close>

definition pipeline_failed :: "central_job \<Rightarrow> error \<Rightarrow> 'a px" where
  "pipeline_failed job e =
     (let transfer_id = cfm_transfer_id (cj_meta job) in
      bindS (stop_dispatch (cj_delivery job)) (\<lambda>_.
      bindS (getS id) (\<lambda>p.
      bindS (case px_failure p of
               None \<Rightarrow> returnS ()
             | Some sha256 \<Rightarrow> tryS (send_central_status (cj_meta job) CS_Failed sha256) (\<lambda>_. returnS ())) (\<lambda>_.
      bindS (whenS (\<not> px_dispatch_complete p \<or> px_failure p \<noteq> None)
               (tryS (finish_failed_transfer transfer_id) (\<lambda>_. returnS ()))) (\<lambda>_.
      liftE (Inl e))))))"

section \<open>A file from the central sender\<close>

text \<open>The blocks of the Sections before the resume point count as received.\<close>

definition resumed_blocks :: "CentralFileMetaMessage \<Rightarrow> u32 \<Rightarrow> bytes result" where
  "resumed_blocks meta resume_section =
     foldE (\<lambda>section_id received.
         bindE (section_first_block section_id (cfm_section_block_count meta)) (\<lambda>first_block.
         bindE (section_block_count (cfm_total_blocks meta) section_id (cfm_section_block_count meta))
           (\<lambda>section_blocks.
         Inr (foldl (\<lambda>received local_block. received[unat (first_block + local_block) := 1]) received
           (local_blocks section_blocks)))))
       (local_blocks resume_section) (replicate (unat (cfm_total_blocks meta)) 0)"

definition start_cache :: "CentralFileMetaMessage \<Rightarrow> u32 \<Rightarrow> cache result" where
  "start_cache meta resume_section =
     bindE (resumed_blocks meta resume_section) (\<lambda>received.
     bindE (section_first_block resume_section (cfm_section_block_count meta)) (\<lambda>resumed.
     Inr \<lparr>ca_received = received, ca_received_count = min (cfm_total_blocks meta) resumed,
       ca_duplicate_count = 0, ca_rejected_count = 0, ca_next_section_id = resume_section\<rparr>))"

definition central_delivery :: "delivery \<Rightarrow> CentralFileMetaMessage \<Rightarrow> string \<Rightarrow> delivery" where
  "central_delivery setup meta temporary_path =
     setup\<lparr>dl_file_path := temporary_path, dl_file_size := cfm_file_size meta,
       dl_transfer_id := cfm_transfer_id meta, dl_total_blocks := cfm_total_blocks meta,
       dl_digest := cfm_sha256 meta, dl_section_block_limit := cfm_section_block_count meta\<rparr>"

text \<open>The checks of CENTRAL_FILE_META.\<close>

definition check_central_meta :: "CentralFileMetaMessage \<Rightarrow> unit result" where
  "check_central_meta meta =
     bindE (validate_section_block_count (cfm_section_block_count meta)) (\<lambda>_.
     if cfm_block_size meta \<noteq> of_nat kPayloadSize then throw ''unsupported central block size''
     else if \<not> blocks_consistent (cfm_file_size meta) (cfm_block_size meta) (cfm_total_blocks meta)
     then throw ''inconsistent central file block count''
     else Inr ())"

definition cached_path :: "string \<Rightarrow> CentralFileMetaMessage \<Rightarrow> string" where
  "cached_path cache_directory meta =
     path_join cache_directory (''central-transfer-'' @ print_dec (unat (cfm_transfer_id meta)) @ ''.bin'')"

text \<open>The file is in the cache already: receivers that have it are acknowledged, and the central sender
  is told that no Section is missing.\<close>

definition acknowledge_cached :: "FileMetaMessage \<Rightarrow> nat \<Rightarrow> unit px" where
  "acknowledge_cached file_meta i =
     bindS (set_rv i (\<lambda>r. r\<lparr>rv_active_meta := Some file_meta\<rparr>)) (\<lambda>_.
     bindS (get_rv i id) (\<lambda>r.
     if rv_recovery_state r \<noteq> RS_Completed \<or> rv_recovery_transfer_id r \<noteq> fm_transfer_id file_meta
     then returnS ()
     else
       bindS (set_rv i (\<lambda>r. r\<lparr>rv_meta_ready := True, rv_complete_received := True, rv_completed := True\<rparr>)) (\<lambda>_.
       send_ignoring i (encode_complete_ack \<lparr>ca_transfer_id = fm_transfer_id file_meta\<rparr>))))"

definition answer_from_cache :: "delivery \<Rightarrow> CentralFileMetaMessage \<Rightarrow> string \<Rightarrow> bytes \<Rightarrow> cached_file px" where
  "answer_from_cache d meta final_path actual_digest =
     bindS accept_pending_receiver_reconnects (\<lambda>_.
     bindS (for_receivers (acknowledge_cached (delivery_meta d (cfm_file_name meta)))) (\<lambda>_.
     bindS (liftE (section_count_for_blocks (cfm_total_blocks meta) (cfm_section_block_count meta)))
       (\<lambda>section_count.
     bindS (send_central (encode_central_resume \<lparr>cr_transfer_id = cfm_transfer_id meta,
       cr_next_section_id = section_count, cr_total_sections = section_count,
       cr_file_size = cfm_file_size meta, cr_sha256 = actual_digest\<rparr>)) (\<lambda>_.
     returnS \<lparr>cc_path = final_path, cc_transfer_id = cfm_transfer_id meta,
       cc_file_size = cfm_file_size meta, cc_total_blocks = cfm_total_blocks meta,
       cc_sha256 = actual_digest\<rparr>))))"

text \<open>The space checks, the temporary file and the start of the transfer at the receivers; the digest of
  an existing final file was not the expected one.\<close>

definition existing_bytes :: "string \<Rightarrow> u64 px" where
  "existing_bytes path =
     bindS (file_exists path) (\<lambda>there.
     if \<not> there then returnS 0
     else bindS (syscall ''stat central cache temporary file failed'') (\<lambda>_.
       getS (\<lambda>p. of_nat (length (content_or_empty (file_content path p))))))"

definition receive_new_file ::
  "(bytes \<Rightarrow> bytes) \<Rightarrow> delivery \<Rightarrow> string \<Rightarrow> CentralFileMetaMessage \<Rightarrow> cached_file px" where
  "receive_new_file sha setup cache_directory meta =
     (let final_path = cached_path cache_directory meta; temporary_path = final_path @ ''.part'';
          checkpoint_path = central_checkpoint_path final_path;
          d = central_delivery setup meta temporary_path in
      bindS (existing_bytes temporary_path) (\<lambda>existing_size.
      let additional = (if existing_size < cfm_file_size meta then cfm_file_size meta - existing_size else 0) in
      bindS (getS id) (\<lambda>p.
      bindS (liftE (require_storage_limit (h_getenv p) (h_scan p cache_directory) additional
               ''SRCAST_CACHE_LIMIT_BYTES'' ''central cache directory'')) (\<lambda>_.
      bindS (liftE (require_disk_space (h_statvfs p cache_directory) (cfm_file_size meta)
               ''central cache directory'')) (\<lambda>_.
      bindS (liftE (section_count_for_blocks (cfm_total_blocks meta) (cfm_section_block_count meta)))
        (\<lambda>section_count.
      bindS (load_central_checkpoint checkpoint_path temporary_path meta) (\<lambda>resume_section.
      bindS (open_file temporary_path (resume_section = 0) ''open central cache temporary file'') (\<lambda>_.
      bindS (ftruncate temporary_path (cfm_file_size meta) ''ftruncate central cache'') (\<lambda>_.
      bindS (liftE (start_cache meta resume_section)) (\<lambda>c.
      bindS (begin_receiver_transfer d (cfm_file_name meta)) (\<lambda>_.
      bindS (modifyS (\<lambda>p. p\<lparr>px_queue := [], px_pending_bytes := 0, px_worker_error := None,
        px_section_result := DR_Success, px_failure := None, px_dispatch_complete := False\<rparr>)) (\<lambda>_.
      let job = \<lparr>cj_meta = meta, cj_delivery = d, cj_final_path = final_path,
            cj_temporary_path = temporary_path, cj_checkpoint_path = checkpoint_path,
            cj_section_count = section_count\<rparr> in
      tryS (pipeline sha job resume_section c) (pipeline_failed job)))))))))))))"

text \<open>\<open>None\<close> when the central sender ends the session.\<close>

definition receive_cached_file_from_central ::
  "(bytes \<Rightarrow> bytes) \<Rightarrow> delivery \<Rightarrow> string \<Rightarrow> cached_file option px" where
  "receive_cached_file_from_central sha setup cache_directory =
     bindS receive_central (\<lambda>first_frame.
     bindS (liftE (peek_control_type first_frame)) (\<lambda>first_type.
     if first_type = CT_CentralSessionEnd
     then bindS (liftE (decode_central_session_end first_frame)) (\<lambda>_. returnS None)
     else if first_type \<noteq> CT_CentralFileMeta then throwS ''expected CENTRAL_FILE_META from central sender''
     else
       bindS (liftE (decode_central_file_meta first_frame)) (\<lambda>meta.
       bindS (liftE (check_central_meta meta)) (\<lambda>_.
       bindS (syscall ''create central cache directory failed'') (\<lambda>_.
       let final_path = cached_path cache_directory meta in
       bindS (file_exists final_path) (\<lambda>there.
       bindS (if there then bindS (hash_file sha final_path) (\<lambda>digest. returnS (Some digest)) else returnS None)
         (\<lambda>digest.
       bindS (if digest = Some (cfm_sha256 meta)
              then answer_from_cache (central_delivery setup meta final_path) meta final_path (cfm_sha256 meta)
              else receive_new_file sha setup cache_directory meta) (\<lambda>cached.
       returnS (Some cached)))))))))"

section \<open>Serving the central sender\<close>

text \<open>The loop of \<open>main\<close> over the files of one connection, ending with the session (true) or with an
  exception, and over the connections. Every file takes a frame at least, so the frames bound the
  number of files.\<close>

fun serve_connection :: "(bytes \<Rightarrow> bytes) \<Rightarrow> delivery \<Rightarrow> string \<Rightarrow> nat \<Rightarrow> bool px" where
  "serve_connection sha setup cache_directory n =
     bindS (tryS (bindS (receive_cached_file_from_central sha setup cache_directory)
              (\<lambda>cached. returnS (Some (cached = None)))) (\<lambda>e. returnS None)) (\<lambda>outcome.
     (case (outcome, n) of
        (Some True, _) \<Rightarrow> returnS True
      | (Some False, Suc m) \<Rightarrow> serve_connection sha setup cache_directory m
      | _ \<Rightarrow> returnS False))"

declare serve_connection.simps [simp del]

text \<open>Each connection: the descriptor \<open>accept4\<close> returns and what is received on it. False when the
  connections are used up, where the code still waits for the next one.\<close>

fun serve_central :: "(bytes \<Rightarrow> bytes) \<Rightarrow> delivery \<Rightarrow> string \<Rightarrow> (int \<times> bytes result list) list \<Rightarrow> bool px" where
  "serve_central sha setup cache_directory [] = returnS False"
| "serve_central sha setup cache_directory ((fd, incoming) # connections) =
     bindS (syscall_retry ''accept central sender'') (\<lambda>_.
     bindS (modifyS (\<lambda>p. p\<lparr>px_central_fd := fd, px_central := incoming\<rparr>)) (\<lambda>_.
     bindS (serve_connection sha setup cache_directory (length incoming)) (\<lambda>finished.
     if finished then bindS end_session (\<lambda>_. returnS True)
     else serve_central sha setup cache_directory connections)))"

section \<open>The final file\<close>

text \<open>An operation that keeps the frame leaves the files alone; the others write the temporary file and
  the checkpoint. \<open>final_ok\<close>: the final file is what it was, or has the announced digest.\<close>

lemma same_keeps_files:
  fixes m :: "'a px"
  assumes "\<And>c. keeps (same c) m"
  shows "keeps (\<lambda>p :: proxy. Q (h_files p)) m"
proof (rule keepsI)
  fix p :: proxy assume p: "Q (h_files p)"
  have "same (proxy_frame p) (snd (m p))"
    using keepsD [OF assms [of "proxy_frame p"], of p] by (simp add: same_def)
  with p show "Q (h_files (snd (m p)))" by (simp add: same_def proxy_frame_def)
qed

definition final_ok :: "(bytes \<Rightarrow> bytes) \<Rightarrow> bytes \<Rightarrow> string \<Rightarrow> bytes option \<Rightarrow> (string \<Rightarrow> bytes option) \<Rightarrow> bool" where
  "final_ok sha digest final_path old files \<longleftrightarrow>
     files final_path = old \<or> (\<exists>content. files final_path = Some content \<and> sha content = digest)"

definition keeps_files :: "((string \<Rightarrow> bytes option) \<Rightarrow> bool) \<Rightarrow> 'a px \<Rightarrow> bool" where
  "keeps_files Q m \<longleftrightarrow> keeps (\<lambda>p :: proxy. Q (h_files p)) m"

abbreviation keeps_final :: "(bytes \<Rightarrow> bytes) \<Rightarrow> bytes \<Rightarrow> string \<Rightarrow> bytes option \<Rightarrow> 'a px \<Rightarrow> bool" where
  "keeps_final sha digest final_path old \<equiv> keeps_files (final_ok sha digest final_path old)"

named_theorems final "operations that leave the final file alone"

lemma final_same: "(\<And>c. keeps (same c) m) \<Longrightarrow> keeps_files Q m"
  unfolding keeps_files_def by (rule same_keeps_files)

lemmas final_calls [final] = same_syscall [THEN final_same] same_send_frame [THEN final_same]
  same_begin_receiver_transfer [THEN final_same] same_finish_failed_transfer [THEN final_same]
  same_send_attempts [THEN final_same] same_backfill_isolated_receivers [THEN final_same]
  same_wait_for_receivers_ready [THEN final_same] same_accept_pending [THEN final_same]
  same_distribute_section [THEN final_same]

lemma final_structure [final]:
  "keeps_files Q (returnS x)" "keeps_files Q (throwS msg)"
  "keeps_files Q (liftE r)" "keeps_files Q (getS f)"
  "keeps_files Q m \<Longrightarrow> (\<And>x. keeps_files Q (g x)) \<Longrightarrow> keeps_files Q (bindS m g)"
  "keeps_files Q m \<Longrightarrow> (\<And>e. keeps_files Q (h e)) \<Longrightarrow> keeps_files Q (tryS m h)"
  "keeps_files Q u \<Longrightarrow> keeps_files Q (whenS c u)"
  "(\<And>y. keeps_files Q (body y)) \<Longrightarrow> keeps_files Q (forS ys body)"
  "keeps_files Q m \<Longrightarrow> keeps_files Q n \<Longrightarrow> keeps_files Q (if c then m else n)"
  "keeps_files Q m \<Longrightarrow> (\<And>y. keeps_files Q (k y)) \<Longrightarrow>
     keeps_files Q (case z of None \<Rightarrow> m | Some y \<Rightarrow> k y)"
  unfolding keeps_files_def by (auto intro: keep_structure)

lemma final_locals [final]:
  "(\<And>p. h_files (f p) = h_files p) \<Longrightarrow> keeps_files Q (modifyS f)"
  unfolding keeps_files_def by (intro keeps_modify) simp

lemma final_set_receivers [final]: "keeps_files Q (set_receivers f)"
  unfolding set_receivers_def by (intro final) simp

lemma final_put_file [final]:
  "c_str path \<noteq> final_path \<Longrightarrow> keeps_final sha digest final_path old (put_file path content)"
  unfolding put_file_def keeps_files_def by (intro keeps_modify) (simp add: final_ok_def)

lemma final_write_text_file [final]:
  "c_str path \<noteq> final_path \<Longrightarrow> keeps_final sha digest final_path old (write_text_file path text oe we)"
  unfolding write_text_file_def open_file_def
  by (auto intro!: final split: prod.split sum.split)

lemma final_write_all_at [final]:
  "c_str path \<noteq> final_path \<Longrightarrow> keeps_final sha digest final_path old (write_all_at path data offset)"
  by (auto simp: keeps_files_def keeps_def write_all_at_def put_file_def modifyS_def Let_def final_ok_def split: prod.split)

lemma final_file_calls [final]:
  assumes "c_str path \<noteq> final_path"
  shows "keeps_final sha digest final_path old (open_file path trunc op)"
    "keeps_final sha digest final_path old (ftruncate path n op)"
    "keeps_final sha digest final_path old (remove_file path)"
  using assms unfolding open_file_def ftruncate_def remove_file_def
  by (auto intro!: final)

lemma final_rename [final]:
  "c_str path \<noteq> final_path \<Longrightarrow> c_str path2 \<noteq> final_path \<Longrightarrow>
     keeps_final sha digest final_path old (rename_file path path2 op)"
  unfolding rename_file_def by (intro final)

text \<open>The paths of a job are three different files.\<close>

definition job_paths :: "central_job \<Rightarrow> string \<Rightarrow> bool" where
  "job_paths job final_path \<longleftrightarrow>
     c_str (cj_final_path job) = final_path \<and> c_str (cj_temporary_path job) \<noteq> final_path \<and>
     c_str (cj_checkpoint_path job) \<noteq> final_path \<and> c_str (cj_checkpoint_path job @ ''.tmp'') \<noteq> final_path"

lemma finish_task_files [simp]: "h_files (finish_task b outcome p) = h_files p"
  by (simp add: finish_task_def split: sum.split)

lemma final_dispatch [final]:
  "keeps_files Q (throw_if_worker_failed d)" "keeps_files Q (enqueue_section d meta section_id)"
  "keeps_files Q (complete_dispatch d)" "keeps_files Q (stop_dispatch d)"
  "keeps_files Q (fail_after_meta reason sha256 :: 'a px)"
proof -
  have step: "keeps_files Q (worker_step d)"
  proof -
    show ?thesis
      unfolding worker_step_def by (auto intro!: final split: list.split)
  qed
  have steps: "keeps_files Q (worker_steps n d)" for n
    using step by (induction n) (auto intro!: final)
  then have runs: "keeps_files Q (worker_runs d)"
    unfolding worker_runs_def by (auto intro!: final)
  have wait: "keeps_files Q (wait_for_low n d low)" for n low
    using step by (induction n) (subst wait_for_low.simps; auto intro!: final)+
  show "keeps_files Q (throw_if_worker_failed d)" "keeps_files Q (enqueue_section d meta section_id)"
    "keeps_files Q (complete_dispatch d)" "keeps_files Q (stop_dispatch d)"
    "keeps_files Q (fail_after_meta reason sha256 :: 'a px)"
    unfolding throw_if_worker_failed_def enqueue_section_def complete_dispatch_def stop_dispatch_def
      fail_after_meta_def rethrow_worker_error_def
    using runs wait steps by (auto intro!: final)
qed

lemma final_send [final]:
  "keeps_files Q (send_central frame)"
  "keeps_files Q (send_central_status meta status sha256)"
  unfolding send_central_status_def send_central_def by (intro final)+

lemma final_receive_central [final]: "keeps_files Q receive_central"
  by (auto simp: keeps_files_def keeps_def receive_central_def split: list.split)

lemma final_cache_block [final]:
  "job_paths job fp \<Longrightarrow> keeps_final sha digest fp old (cache_block job data c)"
  unfolding cache_block_def Let_def job_paths_def by (intro final) simp_all

lemma final_cache_section_end [final]:
  "job_paths job fp \<Longrightarrow> keeps_final sha digest fp old (cache_section_end job e c)"
  unfolding cache_section_end_def commit_section_def save_central_checkpoint_def Let_def job_paths_def
  by (intro final) simp_all

text \<open>The rename is the only step that touches the final file, and it moves what was hashed.\<close>

lemma rename_commits:
  assumes "h_files p (c_str from_path) = Some content" and "sha content = digest" and "c_str to_path = fp"
    and "final_ok sha digest fp old (h_files p)"
  shows "final_ok sha digest fp old (h_files (snd (rename_file from_path to_path op (p :: proxy))))"
proof -
  obtain r u where u: "syscall op p = (r, u)" by force
  have "h_files u = h_files p"
    using proxy_frame_pipeline(8) [of u p] keepsD [OF same_syscall [of "proxy_frame p" op], of p] u by (simp add: same_def)
  then show ?thesis
    using u assms by (cases r) (auto simp: rename_file_def eff_step returnS_run file_content_def put_file_def
        final_ok_def modifyS_run)
qed

lemma final_commit [final]:
  assumes "job_paths job fp"
  shows "keeps_final sha (cfm_sha256 (cj_meta job)) fp old (commit_cached_file sha job c)"
proof -
  let ?meta = "cj_meta job" and ?tmp = "cj_temporary_path job"
  let ?tail = "bindS (hash_file sha ?tmp) (\<lambda>actual_digest.
        if actual_digest \<noteq> cfm_sha256 ?meta
        then fail_after_meta ''central cached file SHA-256 mismatch'' actual_digest
        else bindS (rename_file ?tmp (cj_final_path job) ''commit central cache failed'') (\<lambda>_.
          bindS (remove_file (cj_checkpoint_path job)) (\<lambda>_. returnS actual_digest)))"
  have tail: "keeps_final sha (cfm_sha256 ?meta) fp old ?tail"
    unfolding keeps_files_def
  proof (rule keepsI)
    fix p :: proxy assume p: "final_ok sha (cfm_sha256 ?meta) fp old (h_files p)"
    obtain r u where u: "hash_file sha ?tmp p = (r, u)" by force
    have files: "h_files u = h_files p"
      using proxy_frame_pipeline(8) [of u p] keepsD [OF same_hash_file [of "proxy_frame p" sha ?tmp], of p] u
      by (simp add: same_def)
    show "final_ok sha (cfm_sha256 ?meta) fp old (h_files (snd (?tail p)))"
    proof (cases "r = Inr (cfm_sha256 ?meta)")
      case False
      then show ?thesis using u p files
        by (cases r) (auto simp: eff_step fail_after_meta_def throwS_run bindS_run modifyS_run)
    next
      case True
      with u have "hash_file sha ?tmp p = (Inr (cfm_sha256 ?meta), u)" by simp
      from hash_file_Inr [OF this] obtain content where
        content: "file_content ?tmp u = Some content" "sha content = cfm_sha256 ?meta" by auto
      obtain r2 v where v: "rename_file ?tmp (cj_final_path job) ''commit central cache failed'' u = (r2, v)" by force
      have fv: "final_ok sha (cfm_sha256 ?meta) fp old (h_files v)"
        using rename_commits [of u ?tmp content sha "cfm_sha256 ?meta" "cj_final_path job" fp old
          "''commit central cache failed''"] content assms files p v
        by (simp add: file_content_def job_paths_def)
      moreover have "keeps_final sha (cfm_sha256 ?meta) fp old (bindS (remove_file (cj_checkpoint_path job))
          (\<lambda>_. returnS (cfm_sha256 ?meta)))"
        using assms by (intro final) (simp_all add: job_paths_def)
      ultimately show ?thesis using u v True
        by (cases r2) (auto simp: eff_step keeps_files_def dest: keepsD)
    qed
  qed
  show ?thesis
    unfolding commit_cached_file_def Let_def
    by (rule final_structure(9), rule final_dispatch(5), rule final_structure(5), rule final_calls(1), rule tail)
qed

lemma final_finish [final]:
  assumes "job_paths job fp"
  shows "keeps_final sha (cfm_sha256 (cj_meta job)) fp old (finish_cached_transfer sha job c)"
  using assms unfolding finish_cached_transfer_def finish_delivery_def Let_def
  by (intro final) simp_all

lemma final_cache_loop [final]:
  assumes "job_paths job fp"
  shows "keeps_final sha (cfm_sha256 (cj_meta job)) fp old (cache_loop sha job n c)"
proof -
  have frame: "keeps_final sha (cfm_sha256 (cj_meta job)) fp old (cache_frame sha job frame c)" for frame c
    unfolding cache_frame_def using assms by (intro final)
  show ?thesis
  proof (induction n arbitrary: c)
    case 0
    show ?case using frame by (subst cache_loop.simps) (auto intro!: final split: sum.split)
  next
    case (Suc n)
    then show ?case using frame by (subst cache_loop.simps) (auto intro!: final split: sum.split)
  qed
qed

text \<open>C28: A file reaches its place in the proxy's cache only after its digest was checked. Whatever the
  central sender sends, whichever call fails and wherever the pipeline stops, after
  \<open>receive_new_file\<close> the final file is the one from before (or none), or it has content with the
  announced digest.\<close>

theorem cached_file_verified:
  assumes "final_path = cached_path cache_directory meta" and "no_nul final_path"
  shows "final_ok sha (cfm_sha256 meta) final_path (h_files p final_path)
    (h_files (snd (receive_new_file sha setup cache_directory meta p)))"
proof -
  let ?job = "\<lambda>count. \<lparr>cj_meta = meta, cj_delivery = central_delivery setup meta (final_path @ ''.part''),
      cj_final_path = final_path, cj_temporary_path = final_path @ ''.part'',
      cj_checkpoint_path = central_checkpoint_path final_path, cj_section_count = count\<rparr>"
  have c_str: "c_str final_path = final_path" "c_str (final_path @ ''.part'') = final_path @ ''.part''"
    "c_str (final_path @ ''.state'') = final_path @ ''.state''"
    "c_str (final_path @ ''.state.tmp'') = final_path @ ''.state.tmp''"
    using assms(2) by (simp_all add: c_str_no_nul no_nul_def)
  then have paths: "job_paths (?job count) final_path" for count
    by (simp add: job_paths_def central_checkpoint_path_def)
  have "keeps_final sha (cfm_sha256 meta) final_path (h_files p final_path) (pipeline sha (?job count) resume_section c)"
    for count resume_section c
    using final_cache_loop [OF paths [of count], of sha] unfolding pipeline_def Let_def by (intro final) simp_all
  moreover have "keeps_final sha (cfm_sha256 meta) final_path (h_files p final_path) (pipeline_failed (?job count) e)"
    for count and e
    unfolding pipeline_failed_def Let_def by (intro final)
  ultimately have "keeps_final sha (cfm_sha256 meta) final_path (h_files p final_path)
      (receive_new_file sha setup cache_directory meta)"
    unfolding receive_new_file_def existing_bytes_def load_central_checkpoint_def file_exists_def file_size_or_error_def Let_def
      assms(1) [symmetric] using c_str
    by (intro final) simp_all
  then show ?thesis unfolding keeps_files_def by (rule keepsD) (simp add: final_ok_def)
qed

section \<open>An example\<close>

text \<open>The cache directory \<open>c\<close> is empty, the receivers are none, and the central connection closes.\<close>

lemma example_cached_path:
  "cached_path ''c'' example_cache_meta = ''c/central-transfer-9.bin''"
  by code_simp

theorem cached_file_verified_witness:
  "final_ok (\<lambda>_. [7]) (cfm_sha256 example_cache_meta) ''c/central-transfer-9.bin'' None
    (h_files (snd (receive_new_file (\<lambda>_. [7]) example_delivery ''c'' example_cache_meta example_proxy)))"
  using cached_file_verified [of "''c/central-transfer-9.bin''" "''c''" example_cache_meta "\<lambda>_. [7]"
      example_proxy example_delivery]
  by (simp add: example_cached_path no_nul_def) (simp add: example_proxy_def)

end
