(* ===== verification/Central_Sender.thy ===== *)
theory Central_Sender
  imports Host
begin

text \<open>
  The central sender (\<open>src/central_sender.cpp\<close>): one file to one proxy (\<open>send_file\<close>), from the
  Section the proxy asks for, waiting for the proxy's CENTRAL_STATUS after each Section, and the
  session with a proxy over all files, reconnecting after a failure.

  \<open>central\<close> extends \<open>host\<close> by a \<open>ProxySession\<close>: the connection (-1 when closed), what the coming
  calls of \<open>receive_control_frame\<close> on it do, and what the coming attempts to connect do (a new
  connection with its incoming frames, or an exception). Each session runs in a thread of its own
  and shares nothing with the others. The digest function is a parameter, pauses between blocks
  and console output are left out.
\<close>

record central = host +
  cn_fd :: int
  cn_stopped :: bool
  cn_incoming :: "bytes result list"
  cn_connects :: "(int \<times> bytes result list) result list"

type_synonym 'a cn = "(central, 'a) eff"

definition kReconnectDelay :: nat where "kReconnectDelay = 500 * 1000000"

section \<open>The connection\<close>

definition central_send :: "bytes \<Rightarrow> unit cn" where
  "central_send frame = bindS (getS cn_fd) (\<lambda>fd. send_frame fd frame)"

definition central_receive :: "bytes cn" where
  "central_receive s = (case cn_incoming s of
      [] \<Rightarrow> (throw ''control connection closed'', s)
    | received # later \<Rightarrow> (received, s\<lparr>cn_incoming := later\<rparr>))"

definition connect_proxy :: "unit cn" where
  "connect_proxy s = (case cn_connects s of
      [] \<Rightarrow> (system_error ''connect proxy central port'' (Other_errno ''Connection refused''), s)
    | Inl e # later \<Rightarrow> (Inl e, s\<lparr>cn_connects := later\<rparr>)
    | Inr (fd, incoming) # later \<Rightarrow>
        (Inr (), s\<lparr>cn_connects := later, cn_fd := fd, cn_incoming := incoming\<rparr>))"

definition pause_before_reconnect :: "unit cn" where
  "pause_before_reconnect = modifyS (\<lambda>s. s\<lparr>h_clock := h_clock s + kReconnectDelay\<rparr>)"

section \<open>One file\<close>

text \<open>The first eight bytes of the digest of the file's digest and name, most significant first.\<close>

definition central_transfer_id :: "(bytes \<Rightarrow> bytes) \<Rightarrow> bytes \<Rightarrow> string \<Rightarrow> u64" where
  "central_transfer_id sha digest file_name =
     foldl (\<lambda>value b. push_bit 8 value OR ucast b) 0 (take 8 (sha (digest @ bytes_of_string file_name)))"

definition central_meta :: "u64 \<Rightarrow> u64 \<Rightarrow> u32 \<Rightarrow> string \<Rightarrow> bytes \<Rightarrow> CentralFileMetaMessage" where
  "central_meta transfer_id file_size section_blocks file_name digest =
     \<lparr>cfm_transfer_id = transfer_id, cfm_file_size = file_size, cfm_block_size = of_nat kPayloadSize,
      cfm_total_blocks = ucast (blocks_of_file file_size), cfm_section_block_count = section_blocks,
      cfm_file_name = file_name, cfm_sha256 = digest\<rparr>"

definition central_data :: "CentralFileMetaMessage \<Rightarrow> u32 \<Rightarrow> u32 \<Rightarrow> u64 \<Rightarrow> bytes \<Rightarrow> CentralDataMessage" where
  "central_data meta section_id block_id offset payload =
     \<lparr>cd_transfer_id = cfm_transfer_id meta, cd_section_id = section_id, cd_block_id = block_id,
      cd_offset = offset, cd_payload_size = of_nat (length payload), cd_crc32 = crc32 payload,
      cd_payload = payload\<rparr>"

definition send_central_block :: "string \<Rightarrow> CentralFileMetaMessage \<Rightarrow> u32 \<Rightarrow> u32 \<Rightarrow> unit cn" where
  "send_central_block file_path meta section_id block_id =
     bindS (read_block_of file_path file_path (cfm_file_size meta) block_id) (\<lambda>(payload, offset).
     bindS (liftE (encode_central_data (central_data meta section_id block_id offset payload))) central_send)"

definition central_file_end :: "CentralFileMetaMessage \<Rightarrow> u32 \<Rightarrow> CentralFileEndMessage" where
  "central_file_end meta section_id = \<lparr>cfe_transfer_id = cfm_transfer_id meta,
     cfe_section_id = section_id, cfe_total_blocks = cfm_total_blocks meta\<rparr>"

definition send_central_section :: "string \<Rightarrow> CentralFileMetaMessage \<Rightarrow> u32 \<Rightarrow> u32 \<Rightarrow> unit cn" where
  "send_central_section file_path meta section_count section_id =
     bindS (liftE (section_first_block section_id (cfm_section_block_count meta))) (\<lambda>first_block.
     bindS (liftE (section_block_count (cfm_total_blocks meta) section_id (cfm_section_block_count meta)))
       (\<lambda>section_blocks.
     bindS (forS (local_blocks section_blocks) (\<lambda>local_block.
       send_central_block file_path meta section_id (first_block + local_block))) (\<lambda>_.
     bindS (central_send (encode_central_file_end (central_file_end meta section_id))) (\<lambda>_.
     bindS central_receive (\<lambda>response.
     bindS (liftE (decode_central_status response)) (\<lambda>result.
     if cs_transfer_id result \<noteq> cfm_transfer_id meta \<or> cs_status result \<noteq> CS_Cached
        \<or> cs_file_size result \<noteq> cfm_file_size meta
     then throwS (''proxy did not confirm cached section: '' @ file_path)
     else if section_id + 1 = section_count \<and> cs_sha256 result \<noteq> cfm_sha256 meta
     then throwS (''proxy final digest mismatch: '' @ file_path)
     else returnS ()))))))"

text \<open>The Sections in order; false when the test hook stops after the requested number.\<close>

fun send_central_sections ::
  "string \<Rightarrow> CentralFileMetaMessage \<Rightarrow> u32 \<Rightarrow> u32 \<Rightarrow> u32 \<Rightarrow> u32 list \<Rightarrow> bool cn" where
  "send_central_sections file_path meta section_count stop_after confirmed [] = returnS True"
| "send_central_sections file_path meta section_count stop_after confirmed (section_id # section_ids) =
     bindS (send_central_section file_path meta section_count section_id) (\<lambda>_.
     let confirmed = confirmed + 1 in
     if stop_after \<noteq> 0 \<and> confirmed \<ge> stop_after \<and> section_id + 1 < section_count then returnS False
     else send_central_sections file_path meta section_count stop_after confirmed section_ids)"

definition sections_from :: "u32 \<Rightarrow> u32 \<Rightarrow> u32 list" where
  "sections_from next_section_id section_count = filter (\<lambda>s. next_section_id \<le> s) (local_blocks section_count)"

text \<open>What happens after the proxy's CENTRAL_RESUME.\<close>

definition send_from_resume :: "string \<Rightarrow> CentralFileMetaMessage \<Rightarrow> u32 \<Rightarrow> CentralResumeMessage \<Rightarrow> bool cn" where
  "send_from_resume file_path meta section_count resume =
     (if cr_transfer_id resume \<noteq> cfm_transfer_id meta \<or> cr_file_size resume \<noteq> cfm_file_size meta
         \<or> cr_total_sections resume \<noteq> section_count \<or> cr_next_section_id resume > section_count
      then throwS (''invalid CENTRAL_RESUME from proxy: '' @ file_path)
      else if cr_next_section_id resume = section_count
      then (if cr_sha256 resume \<noteq> cfm_sha256 meta then throwS (''proxy cached digest mismatch: '' @ file_path)
            else returnS True)
      else
        bindS (getS h_getenv) (\<lambda>getenv.
        bindS (liftE (stop_after_sections_for_test getenv)) (\<lambda>stop_after.
        send_central_sections file_path meta section_count stop_after 0
          (sections_from (cr_next_section_id resume) section_count))))"

definition central_send_file :: "(bytes \<Rightarrow> bytes) \<Rightarrow> u32 \<Rightarrow> string \<Rightarrow> bool cn" where
  "central_send_file sha section_blocks file_path =
     bindS (stat_source file_path) (\<lambda>file_size.
     if blocks_of_file file_size > 0xffffffff
     then throwS (''file is too large for protocol block numbering: '' @ file_path)
     else
       let file_name = path_filename file_path in
       bindS (liftE (validate_file_name_field file_name)) (\<lambda>_.
       bindS (hash_file sha file_path) (\<lambda>digest.
       let meta = central_meta (central_transfer_id sha digest file_name) file_size section_blocks file_name digest in
       bindS (syscall (''open source file '' @ file_path)) (\<lambda>_.
       bindS (liftE (encode_central_file_meta meta)) (\<lambda>frame.
       bindS (central_send frame) (\<lambda>_.
       bindS (liftE (section_count_for_blocks (cfm_total_blocks meta) section_blocks)) (\<lambda>section_count.
       bindS central_receive (\<lambda>answer.
       bindS (liftE (decode_central_resume answer)) (\<lambda>resume.
       send_from_resume file_path meta section_count resume)))))))))"

section \<open>The session with one proxy\<close>

text \<open>One pass of the loop for the file \<open>file_path\<close>: true when it was sent. The session ends early
  when the test hook stopped it.\<close>

definition ensure_connected :: "bool cn" where
  "ensure_connected =
     bindS (getS cn_fd) (\<lambda>fd.
     if fd \<ge> 0 then returnS True
     else tryS (bindS connect_proxy (\<lambda>_. returnS True))
       (\<lambda>e. bindS pause_before_reconnect (\<lambda>_. returnS False)))"

definition send_next_file :: "(bytes \<Rightarrow> bytes) \<Rightarrow> u32 \<Rightarrow> string \<Rightarrow> bool cn" where
  "send_next_file sha section_blocks file_path =
     tryS (bindS (central_send_file sha section_blocks file_path) (\<lambda>finished.
       if finished then returnS True
       else bindS (modifyS (\<lambda>s. s\<lparr>cn_stopped := True\<rparr>)) (\<lambda>_. returnS False)))
       (\<lambda>e. bindS (modifyS (\<lambda>s. s\<lparr>cn_fd := -1\<rparr>)) (\<lambda>_.
            bindS pause_before_reconnect (\<lambda>_. returnS False)))"

text \<open>\<open>n\<close> bounds the passes of the loop, which retries for ever in the code: the result is true when
  the session ended within them.\<close>

fun run_proxy_session :: "(bytes \<Rightarrow> bytes) \<Rightarrow> u32 \<Rightarrow> nat \<Rightarrow> string list \<Rightarrow> bool cn" where
  "run_proxy_session sha section_blocks n [] =
     bindS (tryS (central_send encode_central_session_end) (\<lambda>e. returnS ())) (\<lambda>_. returnS True)"
| "run_proxy_session sha section_blocks 0 (file # files) = returnS False"
| "run_proxy_session sha section_blocks (Suc n) (file # files) =
     bindS ensure_connected (\<lambda>connected.
     if \<not> connected then run_proxy_session sha section_blocks n (file # files)
     else
       bindS (send_next_file sha section_blocks file) (\<lambda>sent.
       bindS (getS cn_stopped) (\<lambda>stopped.
       if stopped then returnS True
       else run_proxy_session sha section_blocks n (if sent then files else file # files))))"

section \<open>What is sent\<close>

text \<open>The frames of a Section: its blocks in order, and the end of the Section. \<open>confirms\<close> is the
  answer the sender waits for after them.\<close>

definition central_block_frame :: "CentralFileMetaMessage \<Rightarrow> bytes \<Rightarrow> u32 \<Rightarrow> u32 \<Rightarrow> bytes" where
  "central_block_frame meta content section_id b =
     projr (encode_central_data (central_data meta section_id b (block_offset b) (block_bytes content (unat b))))"

definition central_section_frames :: "CentralFileMetaMessage \<Rightarrow> bytes \<Rightarrow> u32 \<Rightarrow> bytes list" where
  "central_section_frames meta content section_id =
     map (central_block_frame meta content section_id)
       (blocks_of_section (cfm_total_blocks meta) (cfm_section_block_count meta) section_id)
     @ [encode_central_file_end (central_file_end meta section_id)]"

definition confirms :: "CentralFileMetaMessage \<Rightarrow> u32 \<Rightarrow> u32 \<Rightarrow> bytes result \<Rightarrow> bool" where
  "confirms meta section_count section_id answer \<longleftrightarrow>
     (\<exists>f st. answer = Inr f \<and> decode_central_status f = Inr st \<and> cs_transfer_id st = cfm_transfer_id meta
        \<and> cs_status st = CS_Cached \<and> cs_file_size st = cfm_file_size meta
        \<and> (section_id + 1 = section_count \<longrightarrow> cs_sha256 st = cfm_sha256 meta))"

text \<open>From \<open>s\<close> to \<open>t\<close> these frames were sent and \<open>k\<close> frames received.\<close>

definition exchanged :: "central \<Rightarrow> bytes list \<Rightarrow> nat \<Rightarrow> central \<Rightarrow> bool" where
  "exchanged s frames k t \<longleftrightarrow> k \<le> length (cn_incoming s) \<and>
     (\<exists>evs. t = s\<lparr>h_events := evs, h_frames := h_frames s @ map (Pair (cn_fd s)) frames,
        cn_incoming := drop k (cn_incoming s)\<rparr>)"

lemma exchanged_refl: "exchanged s [] 0 s"
  unfolding exchanged_def by (auto intro!: exI [of _ "h_events s"])

lemma exchanged_trans:
  assumes "exchanged s fs k t" and "exchanged t gs l u"
  shows "exchanged s (fs @ gs) (k + l) u"
proof -
  from assms obtain e1 e2 where "k \<le> length (cn_incoming s)" "l \<le> length (drop k (cn_incoming s))"
    "t = s\<lparr>h_events := e1, h_frames := h_frames s @ map (Pair (cn_fd s)) fs, cn_incoming := drop k (cn_incoming s)\<rparr>"
    "u = t\<lparr>h_events := e2, h_frames := h_frames t @ map (Pair (cn_fd t)) gs, cn_incoming := drop l (cn_incoming t)\<rparr>"
    by (auto simp: exchanged_def)
  then show ?thesis unfolding exchanged_def by (intro conjI exI [of _ e2]) (simp_all add: add.commute)
qed

lemma exchanged_fields:
  assumes "exchanged s fs k t"
  shows "h_files t = h_files s" "cn_fd t = cn_fd s" "cn_incoming t = drop k (cn_incoming s)"
    "h_frames t = h_frames s @ map (Pair (cn_fd s)) fs" "file_content path t = file_content path s"
  using assms by (auto simp: exchanged_def file_content_def)

lemma exchanged_syscall: "syscall op s = (Inr (), t) \<Longrightarrow> exchanged s [] 0 t"
  by (cases "h_events s")
    (auto simp: exchanged_def syscall_def system_error_def intro: exI [of _ "h_events s"]
      split: list.splits io_event.splits)

lemma central_send_Inr: "central_send frame s = (Inr (), t) \<Longrightarrow> exchanged s [frame] 0 t"
  using send_frame_cases [of "cn_fd s" frame s]
  by (auto simp: central_send_def eff_run exchanged_def split: sum.splits)

lemma central_receive_Inr:
  assumes "central_receive s = (Inr f, t)"
  shows "exchanged s [] 1 t \<and> cn_incoming s ! 0 = Inr f"
  using assms by (auto simp: central_receive_def exchanged_def split: list.splits intro!: exI [of _ "h_events s"])

lemma send_central_block_Inr:
  assumes "send_central_block path meta section_id b s = (Inr (), t)"
    and "file_content path s = Some content" and "unat (cfm_file_size meta) = length content"
    and "exact_blocks (cfm_file_size meta) (cfm_total_blocks meta)" and "b < cfm_total_blocks meta"
  shows "exchanged s [central_block_frame meta content section_id b] 0 t"
proof -
  from assms(1,2) obtain payload offset evs frame where
    r: "read_block content path (cfm_file_size meta) b (h_events s) = (Inr (payload, offset), evs)"
    and f: "encode_central_data (central_data meta section_id b offset payload) = Inr frame"
    and t: "central_send frame (s\<lparr>h_events := evs\<rparr>) = (Inr (), t)"
    by (auto simp: send_central_block_def eff_Inr read_block_of_def content_or_empty_def Let_def split: prod.splits)
  from read_block_bytes [OF r assms(4,5,3)] f have "frame = central_block_frame meta content section_id b"
    by (simp add: central_block_frame_def)
  moreover have "exchanged s [] 0 (s\<lparr>h_events := evs\<rparr>)" by (auto simp: exchanged_def)
  ultimately show ?thesis using central_send_Inr [OF t] exchanged_trans by fastforce
qed

lemma send_central_blocks_Inr:
  assumes "forS bs (\<lambda>j. send_central_block path meta section_id (first_block + j)) s = (Inr (), t)"
    and "file_content path s = Some content" and "unat (cfm_file_size meta) = length content"
    and "exact_blocks (cfm_file_size meta) (cfm_total_blocks meta)"
    and "\<And>j. j \<in> set bs \<Longrightarrow> first_block + j < cfm_total_blocks meta"
  shows "exchanged s (map (\<lambda>j. central_block_frame meta content section_id (first_block + j)) bs) 0 t"
  using assms(1,2,5)
proof (induction bs arbitrary: s)
  case Nil
  then show ?case using exchanged_refl by (simp add: returnS_def)
next
  case (Cons j bs)
  then obtain u where u: "send_central_block path meta section_id (first_block + j) s = (Inr (), u)"
    "forS bs (\<lambda>j. send_central_block path meta section_id (first_block + j)) u = (Inr (), t)"
    by (auto simp: eff_Inr)
  have one: "exchanged s [central_block_frame meta content section_id (first_block + j)] 0 u"
    using send_central_block_Inr [OF u(1) Cons.prems(2) assms(3,4)] Cons.prems(3) by simp
  moreover have "file_content path u = Some content" using exchanged_fields [OF one] Cons.prems(2) by metis
  ultimately show ?case using Cons.IH [OF u(2)] Cons.prems(3) exchanged_trans by fastforce
qed

lemma send_central_section_Inr:
  assumes "send_central_section path meta count section_id s = (Inr (), t)"
    and "file_content path s = Some content" and "unat (cfm_file_size meta) = length content"
    and "exact_blocks (cfm_file_size meta) (cfm_total_blocks meta)"
  shows "exchanged s (central_section_frames meta content section_id) 1 t
    \<and> confirms meta count section_id (cn_incoming s ! 0)"
proof -
  let ?tot = "cfm_total_blocks meta" and ?sb = "cfm_section_block_count meta"
  from assms(1) obtain first n u v w f st where
    sections: "section_first_block section_id ?sb = Inr first" "section_block_count ?tot section_id ?sb = Inr n"
    and u: "forS (local_blocks n) (\<lambda>j. send_central_block path meta section_id (first + j)) s = (Inr (), u)"
    and v: "central_send (encode_central_file_end (central_file_end meta section_id)) u = (Inr (), v)"
    and w: "central_receive v = (Inr f, w)" and st: "decode_central_status f = Inr st"
    and ok: "cs_transfer_id st = cfm_transfer_id meta" "cs_status st = CS_Cached"
      "cs_file_size st = cfm_file_size meta" "section_id + 1 = count \<longrightarrow> cs_sha256 st = cfm_sha256 meta"
    and t: "t = w"
    by (auto simp: send_central_section_def eff_Inr split: if_splits)
  note n = section_block_count_Inr [OF sections(2)]
  have "first + j < ?tot" if "j \<in> set (local_blocks n)" for j
  proof -
    have "first = section_id * ?sb" using n sections(1) by simp
    moreover have "unat (section_id * ?sb) + unat n \<le> unat ?tot" using n by blast
    ultimately have "unat first + unat n \<le> unat ?tot" by (simp only:)
    moreover have "unat j < unat n" using that by (simp add: set_local_blocks word_less_nat_alt)
    ultimately have "unat first + unat j < unat ?tot" by linarith
    moreover from this have "unat (first + j) = unat first + unat j"
      using unat_u32_less [of ?tot] by (simp add: unat_word_ariths)
    ultimately show ?thesis by (simp add: word_less_nat_alt)
  qed
  from send_central_blocks_Inr [OF u assms(2-4) this]
  have a: "exchanged s (map (central_block_frame meta content section_id) (blocks_of_section ?tot ?sb section_id)) 0 u"
    by (simp add: blocks_of_section_def sections o_def)
  from central_receive_Inr [OF w] have c: "exchanged v [] 1 w" "cn_incoming v ! 0 = Inr f" by blast+
  have b: "exchanged s (central_section_frames meta content section_id) 0 v"
    using exchanged_trans [OF a central_send_Inr [OF v]] by (simp add: central_section_frames_def)
  have "confirms meta count section_id (cn_incoming s ! 0)"
    using c(2) exchanged_fields(3) [OF b] st ok by (auto simp: confirms_def)
  with exchanged_trans [OF b c(1)] t show ?thesis by simp
qed

lemma send_central_sections_Inr:
  assumes "send_central_sections path meta count stop_after confirmed ids s = (Inr True, t)"
    and "file_content path s = Some content" and "unat (cfm_file_size meta) = length content"
    and "exact_blocks (cfm_file_size meta) (cfm_total_blocks meta)"
  shows "exchanged s (concat (map (central_section_frames meta content) ids)) (length ids) t
    \<and> (\<forall>k < length ids. confirms meta count (ids ! k) (cn_incoming s ! k))"
  using assms(1,2)
proof (induction ids arbitrary: confirmed s)
  case Nil
  then show ?case using exchanged_refl by simp
next
  case (Cons i ids)
  then obtain u where u: "send_central_section path meta count i s = (Inr (), u)"
    "send_central_sections path meta count stop_after (confirmed + 1) ids u = (Inr True, t)"
    by (auto simp: eff_Inr Let_def split: if_splits)
  from send_central_section_Inr [OF u(1) Cons.prems(2) assms(3,4)]
  have one: "exchanged s (central_section_frames meta content i) 1 u" "confirms meta count i (cn_incoming s ! 0)"
    by blast+
  have content: "file_content path u = Some content"
    using exchanged_fields(5) [OF one(1)] Cons.prems(2) by simp
  from Cons.IH [OF u(2) content]
  have later: "exchanged u (concat (map (central_section_frames meta content) ids)) (length ids) t"
    "\<And>k. k < length ids \<Longrightarrow> confirms meta count (ids ! k) (cn_incoming u ! k)"
    by blast+
  have "cn_incoming u ! k = cn_incoming s ! Suc k" if "k < length ids" for k
    using one(1) exchanged_fields(3) [OF one(1)] by (simp add: exchanged_def)
  with later(2) have "confirms meta count (ids ! k) (cn_incoming s ! Suc k)" if "k < length ids" for k
    using that by force
  then have "\<forall>k < length (i # ids). confirms meta count ((i # ids) ! k) (cn_incoming s ! k)"
    using one(2) by (auto simp: nth_Cons split: nat.split)
  moreover have "exchanged s (concat (map (central_section_frames meta content) (i # ids))) (length (i # ids)) t"
    using exchanged_trans [OF one(1) later(1)] by simp
  ultimately show ?case by blast
qed

lemma set_sections_from: "set (sections_from next count) = {i. next \<le> i \<and> i < count}"
  by (auto simp: sections_from_def set_local_blocks)

lemma sections_from_end [simp]: "sections_from count count = []"
  by (auto simp: sections_from_def set_local_blocks filter_empty_conv)


section \<open>An example\<close>

definition example_central_sha :: "bytes \<Rightarrow> bytes" where
  "example_central_sha content = replicate 32 1"

definition example_source_meta :: CentralFileMetaMessage where
  "example_source_meta = central_meta (central_transfer_id example_central_sha (replicate 32 1) ''a'') 1 1 ''a'' (replicate 32 1)"

definition example_resume :: CentralResumeMessage where
  "example_resume = \<lparr>cr_transfer_id = cfm_transfer_id example_source_meta, cr_next_section_id = 0,
     cr_total_sections = 1, cr_file_size = 1, cr_sha256 = replicate 32 0\<rparr>"

definition example_status :: CentralStatusMessage where
  "example_status = \<lparr>cs_transfer_id = cfm_transfer_id example_source_meta, cs_status = CS_Cached,
     cs_file_size = 1, cs_sha256 = replicate 32 1\<rparr>"

definition example_central :: central where
  "example_central = \<lparr>h_files = (\<lambda>_. None)(''a'' := Some [7]), h_events = [], h_clock = 0, h_frames = [],
     h_packets = [], h_getenv = (\<lambda>_. None), h_statvfs = (\<lambda>_. Inl ''none''), h_scan = (\<lambda>_. Inl ''none''),
     cn_fd = 5, cn_stopped = False,
     cn_incoming = [Inr (encode_central_resume example_resume), Inr (encode_central_status example_status)],
     cn_connects = []\<rparr>"

lemma example_blocks: "blocks_of_file 1 = 1" "section_count_for_blocks 1 1 = Inr 1"
  "section_first_block 0 1 = Inr 0" "section_block_count 1 0 1 = Inr 1"
  "local_blocks 1 = [0]" "sections_from 0 1 = [0]" "path_filename ''a'' = ''a''"
  by (simp_all add: blocks_of_file_def kPayloadSize_def section_defs local_blocks_def sections_from_def
      path_filename_def)

lemma example_answers:
  "decode_central_resume (encode_central_resume example_resume) = Inr example_resume"
  "decode_central_status (encode_central_status example_status) = Inr example_status"
  using central_resume.dec_enc [of example_resume] central_status_msg.dec_enc [of example_status]
  by (simp_all add: example_resume_def example_status_def kSha256Size_def)

lemma example_meta_frame:
  "\<exists>frame. encode_central_file_meta example_source_meta = Inr frame \<and> valid_frame frame"
  by (auto simp: example_source_meta_def central_meta_def encode_central_file_meta_def validate_file_name_field_def
      write_file_name_def valid_frame_def wire_length kMaxControlFrameSize_def kMaxFileNameSize_def)

lemma valid_frame_length: "valid_frame f \<longleftrightarrow> 0 < length f \<and> length f \<le> kMaxControlFrameSize"
  by (auto simp: valid_frame_def)

lemma central_send_no_events:
  "h_events s = [] \<Longrightarrow> valid_frame f \<Longrightarrow>
     central_send f s = (Inr (), s\<lparr>h_frames := h_frames s @ [(cn_fd s, f)]\<rparr>)"
  by (simp add: central_send_def eff_run send_frame_no_events)

lemma example_section_run:
  assumes "h_events s = []" and "h_files s ''a'' = Some [7]"
    and "cn_incoming s = [Inr (encode_central_status example_status)]"
  shows "\<exists>t. send_central_section ''a'' example_source_meta 1 0 s = (Inr (), t)"
proof -
  let ?data = "central_data example_source_meta 0 0 0 [7]"
  obtain data where enc: "encode_central_data ?data = Inr data" and valid: "valid_frame data"
    by (simp add: encode_central_data_def central_data_def kPayloadSize_def valid_frame_length wire_length
        kMaxControlFrameSize_def)
  have valid_end: "valid_frame (encode_central_file_end (central_file_end example_source_meta 0))"
    by (simp add: encode_central_file_end_def valid_frame_length wire_length kMaxControlFrameSize_def)
  have fields: "cfm_file_size example_source_meta = 1" "cfm_total_blocks example_source_meta = 1"
    "cfm_section_block_count example_source_meta = 1" "cfm_sha256 example_source_meta = replicate 32 1"
    by (simp_all add: example_source_meta_def central_meta_def example_blocks)
  have block: "\<exists>u. send_central_block ''a'' example_source_meta 0 0 s = (Inr (), u) \<and> h_events u = []
      \<and> cn_incoming u = cn_incoming s"
    using assms enc valid
    by (simp add: send_central_block_def eff_run read_block_of_def read_block_def file_content_def fields
        c_str_def content_or_empty_def block_offset_def wanted_size_def kPayloadSize_def central_send_no_events)
  then obtain u where u: "send_central_block ''a'' example_source_meta 0 0 s = (Inr (), u)" "h_events u = []"
    "cn_incoming u = cn_incoming s" by blast
  then show ?thesis
    using assms(3) example_answers(2)
    by (simp add: send_central_section_def fields example_blocks eff_step returnS_run
        central_send_no_events [OF _ valid_end] central_receive_def bindS_run eff_run)
      (simp add: example_status_def)
qed

lemma example_central_run: "\<exists>t. central_send_file example_central_sha 1 ''a'' example_central = (Inr True, t)"
proof -
  let ?s = example_central
  obtain frame where f: "encode_central_file_meta example_source_meta = Inr frame" "valid_frame frame"
    using example_meta_frame by blast
  have sys: "syscall op ?s = (Inr (), ?s)" for op
    by (simp add: syscall_def example_central_def)
  have content: "file_content ''a'' ?s = Some [7]"
    by (simp add: file_content_def c_str_def example_central_def)
  have stat: "stat_source ''a'' ?s = (Inr 1, ?s)"
    by (simp add: stat_source_def eff_run sys content)
  have hash: "hash_file example_central_sha ''a'' ?s = (Inr (replicate 32 1), ?s)"
    by (simp add: hash_file_def eff_run sys content example_central_sha_def)
  let ?u = "?s\<lparr>h_frames := [(5, frame)]\<rparr>"
  have sent: "central_send frame ?s = (Inr (), ?u)"
    using f(2) by (simp add: central_send_no_events example_central_def)
  let ?v = "?u\<lparr>cn_incoming := [Inr (encode_central_status example_status)]\<rparr>"
  have recv: "central_receive ?u = (Inr (encode_central_resume example_resume), ?v)"
    by (simp add: central_receive_def example_central_def)
  obtain t where t: "send_central_section ''a'' example_source_meta 1 0 ?v = (Inr (), t)"
    using example_section_run [of ?v] by (auto simp: example_central_def)
  have stop: "stop_after_sections_for_test (h_getenv ?s) = Inr 0"
    by (simp add: stop_after_sections_for_test_def env_number_def example_central_def)
  have meta: "central_meta (central_transfer_id example_central_sha (replicate 32 1) ''a'') 1 1 ''a'' (replicate 32 1)
      = example_source_meta"
    by (simp add: example_source_meta_def)
  have "cfm_total_blocks example_source_meta = 1" "cfm_file_size example_source_meta = 1"
    by (simp_all add: example_source_meta_def central_meta_def example_blocks)
  then have "send_from_resume ''a'' example_source_meta 1 example_resume ?v = (Inr True, t)"
    by (simp add: send_from_resume_def example_resume_def eff_step stop example_blocks t returnS_run)
  then show ?thesis
    using f(1) by (simp add: central_send_file_def Let_def example_blocks eff_step stat hash sys sent recv meta
        validate_file_name_field_def kMaxFileNameSize_def example_answers
        \<open>cfm_total_blocks example_source_meta = 1\<close>)
qed


section \<open>The session ends\<close>

definition session_state :: "central \<Rightarrow> int \<times> (int \<times> bytes result list) result list \<times> bool" where
  "session_state s = (cn_fd s, cn_connects s, cn_stopped s)"

lemma session_state_host: "host_stable (\<lambda>s. session_state s = c)"
  by (simp add: host_stable_def session_state_def)

lemma keeps_central_send: "keeps (\<lambda>s. session_state s = c) (central_send frame)"
  unfolding central_send_def by (intro keep session_state_host)

lemma keeps_central_receive: "keeps (\<lambda>s. session_state s = c) central_receive"
  by (auto simp: keeps_def central_receive_def session_state_def split: list.split)

lemma keeps_send_central_sections: "keeps (\<lambda>s. session_state s = c)
    (send_central_sections path meta count stop_after confirmed ids)"
proof (induction ids arbitrary: confirmed)
  case Nil
  then show ?case by simp
next
  case (Cons i ids)
  have "keeps (\<lambda>s. session_state s = c) (send_central_block path meta i b)" for b
    unfolding send_central_block_def
    by (auto intro!: keep session_state_host keeps_central_send split: prod.split)
  then have "keeps (\<lambda>s. session_state s = c) (send_central_section path meta count i)"
    unfolding send_central_section_def
    by (auto intro!: keep session_state_host keeps_central_send keeps_central_receive)
  with Cons show ?case by (auto simp: Let_def intro!: keep)
qed

lemma keeps_central_send_file: "keeps (\<lambda>s. session_state s = c) (central_send_file sha sb path)"
proof -
  have "keeps (\<lambda>s. session_state s = c) (stat_source path)"
    unfolding stat_source_def by (intro keep session_state_host)
  then show ?thesis
    unfolding central_send_file_def send_from_resume_def Let_def
    by (intro keep session_state_host keeps_central_send keeps_central_receive keeps_send_central_sections)
qed

text \<open>What is left: files, attempts to connect, and whether there is a connection.\<close>

definition session_work :: "string list \<Rightarrow> central \<Rightarrow> nat" where
  "session_work files s = length files + 2 * length (cn_connects s) + (if cn_fd s \<ge> 0 then 1 else 0)"

definition unreachable :: "central \<Rightarrow> bool" where
  "unreachable s \<longleftrightarrow> cn_connects s = [] \<and> cn_fd s < 0"

lemma ensure_connected_cases:
  obtains t where "ensure_connected s = (Inr True, t)" "cn_fd s \<ge> 0" "t = s"
  | t where "ensure_connected s = (Inr True, t)" "cn_fd s < 0" "length (cn_connects t) < length (cn_connects s)"
  | t where "ensure_connected s = (Inr False, t)" "cn_fd s < 0" "cn_fd t = cn_fd s"
      "unreachable s \<and> cn_connects t = [] \<or> length (cn_connects t) < length (cn_connects s)"
proof (cases "cn_fd s \<ge> 0")
  case True
  then show thesis by (intro that(1)) (simp_all add: ensure_connected_def eff_step returnS_run)
next
  case False
  note run = ensure_connected_def pause_before_reconnect_def connect_proxy_def eff_run
  show thesis
  proof (cases "cn_connects s")
    case Nil
    then have "ensure_connected s = (Inr False, s\<lparr>h_clock := h_clock s + kReconnectDelay\<rparr>)"
      using False by (simp add: run system_error_def)
    from that(3) [OF this] show thesis using False Nil by (simp add: unreachable_def)
  next
    case (Cons c later)
    show thesis
    proof (cases c)
      case (Inl e)
      then have "ensure_connected s = (Inr False, s\<lparr>cn_connects := later, h_clock := h_clock s + kReconnectDelay\<rparr>)"
        using False Cons by (simp add: run)
      from that(3) [OF this] show thesis using False Cons by simp
    next
      case (Inr p)
      then have "ensure_connected s
          = (Inr True, s\<lparr>cn_connects := later, cn_fd := fst p, cn_incoming := snd p\<rparr>)"
        using False Cons by (cases p) (simp add: run)
      from that(2) [OF this] show thesis using False Cons by simp
    qed
  qed
qed

lemma send_next_file_cases:
  obtains t where "send_next_file sha sb f s = (Inr True, t)" "cn_fd t = cn_fd s" "cn_connects t = cn_connects s"
  | t where "send_next_file sha sb f s = (Inr False, t)" "cn_stopped t \<or> cn_fd t = -1"
      "cn_connects t = cn_connects s"
proof -
  obtain r u where r: "central_send_file sha sb f s = (r, u)" by force
  have "session_state u = session_state s"
    using keepsD [OF keeps_central_send_file [of "session_state s" sha sb f] refl] r by simp
  then have u: "cn_fd u = cn_fd s" "cn_connects u = cn_connects s" by (simp_all add: session_state_def)
  show thesis
  proof (cases r)
    case (Inl e)
    then have "send_next_file sha sb f s = (Inr False, u\<lparr>cn_fd := -1, h_clock := h_clock u + kReconnectDelay\<rparr>)"
      using r by (simp add: send_next_file_def pause_before_reconnect_def bindS_def tryS_def modifyS_def returnS_def)
    from that(2) [OF this] show thesis using u by simp
  next
    case (Inr finished)
    then have "send_next_file sha sb f s
        = (if finished then (Inr True, u) else (Inr False, u\<lparr>cn_stopped := True\<rparr>))"
      using r by (simp add: send_next_file_def bindS_def tryS_def modifyS_def returnS_def)
    then show thesis using u by (cases finished) (auto intro: that)
  qed
qed

lemma session_over: "\<exists>t. run_proxy_session sha sb n [] s = (Inr True, t)"
  by (simp add: eff_run split: sum.split)

lemma session_unreachable:
  "unreachable s \<Longrightarrow> \<exists>ended t. run_proxy_session sha sb n files s = (Inr ended, t) \<and> (ended \<or> unreachable t)"
proof (induction n arbitrary: files s)
  case 0
  then show ?case
  proof (cases files)
    case Nil
    then show ?thesis using session_over by blast
  next
    case (Cons f fs)
    with 0 show ?thesis by (intro exI [of _ False] exI [of _ s]) (simp add: returnS_run)
  qed
next
  case (Suc n)
  show ?case
  proof (cases files)
    case Nil
    then show ?thesis using session_over by blast
  next
    case (Cons f fs)
    then show ?thesis
    proof (cases rule: ensure_connected_cases [of s])
      case (3 t)
      then have "unreachable t" using Suc.prems by (auto simp: unreachable_def)
      from Suc.IH [OF this] 3 Cons show ?thesis by (simp add: eff_step)
    qed (use Suc.prems in \<open>auto simp: unreachable_def\<close>)
  qed
qed

text \<open>The session with a proxy ends. Every pass of the loop sends a file or uses up an attempt to
  connect or loses the connection, so after as many passes as there are files and twice the
  attempts, and one more, the session has ended, unless the proxy can no longer be reached; no
  exception leaves it.\<close>

theorem proxy_session_ends:
  assumes "session_work files s \<le> n"
  shows "\<exists>ended t. run_proxy_session sha sb n files s = (Inr ended, t) \<and> (ended \<or> unreachable t)"
  using assms
proof (induction n arbitrary: files s)
  case 0
  then have "files = []" by (simp add: session_work_def)
  then show ?case using session_over by blast
next
  case (Suc n)
  show ?case
  proof (cases files)
    case Nil
    then show ?thesis using session_over by blast
  next
    case (Cons f rest)
    let ?next = "\<lambda>sent. if sent then rest else f # rest"
    have after: "\<exists>ended u. bindS (send_next_file sha sb f) (\<lambda>sent. bindS (getS cn_stopped) (\<lambda>stopped.
          if stopped then returnS True else run_proxy_session sha sb n (?next sent))) t = (Inr ended, u)
        \<and> (ended \<or> unreachable u)"
      if fewer: "length (cn_connects t) < length (cn_connects s) \<or> 0 \<le> cn_fd s \<and> t = s" for t
    proof (rule send_next_file_cases [of sha sb f t])
      fix u assume u: "send_next_file sha sb f t = (Inr True, u)" "cn_fd u = cn_fd t" "cn_connects u = cn_connects t"
      have "session_work rest u \<le> n" using Suc.prems fewer u Cons by (auto simp: session_work_def split: if_splits)
      from Suc.IH [OF this] u(1) show ?thesis by (auto simp: eff_step returnS_run)
    next
      fix u assume u: "send_next_file sha sb f t = (Inr False, u)" "cn_stopped u \<or> cn_fd u = -1"
        "cn_connects u = cn_connects t"
      show ?thesis
      proof (cases "cn_stopped u")
        case True
        then show ?thesis by (intro exI [of _ True] exI [of _ u]) (simp add: eff_step u(1) returnS_run)
      next
        case False
        with Suc.prems fewer u Cons have "session_work (f # rest) u \<le> n"
          by (auto simp: session_work_def split: if_splits)
        from Suc.IH [OF this] u(1) False show ?thesis by (auto simp: eff_step)
      qed
    qed
    show ?thesis
    proof (rule ensure_connected_cases [of s])
      fix t assume "ensure_connected s = (Inr True, t)" "0 \<le> cn_fd s" "t = s"
      with after [of t] Cons show ?thesis by (simp add: eff_step)
    next
      fix t assume "ensure_connected s = (Inr True, t)" "length (cn_connects t) < length (cn_connects s)"
      with after [of t] Cons show ?thesis by (simp add: eff_step)
    next
      fix t assume t: "ensure_connected s = (Inr False, t)" "cn_fd s < 0" "cn_fd t = cn_fd s"
        "unreachable s \<and> cn_connects t = [] \<or> length (cn_connects t) < length (cn_connects s)"
      show ?thesis
      proof (cases "unreachable t")
        case True
        from session_unreachable [OF this] t(1) Cons show ?thesis by (simp add: eff_step)
      next
        case False
        then have "session_work files t \<le> n"
          using t Suc.prems by (auto simp: session_work_def unreachable_def)
        from Suc.IH [OF this] t(1) Cons show ?thesis by (simp add: eff_step)
      qed
    qed
  qed
qed

theorem proxy_session_ends_witness:
  "\<exists>ended t. run_proxy_session example_central_sha 1 2 [''a''] example_central = (Inr ended, t)
    \<and> (ended \<or> unreachable t)"
  by (rule proxy_session_ends) (simp add: session_work_def example_central_def)

end
