(* ===== verification/Central_Exchange.thy ===== *)
theory Central_Exchange
  imports Central_Cache Central_Sender
begin

text \<open>
  The central sender and the proxy together. \<open>Central_Sender\<close> shows which frames a sender puts on
  the connection for a Section; here these frames are what the proxy of \<open>Central_Cache\<close> receives.
  \<open>caching\<close> is the proxy's invariant: the temporary file has the announced size, and every block
  flagged as received has the bytes of the source file.
\<close>

section \<open>The proxy's temporary file\<close>

text \<open>\<open>content\<close> is the source file, and what was announced fits it.\<close>

definition source_of :: "central_job \<Rightarrow> bytes \<Rightarrow> bool" where
  "source_of job content \<longleftrightarrow>
     (let meta = cj_meta job in
      cfm_block_size meta = of_nat kPayloadSize \<and> unat (cfm_file_size meta) = length content
      \<and> exact_blocks (cfm_file_size meta) (cfm_total_blocks meta) \<and> cfm_section_block_count meta \<noteq> 0
      \<and> unat (cj_section_count job)
          = sections (unat (cfm_total_blocks meta)) (unat (cfm_section_block_count meta)))"

definition caching :: "central_job \<Rightarrow> bytes \<Rightarrow> cache \<Rightarrow> proxy \<Rightarrow> bool" where
  "caching job content c p \<longleftrightarrow>
     length (ca_received c) = unat (cfm_total_blocks (cj_meta job)) \<and>
     (\<exists>cached. file_content (cj_temporary_path job) p = Some cached \<and> length cached = length content
        \<and> (\<forall>b < length (ca_received c). ca_received c ! b \<noteq> 0 \<longrightarrow> block_bytes cached b = block_bytes content b))"

abbreviation source_block :: "central_job \<Rightarrow> bytes \<Rightarrow> u32 \<Rightarrow> u32 \<Rightarrow> CentralDataMessage" where
  "source_block job content section_id b \<equiv>
     central_data (cj_meta job) section_id b (block_offset b) (block_bytes content (unat b))"

lemma source_block_fits:
  assumes "source_of job content" and "b < cfm_total_blocks (cj_meta job)"
  shows "central_data_fits (cj_meta job) (source_block job content section_id b)"
proof -
  let ?meta = "cj_meta job" and ?n = "length (block_bytes content (unat b))"
  from assms(1) have bs: "cfm_block_size ?meta = 1200" and exact: "exact_blocks (cfm_file_size ?meta) (cfm_total_blocks ?meta)"
    and size: "unat (cfm_file_size ?meta) = length content"
    by (simp_all add: source_of_def Let_def kPayloadSize_def)
  have off: "ucast b * ucast (cfm_block_size ?meta) = block_offset b"
    by (simp add: bs block_offset_def kPayloadSize_def)
  have wanted: "?n = wanted_size (cfm_file_size ?meta) (block_offset b)"
    by (simp add: length_block_bytes wanted_in_file [OF exact assms(2)] size)
  have small: "?n \<le> 1200" by (simp add: length_block_bytes kPayloadSize_def)
  have "unat (central_block_size ?meta b) = ?n"
  proof -
    have "central_block_size ?meta b = ucast (min 1200 (cfm_file_size ?meta - block_offset b))"
      unfolding central_block_size_def off by (simp add: bs)
    moreover have "unat (min 1200 (cfm_file_size ?meta - block_offset b)) = ?n"
      by (simp add: wanted wanted_size_def kPayloadSize_def)
    ultimately show ?thesis using small by (simp add: unsigned_ucast_eq take_bit_nat_eq_self)
  qed
  then have n: "of_nat ?n = central_block_size ?meta b"
    using small by (simp add: word_unat_eq_iff unat_of_nat_u16)
  have "unat (ucast (of_nat ?n :: u16) :: u64) = ?n"
    using small by (simp add: unsigned_ucast_eq take_bit_nat_eq_self unat_of_nat_u16)
  moreover have "unat b * kPayloadSize + ?n \<le> unat (cfm_file_size ?meta)"
    using block_inside [OF exact assms(2)] by (simp add: size length_block_bytes)
  ultimately have "unat (block_offset b + ucast (of_nat ?n :: u16)) \<le> unat (cfm_file_size ?meta)"
    using unat_u64_less [of "cfm_file_size ?meta"] by (simp add: unat_word_ariths unat_block_offset)
  then have "\<not> block_offset b + ucast (of_nat ?n :: u16) > cfm_file_size ?meta"
    by (simp add: word_less_nat_alt)
  then show ?thesis by (simp add: central_data_fits_def central_data_def off n)
qed

lemma source_block_frame:
  "peek_control_type (central_block_frame (cj_meta job) content section_id b) = Inr CT_CentralData"
  "decode_central_data (central_block_frame (cj_meta job) content section_id b)
     = Inr (source_block job content section_id b)"
proof -
  let ?d = "source_block job content section_id b"
  have "length (block_bytes content (unat b)) < 65536" by (simp add: length_block_bytes kPayloadSize_def)
  then have valid: "length (cd_payload ?d) = unat (cd_payload_size ?d) \<and> length (cd_payload ?d) \<le> kPayloadSize"
    by (simp add: central_data_def unat_of_nat_u16 length_block_bytes)
  from central_data.enc_total [OF this]
  have "encode_central_data ?d = Inr (central_block_frame (cj_meta job) content section_id b)"
    by (auto simp: central_block_frame_def)
  with central_data.peek_enc [OF valid] central_data.dec_enc [OF valid]
  show "peek_control_type (central_block_frame (cj_meta job) content section_id b) = Inr CT_CentralData"
    "decode_central_data (central_block_frame (cj_meta job) content section_id b) = Inr ?d" by blast+
qed

text \<open>Writing a block leaves the other blocks alone.\<close>

lemma write_source_block:
  assumes "source_of job content" and "b < cfm_total_blocks (cj_meta job)" and "length cached = length content"
  shows "length (write_at cached (unat b * kPayloadSize) (block_bytes content (unat b))) = length cached"
    and "block_bytes (write_at cached (unat b * kPayloadSize) (block_bytes content (unat b))) i
      = (if i = unat b then block_bytes content i else block_bytes cached i)"
proof -
  let ?data = "block_bytes content (unat b)"
  let ?new = "write_at cached (unat b * kPayloadSize) ?data"
  have inside: "unat b * kPayloadSize < length content"
    using block_inside [of "cfm_file_size (cj_meta job)", OF _ assms(2)] assms(1) by (simp add: source_of_def Let_def)
  then have fit: "unat b * kPayloadSize + length ?data \<le> length cached"
    by (simp add: length_block_bytes assms(3))
  then show len: "length ?new = length cached" by (rule length_write_at)
  have same: "block_bytes ?new (unat b) = ?data"
    by (rule block_of_write_same [OF fit]) (use inside in \<open>auto simp: length_block_bytes assms(3) min_def\<close>)
  have other: "block_bytes ?new i = block_bytes cached i" if "i \<noteq> unat b"
  proof (rule block_of_write_other [OF len that])
    show "length ?data \<le> kPayloadSize" by (simp add: length_block_bytes)
    fix j assume "j < unat b * kPayloadSize \<or> unat b * kPayloadSize + length ?data \<le> j" "j < length cached"
    then show "?new ! j = cached ! j" using fit by (auto simp: write_at_def nth_append)
  qed
  show "block_bytes ?new i = (if i = unat b then block_bytes content i else block_bytes cached i)"
    using same other by simp
qed

section \<open>Receiving the blocks of a Section\<close>

text \<open>What blocks \<open>bs\<close> of the current Section change: they are flagged, and only the temporary file
  differs.\<close>

definition took_blocks :: "central_job \<Rightarrow> u32 set \<Rightarrow> cache \<Rightarrow> proxy \<Rightarrow> cache \<Rightarrow> proxy \<Rightarrow> bool" where
  "took_blocks job bs c p c' q \<longleftrightarrow>
     ca_next_section_id c' = ca_next_section_id c \<and> ca_rejected_count c' = ca_rejected_count c
     \<and> length (ca_received c') = length (ca_received c)
     \<and> (\<forall>b \<in> bs. ca_received c' ! unat b \<noteq> 0)
     \<and> (\<forall>i < length (ca_received c). ca_received c ! i \<noteq> 0 \<longrightarrow> ca_received c' ! i \<noteq> 0)
     \<and> (\<exists>files. q = p\<lparr>h_files := files\<rparr> \<and> (\<forall>x. x \<noteq> c_str (cj_temporary_path job) \<longrightarrow> files x = h_files p x))"

lemma took_none: "took_blocks job {} c p c p"
  by (auto simp: took_blocks_def intro!: exI [of _ "h_files p"])

lemma took_trans:
  assumes "took_blocks job xs c p c' q" and "took_blocks job ys c' q d r"
    and "\<forall>b \<in> xs. unat b < length (ca_received c)"
  shows "took_blocks job (xs \<union> ys) c p d r"
proof -
  from assms obtain f1 f2 where "q = p\<lparr>h_files := f1\<rparr>" "r = q\<lparr>h_files := f2\<rparr>"
    "\<forall>x. x \<noteq> c_str (cj_temporary_path job) \<longrightarrow> f1 x = h_files p x"
    "\<forall>x. x \<noteq> c_str (cj_temporary_path job) \<longrightarrow> f2 x = h_files q x"
    by (auto simp: took_blocks_def)
  then have "\<exists>files. r = p\<lparr>h_files := files\<rparr> \<and> (\<forall>x. x \<noteq> c_str (cj_temporary_path job) \<longrightarrow> files x = h_files p x)"
    by (intro exI [of _ f2]) auto
  then show ?thesis using assms by (auto simp: took_blocks_def)
qed

lemma cache_source_block:
  assumes "source_of job content" and "caching job content c p" and "h_events p = []"
    and "b \<in> set (blocks_of_section (cfm_total_blocks (cj_meta job)) (cfm_section_block_count (cj_meta job)) (ca_next_section_id c))"
    and "unat (ca_next_section_id c) < unat (cj_section_count job)"
  shows "b < cfm_total_blocks (cj_meta job) \<and> (\<exists>c' q.
    cache_frame sha job (central_block_frame (cj_meta job) content (ca_next_section_id c) b) c p = (Inr (Inr c'), q)
      \<and> caching job content c' q \<and> took_blocks job {b} c p c' q)"
proof -
  let ?meta = "cj_meta job" and ?s = "ca_next_section_id c" and ?data = "block_bytes content (unat b)"
  let ?d = "source_block job content ?s b"
  from assms(1,5) have sb: "cfm_section_block_count ?meta \<noteq> 0"
    "unat ?s < sections (unat (cfm_total_blocks ?meta)) (unat (cfm_section_block_count ?meta))"
    by (simp_all add: source_of_def Let_def)
  have id: "section_id_for_block b (cfm_section_block_count ?meta) = Inr ?s"
    by (rule blocks_of_section_id [OF sb assms(4)])
  have b: "b < cfm_total_blocks ?meta" by (rule blocks_of_section_less [OF assms(4)])
  from assms(2) obtain cached where cached: "file_content (cj_temporary_path job) p = Some cached"
    "length cached = length content" "length (ca_received c) = unat (cfm_total_blocks ?meta)"
    "\<And>i. i < length (ca_received c) \<Longrightarrow> ca_received c ! i \<noteq> 0 \<Longrightarrow> block_bytes cached i = block_bytes content i"
    by (auto simp: caching_def)
  have step: "cache_frame sha job (central_block_frame ?meta content ?s b) c p
      = bindS (cache_block job ?d c) (\<lambda>c. returnS (Inr c)) p"
    by (simp add: cache_frame_def source_block_frame eff_step)
  have fits: "central_data_fits ?meta ?d" by (rule source_block_fits [OF assms(1) b])
  have guards: "cd_transfer_id ?d = cfm_transfer_id ?meta" "cd_block_id ?d = b" "cd_section_id ?d = ?s"
    "cd_payload ?d = ?data" "cd_offset ?d = block_offset b"
    by (simp_all add: central_data_def)
  have place: "unat b < length (ca_received c)" using b cached(3) by (simp add: word_less_nat_alt)
  show ?thesis
  proof (cases "ca_received c ! unat b = 0")
    case False
    then have "cache_block job ?d c p = (Inr (c\<lparr>ca_duplicate_count := ca_duplicate_count c + 1\<rparr>), p)"
      using fits b id by (simp add: cache_block_def guards Let_def eff_step returnS_run not_le)
    then have "cache_frame sha job (central_block_frame ?meta content ?s b) c p
        = (Inr (Inr (c\<lparr>ca_duplicate_count := ca_duplicate_count c + 1\<rparr>)), p)"
      by (simp add: step eff_step returnS_run)
    moreover have "took_blocks job {b} c p (c\<lparr>ca_duplicate_count := ca_duplicate_count c + 1\<rparr>) p"
      using False by (auto simp: took_blocks_def intro!: exI [of _ "h_files p"])
    ultimately show ?thesis using assms(2) b by (auto simp: caching_def)
  next
    case True
    let ?new = "write_at cached (unat b * kPayloadSize) ?data"
    let ?c = "c\<lparr>ca_received := (ca_received c)[unat b := 1], ca_received_count := ca_received_count c + 1\<rparr>"
    let ?q = "p\<lparr>h_files := (h_files p)(c_str (cj_temporary_path job) := Some ?new)\<rparr>"
    have "write_all_at (cj_temporary_path job) ?data (block_offset b) p = (Inr (), ?q)"
      using assms(3) cached(1)
      by (simp add: write_all_at_def content_or_empty_def put_file_def modifyS_run unat_block_offset)
    then have "cache_block job ?d c p = (Inr ?c, ?q)"
      using fits b id True by (simp add: cache_block_def guards Let_def eff_step returnS_run not_le)
    then have "cache_frame sha job (central_block_frame ?meta content ?s b) c p = (Inr (Inr ?c), ?q)"
      by (simp add: step eff_step returnS_run)
    moreover have "took_blocks job {b} c p ?c ?q"
      using place unfolding took_blocks_def
      by (intro conjI exI [of _ "(h_files p)(c_str (cj_temporary_path job) := Some ?new)"]) (auto simp: nth_list_update)
    moreover have "caching job content ?c ?q"
      using cached write_source_block [OF assms(1) b cached(2)]
      by (auto simp: caching_def file_content_def nth_list_update)
    ultimately show ?thesis using b by blast
  qed
qed

section \<open>The receive loop\<close>

text \<open>No call fails, and the worker does not come between.\<close>

definition undisturbed :: "proxy \<Rightarrow> bool" where
  "undisturbed p \<longleftrightarrow> h_events p = [] \<and> px_schedule p = [] \<and> px_worker_error p = None"

lemma caching_central [simp]: "caching job content c (p\<lparr>px_central := x\<rparr>) = caching job content c p"
  by (simp add: caching_def file_content_def)

lemma caching_next [simp]: "caching job content (c\<lparr>ca_next_section_id := x\<rparr>) p = caching job content c p"
  by (simp add: caching_def)

lemma caching_same_file:
  "file_content (cj_temporary_path job) q = file_content (cj_temporary_path job) p \<Longrightarrow>
     caching job content c q = caching job content c p"
  by (simp add: caching_def)

lemma undisturbed_central [simp]: "undisturbed (p\<lparr>px_central := x\<rparr>) = undisturbed p"
  by (simp add: undisturbed_def)

lemma worker_runs_undisturbed: "px_schedule p = [] \<Longrightarrow> worker_runs d p = (Inr (), p)"
  by (cases p) (simp add: worker_runs_def eff_step returnS_run)

lemma cache_loop_step:
  assumes "undisturbed p" and "px_central p = Inr frame # later"
    and "cache_frame sha job frame c (p\<lparr>px_central := later\<rparr>) = (Inr (Inr c'), q)"
  shows "cache_loop sha job (Suc m) c p = cache_loop sha job m c' q"
proof -
  have ok: "throw_if_worker_failed d u = (Inr (), u)" if "px_schedule u = []" "px_worker_error u = None" for d u
    using that worker_runs_undisturbed by (simp add: throw_if_worker_failed_def eff_step returnS_run)
  have "receive_central p = (Inr frame, p\<lparr>px_central := later\<rparr>)"
    using assms(2) by (simp add: receive_central_def)
  then show ?thesis
    using assms(1,3) ok [of p] ok [of "p\<lparr>px_central := later\<rparr>"]
    by (subst cache_loop.simps) (simp add: undisturbed_def eff_step)
qed

lemma cache_source_blocks:
  assumes "source_of job content" and "caching job content c p" and "undisturbed p"
    and "unat (ca_next_section_id c) < unat (cj_section_count job)"
    and "px_central p = map (\<lambda>b. Inr (central_block_frame (cj_meta job) content (ca_next_section_id c) b)) bs @ later"
    and "set bs \<subseteq> set (blocks_of_section (cfm_total_blocks (cj_meta job)) (cfm_section_block_count (cj_meta job))
      (ca_next_section_id c))"
  shows "\<exists>c' q. cache_loop sha job (length bs + m) c p = cache_loop sha job m c' q
    \<and> caching job content c' q \<and> took_blocks job (set bs) c (p\<lparr>px_central := later\<rparr>) c' q"
  using assms(2-6)
proof (induction bs arbitrary: c p)
  case Nil
  then have same: "p\<lparr>px_central := later\<rparr> = p" by (cases p) simp
  from Nil took_none [of job c p] show ?case unfolding same by auto
next
  case (Cons b bs)
  let ?frames = "\<lambda>bs. map (\<lambda>b. Inr (central_block_frame (cj_meta job) content (ca_next_section_id c) b)) bs @ later"
  let ?p = "p\<lparr>px_central := ?frames bs\<rparr>"
  have pre: "caching job content c ?p" "h_events ?p = []" "undisturbed ?p"
    using Cons.prems(1,2) by (simp_all only: caching_central undisturbed_central) (simp add: undisturbed_def)
  from cache_source_block [OF assms(1) pre(1,2) _ Cons.prems(3), of b sha] Cons.prems(5)
  obtain c1 q1 where b: "b < cfm_total_blocks (cj_meta job)"
    and one: "cache_frame sha job (central_block_frame (cj_meta job) content (ca_next_section_id c) b) c ?p = (Inr (Inr c1), q1)"
    and c1: "caching job content c1 q1" "took_blocks job {b} c ?p c1 q1"
    by auto
  from c1(2) obtain files where q1: "q1 = ?p\<lparr>h_files := files\<rparr>"
    and other: "\<forall>x. x \<noteq> c_str (cj_temporary_path job) \<longrightarrow> files x = h_files p x"
    and next_id: "ca_next_section_id c1 = ca_next_section_id c" by (auto simp: took_blocks_def)
  have "\<exists>c' q. cache_loop sha job (length bs + m) c1 q1 = cache_loop sha job m c' q
    \<and> caching job content c' q \<and> took_blocks job (set bs) c1 (q1\<lparr>px_central := later\<rparr>) c' q"
    using Cons.prems pre(3) c1(1) next_id q1 by (intro Cons.IH) (simp_all add: undisturbed_def)
  then obtain c' q where rest: "cache_loop sha job (length bs + m) c1 q1 = cache_loop sha job m c' q"
    "caching job content c' q" "took_blocks job (set bs) c1 (q1\<lparr>px_central := later\<rparr>) c' q" by blast
  have first: "took_blocks job {b} c (p\<lparr>px_central := later\<rparr>) c1 (q1\<lparr>px_central := later\<rparr>)"
    using c1(2) other unfolding took_blocks_def q1
    by (elim conjE, intro conjI exI [of _ files]) simp_all
  have "length (ca_received c) = unat (cfm_total_blocks (cj_meta job))" using Cons.prems(1) by (simp add: caching_def)
  then have "took_blocks job (set (b # bs)) c (p\<lparr>px_central := later\<rparr>) c' q"
    using took_trans [OF first rest(3)] b by (simp add: word_less_nat_alt)
  moreover have "cache_loop sha job (length (b # bs) + m) c p = cache_loop sha job m c' q"
    using cache_loop_step [OF Cons.prems(2) _ one] Cons.prems(4) rest(1) by simp
  ultimately show ?case using rest(2) by blast
qed

section \<open>A whole Section\<close>

lemma source_section:
  assumes "source_of job content" and "unat s < unat (cj_section_count job)"
  shows "\<exists>n b. section_first_block s (cfm_section_block_count (cj_meta job)) = Inr (s * cfm_section_block_count (cj_meta job))
    \<and> section_block_count (cfm_total_blocks (cj_meta job)) s (cfm_section_block_count (cj_meta job)) = Inr n
    \<and> section_bytes (cj_meta job) s = Inr b \<and> b \<le> maximum_section_bytes (cj_meta job)
    \<and> blocks_of_section (cfm_total_blocks (cj_meta job)) (cfm_section_block_count (cj_meta job)) s
        = map (\<lambda>j. s * cfm_section_block_count (cj_meta job) + j) (local_blocks n)"
proof -
  let ?meta = "cj_meta job"
  from assms have sb: "cfm_section_block_count ?meta \<noteq> 0"
    "unat s < sections (unat (cfm_total_blocks ?meta)) (unat (cfm_section_block_count ?meta))"
    by (simp_all add: source_of_def Let_def)
  from section_block_count_no_wrap [OF sb] obtain n where
    n: "section_block_count (cfm_total_blocks ?meta) s (cfm_section_block_count ?meta) = Inr n" by blast
  have first: "section_first_block s (cfm_section_block_count ?meta) = Inr (s * cfm_section_block_count ?meta)"
    by (rule section_first_no_wrap(1) [OF sb])
  obtain b where b: "section_bytes ?meta s = Inr b"
    by (simp add: section_bytes_def first n Let_def)
  have "b \<le> maximum_section_bytes ?meta"
    using section_bytes_bound [OF b] assms(1) by (simp add: source_of_def Let_def)
  with first n b show ?thesis by (auto simp: blocks_of_section_def)
qed

lemma enqueue_undisturbed:
  assumes "undisturbed p" and "section_bytes meta s = Inr b" and "b \<le> maximum_section_bytes meta"
    and "px_pending_bytes p \<le> low_watermark meta" and "cfm_block_size meta = of_nat kPayloadSize"
  shows "enqueue_section d meta s p
    = (Inr (), p\<lparr>px_queue := px_queue p @ [(s, b)], px_pending_bytes := px_pending_bytes p + b\<rparr>)"
proof -
  note w = watermarks [OF assms(5)]
  have "unat (px_pending_bytes p) + unat b \<le> unat (high_watermark meta)"
    using assms(3,4) w by (simp add: word_le_nat_alt)
  moreover from this have "unat (px_pending_bytes p + b) = unat (px_pending_bytes p) + unat b"
    using unat_u64_less [of "high_watermark meta"] by (simp add: unat_word_ariths)
  ultimately have "\<not> px_pending_bytes p + b > high_watermark meta" by (simp add: word_less_nat_alt)
  then show ?thesis
    using assms(1,2) by (simp add: enqueue_section_def undisturbed_def worker_runs_undisturbed eff_step modifyS_run)
qed

lemma send_central_status_undisturbed:
  assumes "h_events p = []" and "length sha256 = kSha256Size"
  shows "\<exists>frame. send_central_status meta status sha256 p = (Inr (), p\<lparr>h_frames := h_frames p @ [(px_central_fd p, frame)]\<rparr>)
    \<and> decode_central_status frame = Inr \<lparr>cs_transfer_id = cfm_transfer_id meta, cs_status = status,
        cs_file_size = cfm_file_size meta, cs_sha256 = sha256\<rparr>"
proof -
  let ?m = "\<lparr>cs_transfer_id = cfm_transfer_id meta, cs_status = status, cs_file_size = cfm_file_size meta,
    cs_sha256 = sha256\<rparr>"
  have "valid_frame (encode_central_status ?m)"
    using assms(2) by (simp add: encode_central_status_def valid_frame_length wire_length kMaxControlFrameSize_def kSha256Size_def)
  moreover have "decode_central_status (encode_central_status ?m) = Inr ?m"
    by (rule central_status_msg.dec_enc) (simp_all add: assms(2))
  ultimately show ?thesis
    using assms(1)
    by (intro exI [of _ "encode_central_status ?m"])
      (simp add: send_central_status_def send_central_def eff_step send_frame_no_events)
qed

definition section_job_paths :: "central_job \<Rightarrow> bool" where
  "section_job_paths job \<longleftrightarrow>
     distinct (map c_str [cj_temporary_path job, cj_checkpoint_path job, cj_checkpoint_path job @ ''.tmp''])"

lemma cache_source_end:
  assumes "source_of job content" and "caching job content c p" and "undisturbed p"
    and "ca_rejected_count c = 0" and "unat (ca_next_section_id c) + 1 < unat (cj_section_count job)"
    and "\<forall>b \<in> set (blocks_of_section (cfm_total_blocks (cj_meta job)) (cfm_section_block_count (cj_meta job))
          (ca_next_section_id c)). ca_received c ! unat b \<noteq> 0"
    and "section_job_paths job" and "px_pending_bytes p \<le> low_watermark (cj_meta job)"
  shows "\<exists>q frame b.
    cache_frame sha job (encode_central_file_end (central_file_end (cj_meta job) (ca_next_section_id c))) c p
      = (Inr (Inr (c\<lparr>ca_next_section_id := ca_next_section_id c + 1\<rparr>)), q)
    \<and> caching job content c q \<and> undisturbed q \<and> px_central q = px_central p
    \<and> section_bytes (cj_meta job) (ca_next_section_id c) = Inr b
    \<and> px_queue q = px_queue p @ [(ca_next_section_id c, b)]
    \<and> file_content (cj_checkpoint_path job) q
        = Some (bytes_of_string (central_checkpoint_text (cj_meta job) (ca_next_section_id c + 1)))
    \<and> h_frames q = h_frames p @ [(px_central_fd p, frame)]
    \<and> confirms (cj_meta job) (cj_section_count job) (ca_next_section_id c) (Inr frame)"
proof -
  let ?meta = "cj_meta job" and ?s = "ca_next_section_id c" and ?cp = "cj_checkpoint_path job"
  let ?e = "central_file_end ?meta ?s"
  have s: "unat ?s < unat (cj_section_count job)" using assms(5) by simp
  from source_section [OF assms(1) s] obtain n b where first: "section_first_block ?s (cfm_section_block_count ?meta)
        = Inr (?s * cfm_section_block_count ?meta)"
    and n: "section_block_count (cfm_total_blocks ?meta) ?s (cfm_section_block_count ?meta) = Inr n"
    and b: "section_bytes ?meta ?s = Inr b" "b \<le> maximum_section_bytes ?meta"
    and blocks: "blocks_of_section (cfm_total_blocks ?meta) (cfm_section_block_count ?meta) ?s
        = map (\<lambda>j. ?s * cfm_section_block_count ?meta + j) (local_blocks n)" by blast
  have bs: "cfm_block_size ?meta = of_nat kPayloadSize" using assms(1) by (simp add: source_of_def Let_def)
  have complete: "section_complete (ca_received c) (?s * cfm_section_block_count ?meta) n"
    using assms(6) by (simp add: section_complete_def list_all_iff blocks)
  have ne: "?s + 1 \<noteq> cj_section_count job"
  proof
    assume "?s + 1 = cj_section_count job"
    then have "unat (?s + 1) = unat (cj_section_count job)" by (rule arg_cong)
    moreover have "unat (?s + 1) = unat ?s + 1"
      using assms(5) unat_u32_less [of "cj_section_count job"] by (simp add: unat_word_ariths)
    ultimately show False using assms(5) by simp
  qed
  have clean: "end_is_clean job ?e c"
    using assms(4) s by (simp add: end_is_clean_def central_file_end_def word_le_nat_alt)
  let ?files = "(h_files p)(c_str (?cp @ ''.tmp'') := None,
      c_str ?cp := Some (bytes_of_string (central_checkpoint_text ?meta (?s + 1))))"
  let ?p1 = "p\<lparr>h_files := ?files\<rparr>"
  let ?p2 = "?p1\<lparr>px_queue := px_queue p @ [(?s, b)], px_pending_bytes := px_pending_bytes p + b\<rparr>"
  have idle: "h_events p = []" using assms(3) by (simp add: undisturbed_def)
  have saved: "save_central_checkpoint ?cp ?meta (?s + 1) p = (Inr (), ?p1)"
    using save_central_checkpoint_no_events [OF idle] assms(7) by (simp add: section_job_paths_def)
  have "enqueue_section (cj_delivery job) ?meta ?s ?p1 = (Inr (), ?p2)"
    using enqueue_undisturbed [of ?p1, OF _ b _ bs] assms(3,8) by (simp add: undisturbed_def)
  then have committed: "commit_section job ?s p = (Inr (), ?p2)"
    using saved ne idle by (simp add: commit_section_def eff_step syscall_def)
  have zeros: "length no_digest = kSha256Size" by (simp add: no_digest_def)
  from send_central_status_undisturbed [OF _ zeros, of ?p2 ?meta CS_Cached] idle obtain frame where
    frame: "send_central_status ?meta CS_Cached no_digest ?p2
        = (Inr (), ?p2\<lparr>h_frames := h_frames p @ [(px_central_fd p, frame)]\<rparr>)"
      "decode_central_status frame = Inr \<lparr>cs_transfer_id = cfm_transfer_id ?meta, cs_status = CS_Cached,
          cs_file_size = cfm_file_size ?meta, cs_sha256 = no_digest\<rparr>" by auto
  let ?q = "?p2\<lparr>h_frames := h_frames p @ [(px_central_fd p, frame)]\<rparr>"
  have "cache_section_end job ?e c p = (Inr (Some (c\<lparr>ca_next_section_id := ?s + 1\<rparr>)), ?q)"
    using clean complete ne committed frame(1) first n
    by (simp add: cache_section_end_def Let_def central_file_end_def eff_step returnS_run)
  moreover have "decode_central_file_end (encode_central_file_end ?e) = Inr ?e"
    by (rule central_file_end.dec_enc [OF TrueI refl])
  moreover have "peek_control_type (encode_central_file_end ?e) = Inr CT_CentralFileEnd"
    by (rule central_file_end.peek_enc [OF TrueI refl])
  ultimately have "cache_frame sha job (encode_central_file_end ?e) c p
      = (Inr (Inr (c\<lparr>ca_next_section_id := ?s + 1\<rparr>)), ?q)"
    by (simp add: cache_frame_def eff_step returnS_run)
  moreover have "caching job content c ?q"
    using assms(2,7) by (subst caching_same_file [of _ _ p]) (simp_all add: file_content_def section_job_paths_def)
  moreover have "confirms ?meta (cj_section_count job) ?s (Inr frame)"
    using frame(2) ne by (simp add: confirms_def)
  ultimately show ?thesis
    using b(1) assms(3) by (intro exI [of _ ?q] exI [of _ frame] exI [of _ b]) (simp add: file_content_def undisturbed_def)
qed

text \<open>C37: The central sender and the proxy agree on a Section. When the frames the proxy reads are those
  the sender sends for the next Section (as \<open>central_file_sent\<close> shows), no call fails, the worker
  keeps up and it is not the last Section, the proxy's receive loop goes on behind these frames with:
  the bytes of the source file in every block of the Section, none rejected, the Section queued for
  distribution, the checkpoint on disk naming the next Section, and one frame sent to the central
  sender, which the sender takes as the confirmation of this Section.\<close>

theorem central_section_cached:
  assumes "source_of job content" and "caching job content c p" and "undisturbed p"
    and "ca_rejected_count c = 0" and "unat (ca_next_section_id c) + 1 < unat (cj_section_count job)"
    and "px_central p = map Inr (central_section_frames (cj_meta job) content (ca_next_section_id c)) @ later"
    and "section_job_paths job" and "px_pending_bytes p \<le> low_watermark (cj_meta job)"
  shows "\<exists>c' q frame b.
    cache_loop sha job (length (central_section_frames (cj_meta job) content (ca_next_section_id c)) + m) c p
      = cache_loop sha job m c' q
    \<and> caching job content c' q \<and> undisturbed q \<and> px_central q = later
    \<and> (\<forall>x \<in> set (blocks_of_section (cfm_total_blocks (cj_meta job)) (cfm_section_block_count (cj_meta job))
          (ca_next_section_id c)). ca_received c' ! unat x \<noteq> 0)
    \<and> ca_next_section_id c' = ca_next_section_id c + 1 \<and> ca_rejected_count c' = 0
    \<and> section_bytes (cj_meta job) (ca_next_section_id c) = Inr b
    \<and> px_queue q = px_queue p @ [(ca_next_section_id c, b)]
    \<and> file_content (cj_checkpoint_path job) q
        = Some (bytes_of_string (central_checkpoint_text (cj_meta job) (ca_next_section_id c + 1)))
    \<and> h_frames q = h_frames p @ [(px_central_fd p, frame)]
    \<and> confirms (cj_meta job) (cj_section_count job) (ca_next_section_id c) (Inr frame)"
proof -
  let ?s = "ca_next_section_id c"
  let ?bs = "blocks_of_section (cfm_total_blocks (cj_meta job)) (cfm_section_block_count (cj_meta job)) ?s"
  let ?last = "encode_central_file_end (central_file_end (cj_meta job) ?s)"
  have s: "unat ?s < unat (cj_section_count job)" using assms(5) by simp
  have incoming: "px_central p = map (\<lambda>b. Inr (central_block_frame (cj_meta job) content ?s b)) ?bs @ Inr ?last # later"
    using assms(6) by (simp add: central_section_frames_def)
  from cache_source_blocks [OF assms(1-3) s this order_refl, of sha "Suc m"] obtain c1 q1 where
    blocks: "cache_loop sha job (length ?bs + Suc m) c p = cache_loop sha job (Suc m) c1 q1" "caching job content c1 q1"
      "took_blocks job (set ?bs) c (p\<lparr>px_central := Inr ?last # later\<rparr>) c1 q1" by blast
  from blocks(3) obtain files where q1: "q1 = p\<lparr>px_central := Inr ?last # later, h_files := files\<rparr>"
    and c1: "ca_next_section_id c1 = ?s" "ca_rejected_count c1 = 0" "\<forall>b \<in> set ?bs. ca_received c1 ! unat b \<noteq> 0"
    using assms(4) by (auto simp: took_blocks_def)
  let ?u = "q1\<lparr>px_central := later\<rparr>"
  have und: "undisturbed q1" using assms(3) by (simp add: q1 undisturbed_def)
  have "caching job content c1 ?u" "undisturbed ?u" "px_pending_bytes ?u \<le> low_watermark (cj_meta job)"
    using blocks(2) und assms(8) by (simp_all only: caching_central undisturbed_central) (simp add: q1)
  from cache_source_end [OF assms(1) this(1,2) c1(2) _ _ assms(7) this(3), of sha] c1 assms(5)
  obtain q frame b where e: "cache_frame sha job ?last c1 ?u = (Inr (Inr (c1\<lparr>ca_next_section_id := ?s + 1\<rparr>)), q)"
    and q: "caching job content c1 q" "undisturbed q" "px_central q = later" "section_bytes (cj_meta job) ?s = Inr b"
      "px_queue q = px_queue p @ [(?s, b)]" "file_content (cj_checkpoint_path job) q
        = Some (bytes_of_string (central_checkpoint_text (cj_meta job) (?s + 1)))"
      "h_frames q = h_frames p @ [(px_central_fd p, frame)]"
      "confirms (cj_meta job) (cj_section_count job) ?s (Inr frame)"
    by (auto simp: q1)
  have "px_central q1 = Inr ?last # later" by (simp add: q1)
  from cache_loop_step [OF und this e] blocks(1)
  have "cache_loop sha job (length (central_section_frames (cj_meta job) content ?s) + m) c p
      = cache_loop sha job m (c1\<lparr>ca_next_section_id := ?s + 1\<rparr>) q"
    by (simp add: central_section_frames_def)
  then show ?thesis
    using q c1 by (intro exI [of _ "c1\<lparr>ca_next_section_id := ?s + 1\<rparr>"] exI [of _ q] exI [of _ frame] exI [of _ b])
      simp
qed

section \<open>What a confirmation means\<close>

lemma save_central_checkpoint_Inr:
  assumes "save_central_checkpoint path meta n s = (Inr (), t)" and "c_str path \<noteq> c_str (path @ ''.tmp'')"
  shows "file_content path t = Some (bytes_of_string (central_checkpoint_text meta n))"
    and "x \<noteq> c_str path \<Longrightarrow> x \<noteq> c_str (path @ ''.tmp'') \<Longrightarrow> h_files t x = h_files s x"
proof -
  let ?tmp = "path @ ''.tmp''" and ?text = "central_checkpoint_text meta n"
  from assms(1) obtain err1 err2 what u where w: "write_text_file ?tmp ?text err1 err2 s = (Inr (), u)"
    and r: "rename_file ?tmp path what u = (Inr (), t)"
    by (auto simp: save_central_checkpoint_def Let_def eff_Inr)
  have content: "h_files u (c_str ?tmp) = Some (bytes_of_string ?text)" by (rule write_text_file_ok [OF w])
  obtain v where v: "syscall what u = (Inr (), v)" and t: "h_files t = (h_files v)(c_str ?tmp := None, c_str path := Some (bytes_of_string ?text))"
    using r content by (auto simp: rename_file_def eff_Inr put_file_def file_content_def split: option.splits)
      (auto simp: syscall_def system_error_def split: list.splits io_event.splits)
  have "h_files v = h_files u"
    using v by (auto simp: syscall_def system_error_def split: list.splits io_event.splits)
  with t show "file_content path t = Some (bytes_of_string ?text)"
    "x \<noteq> c_str path \<Longrightarrow> x \<noteq> c_str ?tmp \<Longrightarrow> h_files t x = h_files s x"
    using write_text_file_frame [of x ?tmp ?text err1 err2 s] w by (simp_all add: file_content_def)
qed

lemma keeps_filesD: "keeps_files Q m \<Longrightarrow> m p = (r, q) \<Longrightarrow> Q (h_files p) \<Longrightarrow> Q (h_files q)"
  unfolding keeps_files_def using keepsD by fastforce

lemma send_central_status_Inr:
  assumes "send_central_status meta status sha256 p = (Inr (), q)"
  shows "h_files q = h_files p \<and> (\<exists>fd. h_frames q = h_frames p @ [(fd, encode_central_status
    \<lparr>cs_transfer_id = cfm_transfer_id meta, cs_status = status, cs_file_size = cfm_file_size meta, cs_sha256 = sha256\<rparr>)])"
proof -
  obtain frame where "frame = encode_central_status \<lparr>cs_transfer_id = cfm_transfer_id meta, cs_status = status,
      cs_file_size = cfm_file_size meta, cs_sha256 = sha256\<rparr>" by blast
  with assms have "send_frame (px_central_fd p) frame p = (Inr (), q)"
    by (simp add: send_central_status_def send_central_def eff_step)
  with send_frame_cases [of "px_central_fd p" frame p] \<open>frame = _\<close> show ?thesis by auto
qed

text \<open>C38: A confirmation is a promise kept. Whatever the central sender has sent, whatever the calls
  return and the worker does, \<open>cache_section_end\<close> goes on to the next Section only when the frame
  ended the Section being received, nothing was rejected in the whole transfer, and every block of
  the Section had been stored; then the checkpoint on disk names the next Section, the temporary file
  is as it was, and the last frame sent is CENTRAL_STATUS with the code CACHED.\<close>

theorem section_confirmed_durable:
  assumes "cache_section_end job e c p = (Inr (Some c'), q)" and "section_job_paths job"
  shows "cfe_section_id e = ca_next_section_id c \<and> ca_rejected_count c = 0
    \<and> (\<forall>b \<in> set (blocks_of_section (cfm_total_blocks (cj_meta job)) (cfm_section_block_count (cj_meta job))
          (ca_next_section_id c)). ca_received c ! unat b \<noteq> 0)
    \<and> c' = c\<lparr>ca_next_section_id := ca_next_section_id c + 1\<rparr>
    \<and> file_content (cj_checkpoint_path job) q
        = Some (bytes_of_string (central_checkpoint_text (cj_meta job) (ca_next_section_id c + 1)))
    \<and> file_content (cj_temporary_path job) q = file_content (cj_temporary_path job) p
    \<and> (\<exists>sent fd. h_frames q = sent @ [(fd, encode_central_status \<lparr>cs_transfer_id = cfm_transfer_id (cj_meta job),
          cs_status = CS_Cached, cs_file_size = cfm_file_size (cj_meta job), cs_sha256 = no_digest\<rparr>)])"
proof -
  let ?meta = "cj_meta job" and ?s = "ca_next_section_id c" and ?cp = "cj_checkpoint_path job" and ?tmp = "cj_temporary_path job"
  from assms(1) have clean: "end_is_clean job e c"
    by (auto simp: cache_section_end_def Let_def fail_after_meta_def eff_Inr split: if_splits)
  then have s: "cfe_section_id e = ?s" and rejected: "ca_rejected_count c = 0" by (simp_all add: end_is_clean_def)
  from assms(1) clean s obtain first n u where sections: "section_first_block ?s (cfm_section_block_count ?meta) = Inr first"
    "section_block_count (cfm_total_blocks ?meta) ?s (cfm_section_block_count ?meta) = Inr n"
    and complete: "section_complete (ca_received c) first n"
    and u: "commit_section job ?s p = (Inr (), u)" and more: "?s + 1 \<noteq> cj_section_count job"
    and sent: "send_central_status ?meta CS_Cached no_digest u = (Inr (), q)"
    and c': "c' = c\<lparr>ca_next_section_id := ?s + 1\<rparr>"
    by (auto simp: cache_section_end_def Let_def fail_after_meta_def eff_Inr split: if_splits)
  from u more obtain v w where v: "syscall ''fsync central cache section'' p = (Inr (), v)"
    and w: "save_central_checkpoint ?cp ?meta (?s + 1) v = (Inr (), w)"
    and enq: "enqueue_section (cj_delivery job) ?meta ?s w = (Inr (), u)"
    by (auto simp: commit_section_def eff_Inr whenS_def)
  have files: "h_files v = h_files p" "h_files u = h_files w"
    using keeps_filesD [OF final_calls(1) v, of "\<lambda>f. f = h_files p"]
      keeps_filesD [OF final_dispatch(2) enq, of "\<lambda>f. f = h_files w"] by simp_all
  note saved = save_central_checkpoint_Inr [OF w]
  have "file_content ?cp q = Some (bytes_of_string (central_checkpoint_text ?meta (?s + 1)))"
    "file_content ?tmp q = file_content ?tmp p"
    using saved assms(2) files send_central_status_Inr [OF sent]
    by (simp_all add: file_content_def section_job_paths_def)
  moreover have "\<forall>b \<in> set (blocks_of_section (cfm_total_blocks ?meta) (cfm_section_block_count ?meta) ?s).
      ca_received c ! unat b \<noteq> 0"
    using complete by (simp add: blocks_of_section_def sections section_complete_def list_all_iff)
  ultimately show ?thesis
    using s rejected c' send_central_status_Inr [OF sent] by blast
qed

section \<open>An example\<close>

text \<open>A file of two blocks in two Sections, and a proxy that has none of it yet.\<close>

definition example_content :: bytes where
  "example_content = replicate 1201 7"

definition example_job :: central_job where
  "example_job = \<lparr>cj_meta = example_cache_meta\<lparr>cfm_file_size := 1201, cfm_total_blocks := 2\<rparr>,
     cj_delivery = example_delivery, cj_final_path = ''c'', cj_temporary_path = ''c.part'',
     cj_checkpoint_path = ''c.state'', cj_section_count = 2\<rparr>"

definition example_cache :: cache where
  "example_cache = \<lparr>ca_received = [0, 0], ca_received_count = 0, ca_duplicate_count = 0, ca_rejected_count = 0,
     ca_next_section_id = 0\<rparr>"

definition example_caching :: proxy where
  "example_caching = example_proxy\<lparr>h_files := (\<lambda>_. None)(''c.part'' := Some (replicate 1201 0)),
     px_central := map Inr (central_section_frames (cj_meta example_job) example_content 0),
     px_queue := [], px_pending_bytes := 0, px_schedule := []\<rparr>"

lemma example_job_fields [simp]:
  "cj_temporary_path example_job = ''c.part''" "cj_checkpoint_path example_job = ''c.state''"
  "cj_section_count example_job = 2" "cfm_total_blocks (cj_meta example_job) = 2"
  "ca_received example_cache = [0, 0]" "ca_next_section_id example_cache = 0" "ca_rejected_count example_cache = 0"
  by (simp_all add: example_job_def example_cache_def)

lemma example_source: "source_of example_job example_content"
  by (simp add: source_of_def example_job_def example_content_def exact_blocks_def kPayloadSize_def sections_def
      example_cache_meta_def)

theorem central_section_cached_witness:
  "\<exists>c' q. cache_loop (\<lambda>_. [7]) example_job (length (central_section_frames (cj_meta example_job) example_content 0) + 0)
      example_cache example_caching = cache_loop (\<lambda>_. [7]) example_job 0 c' q
    \<and> caching example_job example_content c' q \<and> ca_next_section_id c' = 1 \<and> px_central q = []"
proof -
  have "caching example_job example_content example_cache example_caching"
    by (simp add: caching_def example_caching_def file_content_def c_str_def example_content_def nth_Cons')
  moreover have "undisturbed example_caching" "px_pending_bytes example_caching \<le> low_watermark (cj_meta example_job)"
    "px_central example_caching = map Inr (central_section_frames (cj_meta example_job) example_content 0) @ []"
    by (simp_all add: undisturbed_def example_caching_def example_proxy_def)
  moreover have "section_job_paths example_job" by (simp add: section_job_paths_def c_str_def)
  ultimately show ?thesis
    using central_section_cached [OF example_source, of example_cache example_caching "[]" "\<lambda>_. [7]" 0]
    by fastforce
qed

theorem section_confirmed_durable_witness:
  "\<exists>q. cache_section_end example_job (central_file_end (cj_meta example_job) 0) (example_cache\<lparr>ca_received := [1, 0]\<rparr>)
      (example_caching\<lparr>h_files := (\<lambda>_. None)(''c.part'' := Some example_content)\<rparr>)
        = (Inr (Some (example_cache\<lparr>ca_received := [1, 0], ca_next_section_id := 1\<rparr>)), q)
    \<and> file_content ''c.state'' q = Some (bytes_of_string (central_checkpoint_text (cj_meta example_job) 1))"
proof -
  let ?c = "example_cache\<lparr>ca_received := [1, 0]\<rparr>" and ?e = "central_file_end (cj_meta example_job) 0"
  let ?p = "example_caching\<lparr>h_files := (\<lambda>_. None)(''c.part'' := Some example_content)\<rparr>"
  have "caching example_job example_content ?c ?p"
    by (simp add: caching_def file_content_def c_str_def nth_Cons')
  moreover have "undisturbed ?p" "px_pending_bytes ?p \<le> low_watermark (cj_meta example_job)"
    by (simp_all add: undisturbed_def example_caching_def example_proxy_def)
  moreover have paths: "section_job_paths example_job" by (simp add: section_job_paths_def c_str_def)
  moreover have "blocks_of_section 2 (cfm_section_block_count (cj_meta example_job)) 0 = [0]"
    by (simp add: blocks_of_section_def section_defs local_blocks_def example_job_def)
  ultimately obtain q where "cache_frame (\<lambda>_. [7]) example_job (encode_central_file_end ?e) ?c ?p
      = (Inr (Inr (?c\<lparr>ca_next_section_id := 1\<rparr>)), q)"
    using cache_source_end [OF example_source, of ?c ?p "\<lambda>_. [7]"] by auto
  then have "cache_section_end example_job ?e ?c ?p = (Inr (Some (?c\<lparr>ca_next_section_id := 1\<rparr>)), q)"
    using central_file_end.peek_enc [OF TrueI refl, of ?e] central_file_end.dec_enc [OF TrueI refl, of ?e]
    by (auto simp: cache_frame_def eff_Inr split: option.splits)
  with section_confirmed_durable [OF this paths] show ?thesis by simp
qed

end
