(* ===== verification/Options.thy ===== *)
theory Options
  imports Proxy_Rounds
begin

text \<open>
  The command lines of the three programs (\<open>parse_options\<close> of \<open>src/sender.cpp\<close>,
  \<open>src/receiver.cpp\<close> and \<open>src/central_sender.cpp\<close>): flags with values, or the older positional
  form when the first argument does not begin with a dash. \<open>args\<close> are \<open>argv[1]\<close> onwards. The
  theorems say what an accepted command line guarantees to the rest of the program, and that
  every such configuration can be written as flags.
\<close>

section \<open>The loop over flags\<close>

text \<open>Proxy and receiver read flags with the same loop: \<open>handler\<close> is the chain of comparisons, the
  assignment a flag makes with its value, or \<open>None\<close> for an unknown flag.\<close>

type_synonym 's flag_handler = "string \<Rightarrow> (string \<Rightarrow> 's \<Rightarrow> 's result) option"

fun scan_flags :: "'s flag_handler \<Rightarrow> string list \<Rightarrow> 's \<Rightarrow> 's result" where
  "scan_flags handler [] s = Inr s"
| "scan_flags handler (option # args) s =
     (case handler option of
        None \<Rightarrow> throw (''unknown option: '' @ option)
      | Some assign \<Rightarrow>
          (case args of
             [] \<Rightarrow> throw (''missing '' @ option @ '' value'')
           | v # later \<Rightarrow> bindE (assign v s) (scan_flags handler later)))"

definition flag_mode :: "string list \<Rightarrow> bool" where
  "flag_mode args \<longleftrightarrow> args \<noteq> [] \<and> hd args \<noteq> [] \<and> hd (hd args) = CHR ''-''"

definition required :: "bool \<Rightarrow> string \<Rightarrow> unit result" where
  "required given option = (if given then Inr () else throw (option @ '' is required''))"

section \<open>The proxy\<close>

record sender_options =
  so_multicast_ip :: string
  so_udp_port :: int
  so_interface_ip :: string
  so_control_port :: int
  so_receiver_count :: int
  so_pace_us :: int
  so_gap_ms :: int
  so_max_repair_rounds :: int
  so_files :: "string list"
  so_section_block_limit :: u32
  so_repair_mode :: RepairMode
  so_central_mode :: bool
  so_central_port :: int
  so_cache_directory :: string

record sender_scan = sender_options +
  sc_interface_set :: bool
  sc_receiver_count_set :: bool

definition parse_repair_mode :: "string \<Rightarrow> string \<Rightarrow> RepairMode result" where
  "parse_repair_mode v source =
     (if v = ''peer'' then Inr RM_Peer
      else if v = ''baseline'' then Inr RM_Baseline
      else throw (''invalid '' @ source @ '': '' @ v @ '' (expected baseline or peer)''))"

definition repair_mode_from_env :: "environment \<Rightarrow> RepairMode result" where
  "repair_mode_from_env getenv = (case getenv ''SRCAST_REPAIR_MODE'' of
      None \<Rightarrow> Inr RM_Peer
    | Some raw \<Rightarrow> if raw = [] then Inr RM_Peer else parse_repair_mode raw ''SRCAST_REPAIR_MODE'')"

definition repair_mode_name :: "RepairMode \<Rightarrow> string" where
  "repair_mode_name mode = (if mode = RM_Baseline then ''baseline'' else ''peer'')"

definition sender_option :: "sender_scan flag_handler" where
  "sender_option option =
     (if option = ''--multicast-ip'' then Some (\<lambda>v s. Inr (s\<lparr>so_multicast_ip := v\<rparr>))
      else if option = ''--udp-port''
      then Some (\<lambda>v s. bindE (parse_port option v) (\<lambda>n. Inr (s\<lparr>so_udp_port := n\<rparr>)))
      else if option = ''--interface-ip''
      then Some (\<lambda>v s. Inr (s\<lparr>so_interface_ip := v, sc_interface_set := True\<rparr>))
      else if option = ''--control-port''
      then Some (\<lambda>v s. bindE (parse_port option v) (\<lambda>n. Inr (s\<lparr>so_control_port := n\<rparr>)))
      else if option = ''--receiver-count''
      then Some (\<lambda>v s. bindE (parse_positive_int option v) (\<lambda>n.
        Inr (s\<lparr>so_receiver_count := n, sc_receiver_count_set := True\<rparr>)))
      else if option = ''--pace-us''
      then Some (\<lambda>v s. bindE (parse_nonnegative_int option v) (\<lambda>n. Inr (s\<lparr>so_pace_us := n\<rparr>)))
      else if option = ''--gap-ms''
      then Some (\<lambda>v s. bindE (parse_nonnegative_int option v) (\<lambda>n. Inr (s\<lparr>so_gap_ms := n\<rparr>)))
      else if option = ''--max-repair-rounds''
      then Some (\<lambda>v s. bindE (parse_nonnegative_int option v) (\<lambda>n. Inr (s\<lparr>so_max_repair_rounds := n\<rparr>)))
      else if option = ''--section-blocks''
      then Some (\<lambda>v s. bindE (parse_positive_u32 option v) (\<lambda>n. Inr (s\<lparr>so_section_block_limit := n\<rparr>)))
      else if option = ''--central-listen''
      then Some (\<lambda>v s. bindE (parse_port option v) (\<lambda>n.
        Inr (s\<lparr>so_central_port := n, so_central_mode := True\<rparr>)))
      else if option = ''--cache-dir'' then Some (\<lambda>v s. Inr (s\<lparr>so_cache_directory := v\<rparr>))
      else if option = ''--repair-mode''
      then Some (\<lambda>v s. bindE (parse_repair_mode v option) (\<lambda>m. Inr (s\<lparr>so_repair_mode := m\<rparr>)))
      else if option = ''--file'' then Some (\<lambda>v s. Inr (s\<lparr>so_files := so_files s @ [v]\<rparr>))
      else None)"

definition sender_defaults :: "environment \<Rightarrow> sender_scan result" where
  "sender_defaults getenv =
     bindE (section_blocks_from_env getenv) (\<lambda>section_blocks.
     bindE (repair_mode_from_env getenv) (\<lambda>mode.
     Inr \<lparr>so_multicast_ip = ''239.255.42.99'', so_udp_port = 5000, so_interface_ip = '''',
       so_control_port = 6000, so_receiver_count = 0, so_pace_us = 0, so_gap_ms = 0,
       so_max_repair_rounds = 3, so_files = [], so_section_block_limit = section_blocks,
       so_repair_mode = mode, so_central_mode = False, so_central_port = 0, so_cache_directory = '''',
       sc_interface_set = False, sc_receiver_count_set = False\<rparr>))"

definition sender_flags :: "string list \<Rightarrow> sender_scan \<Rightarrow> sender_scan result" where
  "sender_flags args s =
     bindE (scan_flags sender_option args s) (\<lambda>s.
     bindE (required (sc_interface_set s) ''--interface-ip'') (\<lambda>_.
     bindE (required (sc_receiver_count_set s) ''--receiver-count'') (\<lambda>_. Inr s)))"

text \<open>The positional form: eight values, then the files, or the central port and cache directory.\<close>

definition sender_legacy_rest :: "string list \<Rightarrow> sender_scan \<Rightarrow> sender_scan result" where
  "sender_legacy_rest args s =
     (if args ! 8 = ''--central-listen''
      then
        (if length args \<noteq> 11 then throw ''invalid legacy --central-listen arguments''
         else bindE (parse_port ''central_port'' (args ! 9)) (\<lambda>central_port.
           Inr (s\<lparr>so_central_mode := True, so_central_port := central_port, so_cache_directory := args ! 10\<rparr>)))
      else Inr (s\<lparr>so_files := so_files s @ drop 8 args\<rparr>))"

definition sender_legacy :: "string list \<Rightarrow> sender_scan \<Rightarrow> sender_scan result" where
  "sender_legacy args s =
     (if length args < 9 then throw ''legacy mode requires at least 9 arguments''
      else
        bindE (parse_port ''udp_port'' (args ! 1)) (\<lambda>udp_port.
        bindE (parse_port ''control_port'' (args ! 3)) (\<lambda>control_port.
        bindE (parse_positive_int ''receiver_count'' (args ! 4)) (\<lambda>receiver_count.
        bindE (parse_nonnegative_int ''pace_us'' (args ! 5)) (\<lambda>pace_us.
        bindE (parse_nonnegative_int ''gap_ms'' (args ! 6)) (\<lambda>gap_ms.
        bindE (parse_nonnegative_int ''max_repair_rounds'' (args ! 7)) (\<lambda>max_repair_rounds.
        sender_legacy_rest args (s\<lparr>so_multicast_ip := args ! 0, so_udp_port := udp_port, so_interface_ip := args ! 2,
          so_control_port := control_port, so_receiver_count := receiver_count, so_pace_us := pace_us,
          so_gap_ms := gap_ms, so_max_repair_rounds := max_repair_rounds\<rparr>))))))))"

definition check_sender_options :: "'a sender_options_scheme \<Rightarrow> unit result" where
  "check_sender_options s =
     bindE (parse_multicast_ipv4 ''--multicast-ip'' (so_multicast_ip s)) (\<lambda>_.
     bindE (parse_ipv4 ''--interface-ip'' (so_interface_ip s)) (\<lambda>_.
     if so_central_mode s
     then
       (if so_cache_directory s = [] then throw ''--cache-dir is required with --central-listen''
        else if so_files s \<noteq> [] then throw ''--file cannot be used with --central-listen''
        else Inr ())
     else
       (if so_files s = [] then throw ''--file is required in standalone mode''
        else if so_cache_directory s \<noteq> [] then throw ''--cache-dir requires --central-listen''
        else Inr ())))"

definition sender_parse_options :: "environment \<Rightarrow> string list \<Rightarrow> sender_options result" where
  "sender_parse_options getenv args =
     bindE (sender_defaults getenv) (\<lambda>s.
     if args = [] then throw ''missing arguments; use --help''
     else
       bindE (if flag_mode args then sender_flags args s else sender_legacy args s) (\<lambda>s.
       bindE (check_sender_options s) (\<lambda>_. Inr (sender_options.truncate s))))"

section \<open>The receiver\<close>

record receiver_options =
  ro_multicast_ip :: string
  ro_udp_port :: int
  ro_output_directory :: string
  ro_proxy_ip :: string
  ro_control_port :: int
  ro_interface_ip :: string

record receiver_scan = receiver_options +
  rs_interface_set :: bool
  rs_proxy_set :: bool
  rs_output_set :: bool

definition receiver_option :: "receiver_scan flag_handler" where
  "receiver_option option =
     (if option = ''--multicast-ip'' then Some (\<lambda>v s. Inr (s\<lparr>ro_multicast_ip := v\<rparr>))
      else if option = ''--udp-port''
      then Some (\<lambda>v s. bindE (parse_port option v) (\<lambda>n. Inr (s\<lparr>ro_udp_port := n\<rparr>)))
      else if option = ''--interface-ip''
      then Some (\<lambda>v s. Inr (s\<lparr>ro_interface_ip := v, rs_interface_set := True\<rparr>))
      else if option = ''--proxy-ip''
      then Some (\<lambda>v s. Inr (s\<lparr>ro_proxy_ip := v, rs_proxy_set := True\<rparr>))
      else if option = ''--control-port''
      then Some (\<lambda>v s. bindE (parse_port option v) (\<lambda>n. Inr (s\<lparr>ro_control_port := n\<rparr>)))
      else if option = ''--output-dir''
      then Some (\<lambda>v s. Inr (s\<lparr>ro_output_directory := v, rs_output_set := True\<rparr>))
      else None)"

definition receiver_defaults :: receiver_scan where
  "receiver_defaults = \<lparr>ro_multicast_ip = ''239.255.42.99'', ro_udp_port = 5000, ro_output_directory = '''',
     ro_proxy_ip = '''', ro_control_port = 6000, ro_interface_ip = '''',
     rs_interface_set = False, rs_proxy_set = False, rs_output_set = False\<rparr>"

definition receiver_flags :: "string list \<Rightarrow> receiver_scan result" where
  "receiver_flags args =
     bindE (scan_flags receiver_option args receiver_defaults) (\<lambda>s.
     bindE (required (rs_interface_set s) ''--interface-ip'') (\<lambda>_.
     bindE (required (rs_proxy_set s) ''--proxy-ip'') (\<lambda>_.
     bindE (required (rs_output_set s) ''--output-dir'') (\<lambda>_. Inr s))))"

definition receiver_legacy :: "string list \<Rightarrow> receiver_scan result" where
  "receiver_legacy args =
     (if length args < 5 \<or> length args > 6 then throw ''invalid legacy receiver arguments''
      else
        bindE (parse_port ''udp_port'' (args ! 1)) (\<lambda>udp_port.
        bindE (parse_port ''control_port'' (args ! 4)) (\<lambda>control_port.
        Inr (receiver_defaults\<lparr>ro_multicast_ip := args ! 0, ro_udp_port := udp_port,
          ro_output_directory := args ! 2, ro_proxy_ip := args ! 3, ro_control_port := control_port,
          ro_interface_ip := if length args = 6 then args ! 5 else ''0.0.0.0''\<rparr>))))"

definition receiver_parse_options :: "string list \<Rightarrow> receiver_options result" where
  "receiver_parse_options args =
     (if args = [] then throw ''missing arguments; use --help''
      else
        bindE (if flag_mode args then receiver_flags args else receiver_legacy args) (\<lambda>s.
        bindE (parse_multicast_ipv4 ''--multicast-ip'' (ro_multicast_ip s)) (\<lambda>_.
        bindE (parse_ipv4 ''--interface-ip'' (ro_interface_ip s)) (\<lambda>_.
        bindE (parse_ipv4 ''--proxy-ip'' (ro_proxy_ip s)) (\<lambda>_.
        Inr (receiver_options.truncate s))))))"

section \<open>The central sender\<close>

record proxy_endpoint =
  pe_ip :: string
  pe_port :: int

record central_options =
  co_endpoints :: "proxy_endpoint list"
  co_files :: "string list"
  co_pace_us :: int
  co_section_blocks :: u32

definition add_endpoint :: "string \<Rightarrow> string \<Rightarrow> string \<Rightarrow> string \<Rightarrow> central_options \<Rightarrow> central_options result" where
  "add_endpoint ip_option port_option ip port s =
     bindE (parse_ipv4 ip_option ip) (\<lambda>_.
     bindE (parse_port port_option port) (\<lambda>n.
     Inr (s\<lparr>co_endpoints := co_endpoints s @ [\<lparr>pe_ip = ip, pe_port = n\<rparr>]\<rparr>)))"

fun scan_central :: "string list \<Rightarrow> central_options \<Rightarrow> central_options result" where
  "scan_central [] s = Inr s"
| "scan_central (option # args) s =
     (if option = ''--pace-us'' then
        (case args of
           [] \<Rightarrow> throw ''missing --pace-us value''
         | v # later \<Rightarrow> bindE (parse_nonnegative_int ''--pace-us'' v) (\<lambda>n. scan_central later (s\<lparr>co_pace_us := n\<rparr>)))
      else if option = ''--proxy'' then
        (case args of
           ip # port # later \<Rightarrow> bindE (add_endpoint ''--proxy'' ''--proxy port'' ip port s) (scan_central later)
         | _ \<Rightarrow> throw ''missing --proxy values'')
      else if option = ''--section-blocks'' then
        (case args of
           [] \<Rightarrow> throw ''missing --section-blocks value''
         | v # later \<Rightarrow> bindE (parse_positive_u32 ''--section-blocks'' v) (\<lambda>n.
             scan_central later (s\<lparr>co_section_blocks := n\<rparr>)))
      else if option = ''--file'' then
        (case args of
           [] \<Rightarrow> throw ''missing --file value''
         | v # later \<Rightarrow> scan_central later (s\<lparr>co_files := co_files s @ [v]\<rparr>))
      else if take 2 option = ''--'' \<or> option = ''-h'' then throw (''unknown option: '' @ option)
      else scan_central args (s\<lparr>co_files := co_files s @ [option]\<rparr>))"

definition central_legacy :: "string list \<Rightarrow> central_options \<Rightarrow> central_options result" where
  "central_legacy args s =
     (if length args < 4 then throw ''legacy mode requires proxy, port, pace, and file''
      else
        bindE (add_endpoint ''proxy_ip'' ''central_port'' (args ! 0) (args ! 1) s) (\<lambda>s.
        bindE (parse_nonnegative_int ''pace_us'' (args ! 2)) (\<lambda>pace_us.
        Inr (s\<lparr>co_pace_us := pace_us, co_files := co_files s @ drop 3 args\<rparr>))))"

definition central_parse_options :: "environment \<Rightarrow> string list \<Rightarrow> central_options result" where
  "central_parse_options getenv args =
     bindE (section_blocks_from_env getenv) (\<lambda>section_blocks.
     let s = \<lparr>co_endpoints = [], co_files = [], co_pace_us = 0, co_section_blocks = section_blocks\<rparr> in
     if args = [] then throw ''missing arguments; use --help''
     else
       bindE (if flag_mode args then scan_central args s else central_legacy args s) (\<lambda>s.
       if co_endpoints s = [] then throw ''--proxy is required''
       else if co_files s = [] then throw ''--file is required''
       else Inr s))"

section \<open>What an accepted command line guarantees\<close>

definition ipv4_text :: "string \<Rightarrow> bool" where
  "ipv4_text v \<longleftrightarrow> inet_pton (c_str v) \<noteq> None"

definition multicast_text :: "string \<Rightarrow> bool" where
  "multicast_text v \<longleftrightarrow> (case inet_pton (c_str v) of None \<Rightarrow> False | Some a \<Rightarrow> in_multicast a)"

abbreviation port_number :: "int \<Rightarrow> bool" where
  "port_number n \<equiv> 0 < n \<and> n \<le> 65535"

abbreviation int_number :: "int \<Rightarrow> bool" where
  "int_number n \<equiv> 0 \<le> n \<and> n \<le> 2147483647"

lemma parse_ipv4_ok: "is_ok (parse_ipv4 option v) \<longleftrightarrow> ipv4_text v"
  by (auto simp: parse_ipv4_def ipv4_text_def is_ok_iff split: option.splits)

lemma parse_multicast_ok: "is_ok (parse_multicast_ipv4 option v) \<longleftrightarrow> multicast_text v"
  by (auto simp: parse_multicast_ipv4_def parse_ipv4_def multicast_text_def is_ok_iff bindE_Inr_iff
      split: option.splits)

lemma scan_flags_invariant:
  assumes "scan_flags handler args s = Inr t" and "P s"
    and "\<And>option assign v s t. handler option = Some assign \<Longrightarrow> assign v s = Inr t \<Longrightarrow> P s \<Longrightarrow> P t"
  shows "P t"
  using assms(1,2)
proof (induction args arbitrary: s rule: induct_list012)
  case (3 option v args)
  then obtain assign u where "handler option = Some assign" "assign v s = Inr u" "scan_flags handler args u = Inr t"
    by (auto simp: bindE_Inr_iff split: option.splits)
  with 3(1) [of u] 3(4) assms(3) show ?case by blast
qed (auto split: option.splits)

text \<open>The fields that are parsed numbers, before and after every flag.\<close>

definition sender_numbers :: "sender_scan \<Rightarrow> bool" where
  "sender_numbers s \<longleftrightarrow> port_number (so_udp_port s) \<and> port_number (so_control_port s)
     \<and> (sc_receiver_count_set s \<longrightarrow> 0 < so_receiver_count s \<and> so_receiver_count s \<le> 2147483647)
     \<and> int_number (so_pace_us s) \<and> int_number (so_gap_ms s) \<and> int_number (so_max_repair_rounds s)
     \<and> so_section_block_limit s \<noteq> 0 \<and> (so_central_mode s \<longrightarrow> port_number (so_central_port s))"

lemmas number_ranges = parse_port_range parse_nonnegative_int_range parse_positive_int_range parse_positive_u32_nonzero

text \<open>Going down the chain of comparisons, and the assignment of a parsed number.\<close>

lemma chain_Some: "(if c then Some a else e) = Some x \<Longrightarrow> (x = a \<Longrightarrow> P) \<Longrightarrow> (e = Some x \<Longrightarrow> P) \<Longrightarrow> P"
  by (cases c) simp_all

lemma assigned_number:
  "bindE r (\<lambda>n. Inr (f n)) = Inr t \<Longrightarrow> (\<And>n. r = Inr n \<Longrightarrow> P (f n)) \<Longrightarrow> P t"
  by (auto simp: bindE_Inr_iff)

lemma sender_option_numbers:
  assumes "sender_option option = Some assign" and "assign v s = Inr t" and "sender_numbers s"
  shows "sender_numbers t"
  using assms(1) unfolding sender_option_def
  apply (elim chain_Some)
  apply (insert assms(2,3))
  apply ((hypsubst, (erule assigned_number, (drule number_ranges)?)?, simp add: sender_numbers_def)+)[13]
  apply simp
  done

lemma sender_defaults_numbers: "sender_defaults getenv = Inr s \<Longrightarrow> sender_numbers s"
  by (auto simp: sender_defaults_def sender_numbers_def bindE_Inr_iff section_blocks_from_env_nonzero)

definition valid_sender_options :: "sender_options \<Rightarrow> bool" where
  "valid_sender_options s \<longleftrightarrow> multicast_text (so_multicast_ip s) \<and> ipv4_text (so_interface_ip s)
     \<and> port_number (so_udp_port s) \<and> port_number (so_control_port s)
     \<and> 0 < so_receiver_count s \<and> so_receiver_count s \<le> 2147483647
     \<and> int_number (so_pace_us s) \<and> int_number (so_gap_ms s) \<and> int_number (so_max_repair_rounds s)
     \<and> so_section_block_limit s \<noteq> 0
     \<and> (if so_central_mode s then port_number (so_central_port s) \<and> so_cache_directory s \<noteq> [] \<and> so_files s = []
        else so_files s \<noteq> [] \<and> so_cache_directory s = [])"

lemma sender_scan_numbers:
  assumes "(if flag_mode args then sender_flags args s else sender_legacy args s) = Inr t" and "sender_numbers s"
  shows "sender_numbers t \<and> 0 < so_receiver_count t \<and> so_receiver_count t \<le> 2147483647"
proof (cases "flag_mode args")
  case True
  with assms(1) have "scan_flags sender_option args s = Inr t" and set: "sc_receiver_count_set t"
    by (auto simp: sender_flags_def required_def bindE_Inr_iff split: if_splits)
  from scan_flags_invariant [where P = sender_numbers, OF this(1) assms(2)] sender_option_numbers
  have "sender_numbers t" by blast
  with set show ?thesis by (simp add: sender_numbers_def)
next
  case False
  with assms(1) obtain udp control count pace gap rounds where
    numbers: "parse_port ''udp_port'' (args ! 1) = Inr udp" "parse_port ''control_port'' (args ! 3) = Inr control"
      "parse_positive_int ''receiver_count'' (args ! 4) = Inr count" "parse_nonnegative_int ''pace_us'' (args ! 5) = Inr pace"
      "parse_nonnegative_int ''gap_ms'' (args ! 6) = Inr gap"
      "parse_nonnegative_int ''max_repair_rounds'' (args ! 7) = Inr rounds"
    and rest: "sender_legacy_rest args (s\<lparr>so_multicast_ip := args ! 0, so_udp_port := udp, so_interface_ip := args ! 2,
        so_control_port := control, so_receiver_count := count, so_pace_us := pace,
        so_gap_ms := gap, so_max_repair_rounds := rounds\<rparr>) = Inr t"
    unfolding sender_legacy_def by (auto simp: bindE_Inr_iff split: if_split_asm)
  have "sender_legacy_rest args u = Inr t \<Longrightarrow> sender_numbers u \<Longrightarrow> 0 < so_receiver_count u \<Longrightarrow>
      so_receiver_count u \<le> 2147483647 \<Longrightarrow> ?thesis" for u
    unfolding sender_legacy_rest_def
    by (auto simp: sender_numbers_def bindE_Inr_iff dest: number_ranges(1) split: if_split_asm)
  from this [OF rest] assms(2) numbers(1,2) [THEN parse_port_range] numbers(3) [THEN parse_positive_int_range]
    numbers(4-6) [THEN parse_nonnegative_int_range]
  show ?thesis by (simp add: sender_numbers_def)
qed

text \<open>C39: The proxy starts only with a configuration it can work with. Whatever the arguments and the
  environment, in flag or positional form: an accepted command line has a multicast group, an
  interface address, ports between 1 and 65535, at least one receiver, numbers that fit an \<open>int\<close>,
  a Section size that is not zero, and either files to send or a central port with a cache
  directory, never both.\<close>

theorem sender_options_valid:
  assumes "sender_parse_options getenv args = Inr s"
  shows "valid_sender_options s"
proof -
  from assms obtain d t where d: "sender_defaults getenv = Inr d"
    and t: "(if flag_mode args then sender_flags args d else sender_legacy args d) = Inr t"
    and checked: "check_sender_options t = Inr ()" and s: "s = sender_options.truncate t"
    by (auto simp: sender_parse_options_def bindE_Inr_iff split: if_splits)
  from sender_scan_numbers [OF t sender_defaults_numbers [OF d]]
  have numbers: "sender_numbers t" "0 < so_receiver_count t" "so_receiver_count t \<le> 2147483647" by blast+
  have "multicast_text (so_multicast_ip t)" "ipv4_text (so_interface_ip t)"
    using checked parse_multicast_ok [of "''--multicast-ip''"] parse_ipv4_ok [of "''--interface-ip''"]
    by (auto simp: check_sender_options_def bindE_Inr_iff is_ok_iff)
  then show ?thesis
    using numbers checked
    by (auto simp: s valid_sender_options_def sender_numbers_def sender_options.defs check_sender_options_def bindE_Inr_iff
        split: if_splits)
qed

section \<open>Every configuration can be written as flags\<close>

abbreviation number_text :: "int \<Rightarrow> string" where
  "number_text n \<equiv> print_dec (nat n)"

definition sender_arguments :: "sender_options \<Rightarrow> string list" where
  "sender_arguments s =
     [''--multicast-ip'', so_multicast_ip s, ''--udp-port'', number_text (so_udp_port s),
      ''--interface-ip'', so_interface_ip s, ''--control-port'', number_text (so_control_port s),
      ''--receiver-count'', number_text (so_receiver_count s), ''--pace-us'', number_text (so_pace_us s),
      ''--gap-ms'', number_text (so_gap_ms s), ''--max-repair-rounds'', number_text (so_max_repair_rounds s),
      ''--section-blocks'', print_dec (unat (so_section_block_limit s)),
      ''--repair-mode'', repair_mode_name (so_repair_mode s)]
     @ (if so_central_mode s
        then [''--central-listen'', number_text (so_central_port s), ''--cache-dir'', so_cache_directory s]
        else concat (map (\<lambda>path. [''--file'', path]) (so_files s)))"

lemma sender_option_values:
  "sender_option ''--multicast-ip'' = Some (\<lambda>v s. Inr (s\<lparr>so_multicast_ip := v\<rparr>))"
  "sender_option ''--udp-port'' = Some (\<lambda>v s. bindE (parse_port ''--udp-port'' v) (\<lambda>n. Inr (s\<lparr>so_udp_port := n\<rparr>)))"
  "sender_option ''--interface-ip'' = Some (\<lambda>v s. Inr (s\<lparr>so_interface_ip := v, sc_interface_set := True\<rparr>))"
  "sender_option ''--control-port'' = Some (\<lambda>v s. bindE (parse_port ''--control-port'' v) (\<lambda>n. Inr (s\<lparr>so_control_port := n\<rparr>)))"
  "sender_option ''--receiver-count'' = Some (\<lambda>v s. bindE (parse_positive_int ''--receiver-count'' v) (\<lambda>n.
        Inr (s\<lparr>so_receiver_count := n, sc_receiver_count_set := True\<rparr>)))"
  "sender_option ''--pace-us'' = Some (\<lambda>v s. bindE (parse_nonnegative_int ''--pace-us'' v) (\<lambda>n. Inr (s\<lparr>so_pace_us := n\<rparr>)))"
  "sender_option ''--gap-ms'' = Some (\<lambda>v s. bindE (parse_nonnegative_int ''--gap-ms'' v) (\<lambda>n. Inr (s\<lparr>so_gap_ms := n\<rparr>)))"
  "sender_option ''--max-repair-rounds'' = Some (\<lambda>v s. bindE (parse_nonnegative_int ''--max-repair-rounds'' v) (\<lambda>n.
        Inr (s\<lparr>so_max_repair_rounds := n\<rparr>)))"
  "sender_option ''--section-blocks'' = Some (\<lambda>v s. bindE (parse_positive_u32 ''--section-blocks'' v) (\<lambda>n.
        Inr (s\<lparr>so_section_block_limit := n\<rparr>)))"
  "sender_option ''--central-listen'' = Some (\<lambda>v s. bindE (parse_port ''--central-listen'' v) (\<lambda>n.
        Inr (s\<lparr>so_central_port := n, so_central_mode := True\<rparr>)))"
  "sender_option ''--cache-dir'' = Some (\<lambda>v s. Inr (s\<lparr>so_cache_directory := v\<rparr>))"
  "sender_option ''--repair-mode'' = Some (\<lambda>v s. bindE (parse_repair_mode v ''--repair-mode'') (\<lambda>m. Inr (s\<lparr>so_repair_mode := m\<rparr>)))"
  "sender_option ''--file'' = Some (\<lambda>v s. Inr (s\<lparr>so_files := so_files s @ [v]\<rparr>))"
  by (simp_all add: sender_option_def)

text \<open>A printed number is read back as itself.\<close>

lemma number_word:
  assumes "int_number n"
  shows "uint (word_of_int n :: u64) = n" "(word_of_int n :: u64) = 0 \<longleftrightarrow> n = 0"
    "(word_of_int n :: u64) > 65535 \<longleftrightarrow> n > 65535" "\<not> (word_of_int n :: u64) > 2147483647"
proof -
  show u: "uint (word_of_int n :: u64) = n" using assms by (simp add: unsigned_of_int take_bit_int_eq_self)
  show "(word_of_int n :: u64) = 0 \<longleftrightarrow> n = 0" using u by (metis uint_0_iff)
  show "(word_of_int n :: u64) > 65535 \<longleftrightarrow> n > 65535" "\<not> (word_of_int n :: u64) > 2147483647"
    using assms by (simp_all add: word_less_def u)
qed

lemma number_text_unsigned:
  assumes "int_number n"
  shows "parse_unsigned option (number_text n) = Inr (word_of_int n)"
proof -
  from assms have "nat n < 18446744073709551616" by linarith
  from parse_unsigned_print [OF this] show ?thesis using assms by simp
qed

lemma number_texts:
  "port_number n \<Longrightarrow> parse_port option (number_text n) = Inr n"
  "int_number n \<Longrightarrow> parse_nonnegative_int option (number_text n) = Inr n"
  "0 < n \<Longrightarrow> n \<le> 2147483647 \<Longrightarrow> parse_positive_int option (number_text n) = Inr n"
proof -
  show nonneg: "int_number n \<Longrightarrow> parse_nonnegative_int option (number_text n) = Inr n"
    by (simp add: parse_nonnegative_int_def number_text_unsigned number_word)
  show "0 < n \<Longrightarrow> n \<le> 2147483647 \<Longrightarrow> parse_positive_int option (number_text n) = Inr n"
    using nonneg by (simp add: parse_positive_int_def)
  assume n: "port_number n"
  then have "int_number n" by linarith
  with n show "parse_port option (number_text n) = Inr n"
    by (simp add: parse_port_def number_text_unsigned number_word)
qed

lemma parse_positive_u32_print: "w \<noteq> 0 \<Longrightarrow> parse_positive_u32 option (print_dec (unat w)) = Inr w"
proof -
  assume w: "w \<noteq> 0"
  let ?v = "ucast w :: u64"
  have lt: "unat w < 4294967296" by (rule unat_u32_less)
  have u: "unat ?v = unat w" using lt by (simp add: unsigned_ucast_eq take_bit_nat_eq_self)
  have "parse_unsigned option (print_dec (unat w)) = Inr (of_nat (unat w))"
    using lt by (intro parse_unsigned_print) linarith
  moreover have "of_nat (unat w) = ?v" by (simp add: word_unat_eq_iff u [symmetric] del: of_nat_unat) (simp add: u)
  moreover have "?v \<noteq> 0" using u w by (metis unat_eq_zero)
  moreover have "\<not> ?v > 4294967295" using lt u by (simp add: word_less_nat_alt)
  moreover have "(ucast ?v :: u32) = w" by (rule bit_word_eqI) (auto simp: bit_simps)
  ultimately show ?thesis by (simp add: parse_positive_u32_def)
qed

lemma parse_repair_mode_name: "parse_repair_mode (repair_mode_name m) source = Inr m"
  by (cases m) (simp_all add: parse_repair_mode_def repair_mode_name_def)

lemma scan_files:
  "scan_flags sender_option (concat (map (\<lambda>path. [''--file'', path]) files)) s = Inr (s\<lparr>so_files := so_files s @ files\<rparr>)"
  by (induction files arbitrary: s) (simp_all add: sender_option_values)

lemma parse_sender_arguments:
  assumes "valid_sender_options s" and "so_central_mode s \<or> so_central_port s = 0"
    and "section_blocks_from_env getenv = Inr n" and "repair_mode_from_env getenv = Inr m"
  shows "sender_parse_options getenv (sender_arguments s) = Inr s"
proof -
  obtain d where d: "sender_defaults getenv = Inr d" "so_files d = []" "so_cache_directory d = []"
    "so_central_mode d = False" "so_central_port d = 0"
    using assms(3,4) by (simp add: sender_defaults_def)
  let ?full = "sender_options.extend s (sender_scan.fields True True)"
  have "scan_flags sender_option (sender_arguments s) d = Inr ?full"
    using assms(1,2) d
    by (cases d; cases "so_central_mode s")
      (auto simp: sender_arguments_def valid_sender_options_def sender_option_values number_texts
        parse_positive_u32_print parse_repair_mode_name scan_files sender_options.defs sender_scan.defs)
  then have "sender_flags (sender_arguments s) d = Inr ?full"
    by (simp add: sender_flags_def required_def sender_options.defs sender_scan.defs)
  moreover have "flag_mode (sender_arguments s)" by (simp add: flag_mode_def sender_arguments_def)
  moreover have "check_sender_options ?full = Inr ()"
  proof -
    obtain a b where "parse_multicast_ipv4 ''--multicast-ip'' (so_multicast_ip s) = Inr a"
      "parse_ipv4 ''--interface-ip'' (so_interface_ip s) = Inr b"
      using assms(1) parse_multicast_ok [of "''--multicast-ip''" "so_multicast_ip s"]
        parse_ipv4_ok [of "''--interface-ip''" "so_interface_ip s"]
      by (auto simp: valid_sender_options_def is_ok_iff)
    then show ?thesis
      using assms(1) by (simp add: check_sender_options_def valid_sender_options_def sender_options.defs split: if_splits)
  qed
  ultimately show ?thesis
    using d by (simp add: sender_parse_options_def sender_arguments_def sender_options.defs)
qed


section \<open>An example\<close>

definition example_sender_options :: sender_options where
  "example_sender_options = \<lparr>so_multicast_ip = ipv4_address_string 0xEFFF2A63, so_udp_port = 5000,
     so_interface_ip = ipv4_address_string 0x0A000001, so_control_port = 6000, so_receiver_count = 2,
     so_pace_us = 0, so_gap_ms = 0, so_max_repair_rounds = 3, so_files = [''a'', ''b''],
     so_section_block_limit = 4096, so_repair_mode = RM_Peer, so_central_mode = False,
     so_central_port = 0, so_cache_directory = []\<rparr>"

lemma example_sender_options_valid: "valid_sender_options example_sender_options"
proof -
  have "ipv4_text (ipv4_address_string a)" for a
    using parse_ipv4_ok [of "''ip''" "ipv4_address_string a"] by (simp add: parse_ipv4_string)
  moreover have "multicast_text (ipv4_address_string 0xEFFF2A63)"
    using parse_multicast_ok [of "''ip''" "ipv4_address_string 0xEFFF2A63"]
    by (simp add: parse_multicast_ipv4_def parse_ipv4_string in_multicast_def)
  ultimately show ?thesis by (simp add: valid_sender_options_def example_sender_options_def)
qed

lemma example_environment:
  "section_blocks_from_env (\<lambda>_. None) = Inr kDefaultSectionBlockCount" "repair_mode_from_env (\<lambda>_. None) = Inr RM_Peer"
  "so_central_mode example_sender_options \<or> so_central_port example_sender_options = 0"
  by (simp_all add: section_blocks_from_env_def env_number_def repair_mode_from_env_def example_sender_options_def)


theorem sender_options_valid_witness: "valid_sender_options example_sender_options"
  by (rule sender_options_valid
      [OF parse_sender_arguments [OF example_sender_options_valid example_environment(3,1,2)]])

end
