(* ===== verification/Progress.thy ===== *)
theory Progress
  imports Effects
begin

text \<open>
  Computations that only add: the contract of a reflexive and transitive relation between the state
  before and after a step, and what follows for loops. When every pass of a loop advances and the
  loop ends normally, each of its passes was run, and everything it did is still there at the end.
\<close>

definition advances :: "('s \<Rightarrow> 's \<Rightarrow> bool) \<Rightarrow> ('s, 'a) eff \<Rightarrow> bool" where
  "advances R m \<longleftrightarrow> (\<forall>s. R s (snd (m s)))"

lemma advancesD: "advances R m \<Longrightarrow> m s = (r, t) \<Longrightarrow> R s t"
  by (metis advances_def snd_conv)

lemma advancesI: "(\<And>s r t. m s = (r, t) \<Longrightarrow> R s t) \<Longrightarrow> advances R m"
  by (metis advances_def prod.collapse)

locale progress =
  fixes R :: "'s \<Rightarrow> 's \<Rightarrow> bool"
  assumes refl: "R s s" and trans: "R s t \<Longrightarrow> R t u \<Longrightarrow> R s u"
begin

lemma pure: "advances R (returnS x)" "advances R (throwS msg)" "advances R (liftE r)" "advances R (getS f)"
  by (simp_all add: advances_def eff_run refl)

lemma bind: "advances R m \<Longrightarrow> (\<And>x. advances R (f x)) \<Longrightarrow> advances R (bindS m f)"
  by (auto simp: advances_def eff_run intro: trans split: sum.split)

lemma handler: "advances R m \<Longrightarrow> (\<And>e. advances R (h e)) \<Longrightarrow> advances R (tryS m h)"
  by (auto simp: advances_def eff_run intro: trans split: sum.split)

lemma guarded: "advances R m \<Longrightarrow> advances R (whenS c m)"
  by (auto simp: advances_def eff_run refl)

lemma cond: "advances R m \<Longrightarrow> advances R n \<Longrightarrow> advances R (if c then m else n)"
  by simp

lemma for_loop: "(\<And>x. advances R (body x)) \<Longrightarrow> advances R (forS xs body)"
  by (induction xs) (auto intro: pure bind)

lemma fold_loop: "(\<And>x acc. advances R (body x acc)) \<Longrightarrow> advances R (foldS body xs acc)"
  by (induction xs arbitrary: acc) (auto intro: pure bind)

lemmas rules = pure bind handler guarded cond for_loop fold_loop

lemma for_reaches:
  assumes "\<And>y. advances R (body y)" and "forS xs body s = (Inr (), t)" and "x \<in> set xs"
  shows "\<exists>u v. R s u \<and> body x u = (Inr (), v) \<and> R v t"
  using assms(2,3)
proof (induction xs arbitrary: s)
  case Nil
  then show ?case by simp
next
  case (Cons y ys)
  from Cons.prems(1) obtain u where u: "body y s = (Inr (), u)" "forS ys body u = (Inr (), t)"
    by (auto simp: eff_Inr)
  note R = advancesD [OF assms(1) u(1)] advancesD [OF for_loop [OF assms(1)] u(2)]
  show ?case
  proof (cases "x = y")
    case True
    with u R(2) refl show ?thesis by blast
  next
    case False
    with Cons.prems(2) Cons.IH [OF u(2)] R(1) show ?thesis by (auto intro: trans)
  qed
qed

end

text \<open>The same for a loop with a local variable, where the relation includes the variable.\<close>

locale fold_progress = progress R for R :: "'a \<times> 's \<Rightarrow> 'a \<times> 's \<Rightarrow> bool"
begin

lemma fold_advances:
  assumes "\<And>x a s a' t. x \<in> set xs \<Longrightarrow> body x a s = (Inr a', t) \<Longrightarrow> R (a, s) (a', t)"
    and "foldS body xs a s = (Inr a', t)"
  shows "R (a, s) (a', t)"
  using assms
proof (induction xs arbitrary: a s)
  case Nil
  then show ?case by (simp add: refl)
next
  case (Cons x xs)
  from Cons.prems(2) obtain b u where u: "body x a s = (Inr b, u)" "foldS body xs b u = (Inr a', t)"
    by (auto simp: eff_Inr)
  have "R (a, s) (b, u)" by (rule Cons.prems(1) [OF _ u(1)]) simp
  moreover have "R (b, u) (a', t)" by (rule Cons.IH [OF _ u(2)]) (rule Cons.prems(1), simp_all)
  ultimately show ?case by (rule trans)
qed

lemma fold_reaches:
  assumes "\<And>x a s a' t. x \<in> set xs \<Longrightarrow> body x a s = (Inr a', t) \<Longrightarrow> R (a, s) (a', t)"
    and "foldS body xs a s = (Inr a', t)" and "x \<in> set xs"
  shows "\<exists>b u c v. R (a, s) (b, u) \<and> body x b u = (Inr c, v) \<and> R (c, v) (a', t)"
  using assms
proof (induction xs arbitrary: a s)
  case Nil
  then show ?case by simp
next
  case (Cons y ys)
  from Cons.prems(2) obtain b u where u: "body y a s = (Inr b, u)" "foldS body ys b u = (Inr a', t)"
    by (auto simp: eff_Inr)
  have later: "R (b, u) (a', t)" by (rule fold_advances [OF _ u(2)]) (rule Cons.prems(1), simp_all)
  have first: "R (a, s) (b, u)" by (rule Cons.prems(1) [OF _ u(1)]) simp
  show ?case
  proof (cases "x = y")
    case True
    with u later refl show ?thesis by blast
  next
    case False
    have "x \<in> set ys" using False Cons.prems(3) by simp
    have "\<exists>c v c' v'. R (b, u) (c, v) \<and> body x c v = (Inr c', v') \<and> R (c', v') (a', t)"
      by (rule Cons.IH [OF _ u(2) \<open>x \<in> set ys\<close>]) (rule Cons.prems(1), simp_all)
    then obtain c v c' v' where rest: "R (b, u) (c, v)" "body x c v = (Inr c', v')" "R (c', v') (a', t)" by blast
    from trans [OF first rest(1)] rest(2,3) show ?thesis by blast
  qed
qed

end

end
