(* ===== verification/Proxy_Coverage.thy ===== *)
theory Proxy_Coverage
  imports Proxy_Repair Progress
begin

text \<open>
  What a repair round of the proxy (\<open>send_repair_round\<close> and \<open>re_to_re\<close> of \<open>src/sender.cpp\<close>)
  achieves: every block a receiver has reported missing goes out again, as a multicast, as a packet
  to that receiver, or as a task for another receiver that has the block. \<open>sent_more\<close> is the
  relation the sending operations advance in: files stay, packets and frames are only added, and a
  receiver's entry changes at most by losing its connection.
\<close>

section \<open>Sending only adds\<close>

definition sent_more :: "proxy \<Rightarrow> proxy \<Rightarrow> bool" where
  "sent_more p q \<longleftrightarrow> h_files q = h_files p
     \<and> (\<exists>packets. h_packets q = h_packets p @ packets) \<and> (\<exists>frames. h_frames q = h_frames p @ frames)
     \<and> length (px_receivers q) = length (px_receivers p)
     \<and> (\<forall>i < length (px_receivers p). px_receivers q ! i \<in>
          {px_receivers p ! i, (px_receivers p ! i)\<lparr>rv_control_fd := -1\<rparr>})"

lemma sent_moreI:
  assumes "h_files q = h_files p" and "h_packets q = h_packets p @ packets" and "h_frames q = h_frames p @ frames"
    and "px_receivers q = px_receivers p"
  shows "sent_more p q"
  using assms by (simp add: sent_more_def)

interpretation sends: progress sent_more
proof
  show "sent_more p p" for p by (simp add: sent_more_def)
  fix p q r assume pq: "sent_more p q" and qr: "sent_more q r"
  have "\<exists>packets. h_packets r = h_packets p @ packets" "\<exists>frames. h_frames r = h_frames p @ frames"
    using pq qr by (auto simp: sent_more_def)
  moreover have "px_receivers r ! i \<in> {px_receivers p ! i, (px_receivers p ! i)\<lparr>rv_control_fd := -1\<rparr>}"
    if "i < length (px_receivers p)" for i
    using that pq qr by (fastforce simp: sent_more_def)
  ultimately show "sent_more p r" using pq qr by (auto simp: sent_more_def)
qed

named_theorems sending "operations that only add to what was sent"

lemmas sending_structure [sending] = sends.rules

lemma sending_read_block [sending]: "advances sent_more (read_block_of fd path n b)"
  by (rule advancesI) (auto simp: read_block_of_def intro!: sent_moreI split: prod.splits)

lemma sending_udp [sending]: "advances sent_more (send_udp_packet destination packet)"
  by (rule advancesI)
    (auto simp: send_udp_packet_def system_error_def intro!: sent_moreI split: list.splits io_event.splits if_splits)

lemma sending_frame [sending]: "advances sent_more (send_frame fd frame)"
proof (rule advancesI)
  fix p q :: proxy and r assume "send_frame fd frame p = (r, q)"
  with send_frame_cases [of fd frame p] show "sent_more p q" by (auto intro!: sent_moreI)
qed

lemma sending_close: "advances sent_more (set_rv i (\<lambda>r. r\<lparr>rv_control_fd := -1\<rparr>))"
proof (rule advancesI)
  fix p q r assume "set_rv i (\<lambda>r. r\<lparr>rv_control_fd := -1\<rparr>) p = (r, q)"
  then have "q = p\<lparr>px_receivers := (px_receivers p)[i := (px_receivers p ! i)\<lparr>rv_control_fd := -1\<rparr>]\<rparr>"
    by (simp add: set_rv_def modifyS_run)
  then show "sent_more p q" by (cases "i < length (px_receivers p)") (auto simp: sent_more_def nth_list_update)
qed

lemma sending_receiver_frame [sending]:
  "advances sent_more (send_receiver_frame i frame)" "advances sent_more (send_ignoring i frame)"
proof -
  show one: "advances sent_more (send_receiver_frame i frame)"
    unfolding send_receiver_frame_def get_rv_def by (intro sending sending_close)
  then show "advances sent_more (send_ignoring i frame)" unfolding send_ignoring_def by (intro sending)
qed

lemma sending_rounds [sending]:
  "advances sent_more (send_end_round d section_id round_id)"
  "advances sent_more (send_repair_begin d section_id round_id)"
  "advances sent_more (aggregate d section_id)"
  unfolding send_end_round_def send_repair_begin_def send_to_participants_def for_receivers_def get_rv_def aggregate_def
  by (intro sending)+

lemma sending_data_packet [sending]: "advances sent_more (data_packet d section_id b)"
  unfolding data_packet_def by (intro sending) (auto intro: sending split: prod.split)

lemma sent_more_mono:
  assumes "sent_more p q"
  shows "x \<in> set (h_packets p) \<Longrightarrow> x \<in> set (h_packets q)" "y \<in> set (h_frames p) \<Longrightarrow> y \<in> set (h_frames q)"
    "h_files q = h_files p" "length (px_receivers q) = length (px_receivers p)"
    "t < length (px_receivers p) \<Longrightarrow> rv_peer_destination (px_receivers q ! t) = rv_peer_destination (px_receivers p ! t)"
  using assms by (auto simp: sent_more_def)

section \<open>Packets\<close>

text \<open>A packet that a receiver reads as DATA for block \<open>b\<close> of the transfer, with the bytes of the file.\<close>

definition data_for :: "delivery \<Rightarrow> bytes \<Rightarrow> u32 \<Rightarrow> u32 \<Rightarrow> bytes \<Rightarrow> bool" where
  "data_for d content section_id b packet \<longleftrightarrow>
     (\<exists>v. decode_data packet = Inr v \<and> hdr_transfer_id (dp_common v) = dl_transfer_id d \<and> dp_section_id v = section_id
        \<and> dp_block_id v = b \<and> dp_offset v = block_offset b \<and> dp_payload v = block_bytes content (unat b)
        \<and> dp_crc32 v = crc32 (dp_payload v))"

text \<open>The file being sent is on disk and was announced with its size.\<close>

definition serves_file :: "delivery \<Rightarrow> bytes \<Rightarrow> (string \<Rightarrow> bytes option) \<Rightarrow> bool" where
  "serves_file d content files \<longleftrightarrow> files (c_str (dl_file_path d)) = Some content
     \<and> unat (dl_file_size d) = length content \<and> exact_blocks (dl_file_size d) (dl_total_blocks d)"

lemma data_packet_for:
  assumes "data_packet d section_id b p = (Inr packet, q)" and "serves_file d content (h_files p)"
    and "b < dl_total_blocks d"
  shows "data_for d content section_id b packet"
proof -
  from assms(1) obtain payload offset u where
    r: "read_block_of (dl_file_path d) (dl_file_path d) (dl_file_size d) b p = (Inr (payload, offset), u)"
    and e: "encode_data (dl_transfer_id d) section_id b offset payload (of_nat (length payload)) (crc32 payload) = Inr packet"
    by (auto simp: data_packet_def eff_Inr)
  from r assms(2) obtain evs where
    "read_block content (dl_file_path d) (dl_file_size d) b (h_events p) = (Inr (payload, offset), evs)"
    by (auto simp: read_block_of_def serves_file_def file_content_def content_or_empty_def split: prod.splits)
  then have block: "offset = block_offset b \<and> payload = block_bytes content (unat b)"
    by (rule read_block_bytes) (use assms(2,3) in \<open>simp_all add: serves_file_def\<close>)
  then have "length payload = unat (of_nat (length payload) :: u16)"
    by (simp add: unat_of_nat_u16 length_block_bytes kPayloadSize_def)
  from decode_encode_data [OF e this] block show ?thesis by (simp add: data_for_def)
qed

section \<open>The reported blocks\<close>

text \<open>\<open>aggregate_missing_blocks\<close> lists for each block of the Section exactly the receivers whose report
  says it is missing.\<close>

definition misses :: "receiver_connection \<Rightarrow> u32 \<Rightarrow> bool" where
  "misses receiver local_block \<longleftrightarrow> missing_in receiver local_block = Inr True"

lemma foldE_one_receiver:
  assumes "foldE (\<lambda>l acc. bindE (missing_in receiver l) (\<lambda>b.
      Inr (if b then acc[unat l := acc ! unat l @ [i]] else acc))) ls acc = Inr acc'"
    and "distinct ls" and "\<forall>l \<in> set ls. unat l < length acc"
  shows "length acc' = length acc \<and>
    (\<forall>k. unat k < length acc \<longrightarrow> acc' ! unat k = acc ! unat k @ (if k \<in> set ls \<and> misses receiver k then [i] else []))"
  using assms
proof (induction ls arbitrary: acc)
  case Nil
  then show ?case by simp
next
  case (Cons l ls)
  from Cons.prems(1) obtain b where b: "missing_in receiver l = Inr b"
    and rest: "foldE (\<lambda>l acc. bindE (missing_in receiver l) (\<lambda>b.
      Inr (if b then acc[unat l := acc ! unat l @ [i]] else acc))) ls
      (if b then acc[unat l := acc ! unat l @ [i]] else acc) = Inr acc'"
    by (auto simp: bindE_Inr_iff)
  let ?acc = "if b then acc[unat l := acc ! unat l @ [i]] else acc"
  have "length acc' = length ?acc \<and> (\<forall>k. unat k < length ?acc \<longrightarrow>
      acc' ! unat k = ?acc ! unat k @ (if k \<in> set ls \<and> misses receiver k then [i] else []))"
    using Cons.prems(2,3) by (intro Cons.IH [OF rest]) auto
  moreover have "b \<longleftrightarrow> misses receiver l" using b by (auto simp: misses_def)
  ultimately show ?case
    using Cons.prems(2,3) by (auto simp: nth_list_update word_unat_eq_iff [symmetric])
qed

lemma aggregate_exact:
  assumes "aggregate_missing_blocks receivers total_blocks section_id limit = Inr missing"
    and "section_block_count total_blocks section_id limit = Inr n" and "l < n"
  shows "missing ! unat l = filter (\<lambda>i. misses (receivers ! i) l) [0..<length receivers]"
proof -
  let ?one = "\<lambda>i. foldE (\<lambda>l acc. bindE (missing_in (receivers ! i) l) (\<lambda>b.
      Inr (if b then acc[unat l := acc ! unat l @ [i]] else acc))) (local_blocks n)"
  have all: "length acc' = unat n \<and> acc' ! unat l = acc ! unat l @ filter (\<lambda>i. misses (receivers ! i) l) is"
    if "foldE ?one is acc = Inr acc'" "length acc = unat n" for "is" acc acc'
    using that
  proof (induction "is" arbitrary: acc)
    case Nil
    then show ?case by simp
  next
    case (Cons i "is")
    from Cons.prems(1) obtain b where b: "?one i acc = Inr b" and rest: "foldE ?one is b = Inr acc'"
      by (auto simp: bindE_Inr_iff)
    have fit: "\<forall>l \<in> set (local_blocks n). unat l < length acc"
      using Cons.prems(2) by (simp add: set_local_blocks word_less_nat_alt)
    from foldE_one_receiver [OF b distinct_local_blocks fit] assms(3) Cons.prems(2)
    have "length b = unat n" "b ! unat l = acc ! unat l @ (if misses (receivers ! i) l then [i] else [])"
      by (auto simp: set_local_blocks word_less_nat_alt)
    with Cons.IH [OF rest] show ?case by simp
  qed
  have "foldE ?one [0..<length receivers] (replicate (unat n) []) = Inr missing"
    using assms(1,2) by (simp add: aggregate_missing_blocks_def)
  from all [OF this] assms(3) show ?thesis by (simp add: word_less_nat_alt)
qed

section \<open>New packets and frames\<close>

definition new_packets :: "proxy \<Rightarrow> proxy \<Rightarrow> (endpoint \<times> bytes) list" where
  "new_packets p q = drop (length (h_packets p)) (h_packets q)"

definition new_frames :: "proxy \<Rightarrow> proxy \<Rightarrow> (int \<times> bytes) list" where
  "new_frames p q = drop (length (h_frames p)) (h_frames q)"

lemma new_packet:
  assumes "sent_more p u" and "send_udp_packet destination packet u = (Inr (), v)" and "sent_more v q"
  shows "(destination, packet) \<in> set (new_packets p q)"
proof -
  from assms(2) have "h_packets v = h_packets u @ [(destination, packet)]"
    by (auto simp: send_udp_packet_def system_error_def split: list.splits io_event.splits if_splits)
  with assms(1,3) show ?thesis by (auto simp: sent_more_def new_packets_def)
qed

lemma new_frame:
  assumes "sent_more p u" and "send_receiver_frame i frame u = (Inr True, v)" and "sent_more v q"
    and "i < length (px_receivers p)"
  shows "(rv_control_fd (px_receivers p ! i), frame) \<in> set (new_frames p q)"
proof -
  let ?fd = "rv_control_fd (px_receivers u ! i)"
  from assms(2) have fd: "\<not> ?fd < 0" and s: "send_frame ?fd frame u = (Inr (), v)"
    by (auto simp: send_receiver_frame_def eff_run get_rv_def split: if_splits sum.splits)
      (metis prod.collapse old.unit.exhaust)
  from send_frame_cases [of ?fd frame u] s have "h_frames v = h_frames u @ [(?fd, frame)]" by auto
  moreover have "?fd = rv_control_fd (px_receivers p ! i)"
    using assms(1,4) fd by (auto simp: sent_more_def)
  ultimately show ?thesis using assms(1,3) by (auto simp: sent_more_def new_frames_def)
qed

lemma misses_sent_more:
  "sent_more p q \<Longrightarrow> i < length (px_receivers p) \<Longrightarrow> misses (px_receivers q ! i) l = misses (px_receivers p ! i) l"
proof -
  assume "sent_more p q" "i < length (px_receivers p)"
  then have "px_receivers q ! i \<in> {px_receivers p ! i, (px_receivers p ! i)\<lparr>rv_control_fd := -1\<rparr>}"
    by (simp add: sent_more_def)
  then show ?thesis
    by (elim insertE emptyE; cases "rv_status (px_receivers p ! i)"; simp add: misses_def missing_in_def)
qed

lemma serves_file_sent_more: "sent_more p q \<Longrightarrow> serves_file d content (h_files q) = serves_file d content (h_files p)"
  by (simp add: sent_more_def)

text \<open>The block \<open>b\<close> reaches receiver \<open>t\<close>: as a multicast, or as a packet to it.\<close>

definition block_sent :: "delivery \<Rightarrow> bytes \<Rightarrow> u32 \<Rightarrow> u32 \<Rightarrow> nat \<Rightarrow> proxy \<Rightarrow> proxy \<Rightarrow> bool" where
  "block_sent d content section_id b t p q \<longleftrightarrow>
     (\<exists>destination packet. data_for d content section_id b packet \<and> (destination, packet) \<in> set (new_packets p q)
        \<and> (destination = dl_multicast_destination d \<or> destination = rv_peer_destination (px_receivers p ! t)))"

lemma block_of_section:
  assumes "section_first_block section_id limit = Inr first" and "section_block_count tot section_id limit = Inr n"
    and "l < n"
  shows "first + l < tot"
  by (rule blocks_of_section_less [of _ tot limit section_id])
    (use assms in \<open>simp add: blocks_of_section_def set_local_blocks\<close>)

text \<open>Sending the packet of a block that was read.\<close>

lemma send_block:
  assumes "sent_more p u" and "data_packet d section_id b u = (Inr packet, v)"
    and "send_udp_packet destination packet w = (Inr (), x)" and "sent_more v w" and "sent_more x q"
    and "serves_file d content (h_files p)" and "b < dl_total_blocks d"
    and "destination = dl_multicast_destination d \<or> destination = rv_peer_destination (px_receivers p ! t)"
  shows "block_sent d content section_id b t p q"
proof -
  have "sent_more u v" by (rule advancesD [OF sending_data_packet assms(2)])
  then have "sent_more p w" using assms(1,4) by (blast intro: sends.trans)
  from new_packet [OF this assms(3,5)] have "(destination, packet) \<in> set (new_packets p q)" .
  moreover have "data_for d content section_id b packet"
    by (rule data_packet_for [OF assms(2) _ assms(7)]) (use assms(1,6) in \<open>simp add: serves_file_sent_more\<close>)
  ultimately show ?thesis using assms(8) unfolding block_sent_def by blast
qed

section \<open>Repair from the proxy\<close>

lemma sending_repair_block [sending]:
  "advances sent_more (repair_block d section_id first missing l)"
  unfolding repair_block_def Let_def get_rv_def by (intro sending)

lemma repair_round_sends:
  assumes "send_repair_round d section_id round_id p = (Inr (), q)" and "serves_file d content (h_files p)"
    and "section_first_block section_id (dl_section_block_limit d) = Inr first"
    and "section_block_count (dl_total_blocks d) section_id (dl_section_block_limit d) = Inr n"
    and "l < n" and "t < length (px_receivers p)" and "misses (px_receivers p ! t) l"
  shows "block_sent d content section_id (first + l) t p q"
proof -
  from assms(1,3,4) obtain u missing v where u: "send_repair_begin d section_id round_id p = (Inr (), u)"
    and missing: "aggregate_missing_blocks (px_receivers u) (dl_total_blocks d) section_id (dl_section_block_limit d) = Inr missing"
    and v: "forS (local_blocks n) (repair_block d section_id first missing) u = (Inr (), v)"
    and q: "send_end_round d section_id round_id v = (Inr (), q)"
    by (auto simp: send_repair_round_def aggregate_def eff_Inr)
  have pu: "sent_more p u" and vq: "sent_more v q"
    using advancesD [OF sending_rounds(2) u] advancesD [OF sending_rounds(1) q] by blast+
  have t: "t \<in> set (missing ! unat l)"
    using aggregate_exact [OF missing assms(4,5)] misses_sent_more [OF pu assms(6)] sent_more_mono(4) [OF pu] assms(6,7)
    by simp
  have "l \<in> set (local_blocks n)" using assms(5) by (simp add: set_local_blocks)
  from sends.for_reaches [OF sending_repair_block v this] obtain w x where
    uw: "sent_more u w" and one: "repair_block d section_id first missing l w = (Inr (), x)" and xv: "sent_more x v" by blast
  have pw: "sent_more p w" and xq: "sent_more x q" using pu uw xv vq by (blast intro: sends.trans)+
  have b: "first + l < dl_total_blocks d" by (rule block_of_section [OF assms(3-5)])
  from one t obtain packet y where packet: "data_packet d section_id (first + l) w = (Inr packet, y)"
    and rest: "(if length (missing ! unat l) \<ge> kMulticastRepairThreshold then send_udp_packet (dl_multicast_destination d) packet
        else forS (missing ! unat l) (\<lambda>i. bindS (get_rv i rv_peer_destination)
          (\<lambda>destination. send_udp_packet destination packet))) y = (Inr (), x)"
    by (auto simp: repair_block_def Let_def eff_Inr split: if_splits)
  show ?thesis
  proof (cases "length (missing ! unat l) \<ge> kMulticastRepairThreshold")
    case True
    with rest have "send_udp_packet (dl_multicast_destination d) packet y = (Inr (), x)" by simp
    from send_block [OF pw packet this sends.refl xq assms(2) b] show ?thesis by simp
  next
    case False
    have step: "advances sent_more (bindS (get_rv i rv_peer_destination) (\<lambda>destination. send_udp_packet destination packet))" for i
      unfolding get_rv_def by (intro sending)
    from False rest have "forS (missing ! unat l) (\<lambda>i. bindS (get_rv i rv_peer_destination)
        (\<lambda>destination. send_udp_packet destination packet)) y = (Inr (), x)" by simp
    from sends.for_reaches [OF step this t] obtain y1 x1 where y1: "sent_more y y1" "sent_more x1 x"
      and "send_udp_packet (rv_peer_destination (px_receivers y1 ! t)) packet y1 = (Inr (), x1)"
      by (auto simp: get_rv_def eff_Inr)
    moreover have "sent_more p y1"
      using pw advancesD [OF sending_data_packet packet] y1(1) by (blast intro: sends.trans)
    then have "rv_peer_destination (px_receivers y1 ! t) = rv_peer_destination (px_receivers p ! t)"
      by (rule sent_more_mono(5) [OF _ assms(6)])
    moreover have "sent_more x1 q" using y1(2) xq by (rule sends.trans)
    ultimately show ?thesis using send_block [OF pw packet _ y1(1) _ assms(2) b] by auto
  qed
qed

section \<open>Repair between receivers\<close>

text \<open>Plans grow too: a block that is planned stays planned.\<close>

definition plan_grows :: "repair_plan \<Rightarrow> repair_plan \<Rightarrow> bool" where
  "plan_grows plan plan' \<longleftrightarrow> (\<forall>s t. set (rp_peer plan s t) \<subseteq> set (rp_peer plan' s t))
     \<and> (\<forall>t. set (rp_fallback plan t) \<subseteq> set (rp_fallback plan' t))"

lemma plan_grows_refl: "plan_grows plan plan"
  by (simp add: plan_grows_def)

lemma plan_grows_trans: "plan_grows a b \<Longrightarrow> plan_grows b c \<Longrightarrow> plan_grows a c"
  by (force simp: plan_grows_def)

definition planned_more :: "repair_plan \<times> proxy \<Rightarrow> repair_plan \<times> proxy \<Rightarrow> bool" where
  "planned_more = (\<lambda>(a, p) (b, q). plan_grows a b \<and> sent_more p q)"

interpretation plans: fold_progress planned_more
  by unfold_locales
    (auto simp: planned_more_def plan_grows_refl sends.refl intro: plan_grows_trans sends.trans)

lemma findE_Some: "findE test xs = Inr (Some x) \<Longrightarrow> x \<in> set xs \<and> test x = Inr True"
  by (induction xs) (auto simp: bindE_Inr_iff split: if_splits)

lemma add_peer_grows:
  "plan_grows plan (add_peer_block s t b plan)" "b \<in> set (rp_peer (add_peer_block s t b plan) s t)"
  by (auto simp: plan_grows_def add_peer_block_def)

lemma add_fallback_grows:
  "plan_grows plan (add_fallback_blocks t bs plan)" "rp_peer (add_fallback_blocks t bs plan) = rp_peer plan"
  "x \<in> set bs \<Longrightarrow> x \<in> set (rp_fallback (add_fallback_blocks t bs plan) t)"
  by (auto simp: plan_grows_def add_fallback_blocks_def)

lemma assign_target_plans:
  assumes "assign_target has_block n b t plan = Inr plan'"
  shows "plan_grows plan plan' \<and>
    ((\<exists>s < n. s \<noteq> t \<and> has_block s = Inr True \<and> b \<in> set (rp_peer plan' s t)) \<or> b \<in> set (rp_fallback plan' t))"
proof -
  let ?old = "\<lambda>i. if i = t \<or> rp_peer plan i t = [] then Inr False else has_block i"
  let ?new = "\<lambda>i. if i = t \<or> rp_target_count plan i \<ge> kMaxPeerTargetsPerSource then Inr False else has_block i"
  let ?counted = "\<lambda>s. plan\<lparr>rp_target_count := (rp_target_count plan)(s := rp_target_count plan s + 1)\<rparr>"
  consider s where "findE ?old [0..<n] = Inr (Some s)" "plan' = add_peer_block s t b plan"
    | s where "findE ?new [0..<n] = Inr (Some s)" "plan' = add_peer_block s t b (?counted s)"
    | "plan' = add_fallback_blocks t [b] plan"
    using assms by (auto simp: assign_target_def bindE_Inr_iff split: option.splits)
  then show ?thesis
  proof cases
    case (1 s)
    with findE_Some [OF 1(1)] add_peer_grows(1) [of plan s t b] add_peer_grows(2) [of b s t plan] show ?thesis by (auto split: if_splits)
  next
    case (2 s)
    have "plan_grows plan (?counted s)" by (simp add: plan_grows_def)
    then have "plan_grows plan plan'" using 2 add_peer_grows(1) plan_grows_trans by blast
    with findE_Some [OF 2(1)] 2(2) add_peer_grows(2) [of b s t "?counted s"] show ?thesis by (auto split: if_splits)
  next
    case 3
    then show ?thesis by (simp add: add_fallback_grows)
  qed
qed

lemma assign_targets_grow:
  "foldE (assign_target has_block n b) ts plan = Inr plan' \<Longrightarrow> plan_grows plan plan'"
  by (induction ts arbitrary: plan)
    (auto simp: bindE_Inr_iff plan_grows_refl intro: plan_grows_trans dest: assign_target_plans)

lemma plan_block_grows:
  assumes "plan_block d section_id round_id first missing l plan p = (Inr plan', q)"
  shows "planned_more (plan, p) (plan', q)"
  using assms
  by (auto simp: plan_block_def Let_def eff_Inr planned_more_def plan_grows_refl sends.refl
      intro: assign_targets_grow sends.trans dest!: advancesD [OF sending_data_packet] advancesD [OF sending_udp]
      split: if_splits)

text \<open>While tasks are sent, a failed connection moves blocks to the fallback list.\<close>

definition tasked_more :: "(repair_plan \<times> u64) \<times> proxy \<Rightarrow> (repair_plan \<times> u64) \<times> proxy \<Rightarrow> bool" where
  "tasked_more = (\<lambda>((a, _), p) ((b, _), q). rp_peer b = rp_peer a \<and> plan_grows a b \<and> sent_more p q)"

lemma tasked_moreE:
  assumes "tasked_more x y"
  obtains a k p b m q where "x = ((a, k), p)" "y = ((b, m), q)" "rp_peer b = rp_peer a" "plan_grows a b" "sent_more p q"
  using assms unfolding tasked_more_def by (auto split: prod.splits)

interpretation tasks: fold_progress tasked_more
proof
  show "tasked_more s s" for s by (cases s) (auto simp: tasked_more_def plan_grows_refl sends.refl)
  fix s t u assume "tasked_more s t" "tasked_more t u"
  then show "tasked_more s u"
    by (elim tasked_moreE) (simp add: tasked_more_def, metis plan_grows_trans sends.trans)
qed

lemma send_task_run:
  assumes "send_task d section_id round_id s t bs (plan, k) p = (Inr (plan', k'), q)"
  shows "\<exists>frame sent. encode_peer_repair_task (peer_task d section_id round_id
        (rv_peer_destination (px_receivers p ! t)) (k + 1) bs) = Inr frame
      \<and> send_receiver_frame s frame p = (Inr sent, q)
      \<and> plan' = (if sent then plan else add_fallback_blocks t bs plan)"
proof -
  from assms obtain frame w where
    e: "encode_peer_repair_task (peer_task d section_id round_id (rv_peer_destination (px_receivers p ! t)) (k + 1) bs) = Inr frame"
    and s: "bindS (send_receiver_frame s frame) (\<lambda>sent. returnS (if sent then plan else add_fallback_blocks t bs plan, k + 1)) p
      = (Inr (plan', k'), q)"
    unfolding send_task_def prod.case get_rv_def eff_Inr by blast
  from s obtain sent where "send_receiver_frame s frame p = (Inr sent, q)"
      "plan' = (if sent then plan else add_fallback_blocks t bs plan)"
    unfolding eff_Inr by blast
  with e show ?thesis by blast
qed

lemma send_task_tasked:
  "send_task d section_id round_id s t bs a p = (Inr b, q) \<Longrightarrow> tasked_more (a, p) (b, q)"
proof -
  assume run: "send_task d section_id round_id s t bs a p = (Inr b, q)"
  obtain plan k plan' k' where ab: "a = (plan, k)" "b = (plan', k')" by (metis surj_pair)
  from send_task_run [OF run [unfolded ab]] obtain frame sent where
    "send_receiver_frame s frame p = (Inr sent, q)" "plan' = (if sent then plan else add_fallback_blocks t bs plan)" by blast
  with advancesD [OF sending_receiver_frame(1)] show ?thesis
    by (auto simp: ab tasked_more_def plan_grows_refl add_fallback_grows)
qed

lemma send_pair_tasked:
  assumes "send_pair d section_id round_id st a p = (Inr b, q)"
  shows "tasked_more (a, p) (b, q)"
proof -
  obtain s t plan k where st: "st = (s, t)" "a = (plan, k)" by (metis surj_pair)
  consider "b = a \<and> q = p" | "b = (add_fallback_blocks t (rp_peer plan s t) plan, k) \<and> q = p"
    | "foldS (send_task d section_id round_id s t) (task_chunks (rp_peer plan s t)) (plan, k) p = (Inr b, q)"
    using assms by (auto simp: send_pair_def st Let_def split: if_splits)
  then show ?thesis
  proof cases
    case 3
    then show ?thesis unfolding st by (rule tasks.fold_advances [rotated]) (rule send_task_tasked)
  qed (auto simp: st tasks.refl tasked_more_def add_fallback_grows plan_grows_refl sends.refl)
qed

lemma concat_task_chunks: "concat (task_chunks bs) = bs"
  by (induction bs rule: task_chunks.induct) (subst task_chunks.simps, simp)

text \<open>A receiver other than \<open>t\<close> that has the block was asked to send it to \<open>t\<close>.\<close>

definition peer_asked :: "delivery \<Rightarrow> u32 \<Rightarrow> u32 \<Rightarrow> u32 \<Rightarrow> u32 \<Rightarrow> nat \<Rightarrow> proxy \<Rightarrow> proxy \<Rightarrow> bool" where
  "peer_asked d section_id round_id first l t p q \<longleftrightarrow>
     (\<exists>s frame task. s < length (px_receivers p) \<and> s \<noteq> t
        \<and> source_has_block d section_id round_id (px_receivers p ! s) l = Inr True
        \<and> (rv_control_fd (px_receivers p ! s), frame) \<in> set (new_frames p q)
        \<and> decode_peer_repair_task frame = Inr task
        \<and> pt_transfer_id task = dl_transfer_id d \<and> pt_section_id task = section_id \<and> pt_round_id task = round_id
        \<and> (pt_target_ipv4 task, pt_target_port task) = rv_peer_destination (px_receivers p ! t)
        \<and> first + l \<in> set (pt_block_ids task))"

lemma send_pair_covers:
  assumes "send_pair d section_id round_id (s, t) (plan, k) u = (Inr (plan', k'), v)"
    and "b \<in> set (rp_peer plan s t)"
  shows "b \<in> set (rp_fallback plan' t) \<or>
    (\<exists>w x frame task. sent_more u w \<and> send_receiver_frame s frame w = (Inr True, x) \<and> sent_more x v
      \<and> decode_peer_repair_task frame = Inr task \<and> b \<in> set (pt_block_ids task)
      \<and> pt_transfer_id task = dl_transfer_id d \<and> pt_section_id task = section_id \<and> pt_round_id task = round_id
      \<and> (pt_target_ipv4 task, pt_target_port task) = rv_peer_destination (px_receivers w ! t))"
proof (cases "length (rp_peer plan s t) < kMinPeerBlocks")
  case True
  with assms have "plan' = add_fallback_blocks t (rp_peer plan s t) plan"
    by (auto simp: send_pair_def Let_def split: if_splits)
  with assms(2) show ?thesis by (auto simp: add_fallback_grows)
next
  case False
  let ?bs = "rp_peer plan s t"
  from False assms have run: "foldS (send_task d section_id round_id s t) (task_chunks ?bs) (plan, k) u = (Inr (plan', k'), v)"
    by (auto simp: send_pair_def Let_def split: if_splits)
  have "b \<in> set (concat (task_chunks ?bs))" using assms(2) by (simp only: concat_task_chunks)
  then obtain bs where bs: "bs \<in> set (task_chunks ?bs)" "b \<in> set bs" by auto
  have "\<exists>a w a' x. tasked_more ((plan, k), u) (a, w) \<and> send_task d section_id round_id s t bs a w = (Inr a', x)
      \<and> tasked_more (a', x) ((plan', k'), v)"
    by (rule tasks.fold_reaches [OF _ run bs(1)]) (rule send_task_tasked)
  then obtain a w a' x where
    uw: "tasked_more ((plan, k), u) (a, w)" and one: "send_task d section_id round_id s t bs a w = (Inr a', x)"
    and xv: "tasked_more (a', x) ((plan', k'), v)" by blast
  obtain plan1 k1 plan2 k2 where a: "a = (plan1, k1)" "a' = (plan2, k2)" by (metis surj_pair)
  let ?task = "peer_task d section_id round_id (rv_peer_destination (px_receivers w ! t)) (k1 + 1) bs"
  from send_task_run [OF one [unfolded a]] obtain frame sent where
    e: "encode_peer_repair_task ?task = Inr frame" and sent: "send_receiver_frame s frame w = (Inr sent, x)"
    and plan2: "plan2 = (if sent then plan1 else add_fallback_blocks t bs plan1)" by blast
  show ?thesis
  proof (cases sent)
    case True
    have "decode_peer_repair_task frame = Inr ?task"
      using e by (intro peer_repair_task.dec_enc) (auto simp: encode_peer_repair_task_def not_less split: if_splits)
    moreover have "sent_more u w" "sent_more x v" using uw xv by (simp_all add: a tasked_more_def)
    ultimately show ?thesis
      using sent True bs(2)
      by (intro disjI2 exI [of _ w] exI [of _ x] exI [of _ frame] exI [of _ ?task]) (simp add: peer_task_def)
  next
    case False
    then have "b \<in> set (rp_fallback plan2 t)" using plan2 bs(2) by (simp add: add_fallback_grows)
    with xv show ?thesis by (auto simp: a tasked_more_def plan_grows_def)
  qed
qed

section \<open>Both modes of repair\<close>

lemma source_sent_more:
  assumes "sent_more p w" and "s < length (px_receivers p)"
    and "source_has_block d section_id round_id (px_receivers w ! s) l = Inr True"
  shows "source_has_block d section_id round_id (px_receivers p ! s) l = Inr True"
proof -
  have "px_receivers w ! s \<in> {px_receivers p ! s, (px_receivers p ! s)\<lparr>rv_control_fd := -1\<rparr>}"
    using assms(1,2) by (simp add: sent_more_def)
  then show ?thesis using assms(3) by (elim insertE emptyE) (simp_all add: source_has_block_def)
qed

lemma assign_targets_plan:
  assumes "foldE (assign_target has_block n b) ts plan = Inr plan'" and "t \<in> set ts"
  shows "(\<exists>s < n. s \<noteq> t \<and> has_block s = Inr True \<and> b \<in> set (rp_peer plan' s t)) \<or> b \<in> set (rp_fallback plan' t)"
  using assms
proof (induction ts arbitrary: plan)
  case Nil
  then show ?case by simp
next
  case (Cons x xs)
  from Cons.prems(1) obtain mid where mid: "assign_target has_block n b x plan = Inr mid"
    and rest: "foldE (assign_target has_block n b) xs mid = Inr plan'"
    by (auto simp: bindE_Inr_iff)
  show ?case
  proof (cases "t \<in> set xs")
    case True
    then show ?thesis by (rule Cons.IH [OF rest])
  next
    case False
    with Cons.prems(2) have "x = t" by simp
    with assign_target_plans [OF mid] assign_targets_grow [OF rest] show ?thesis
      unfolding plan_grows_def by blast
  qed
qed

text \<open>After planning, a missing block was multicast, is planned for a receiver that has it, or is
  left to the proxy.\<close>

lemma plan_covers:
  assumes "foldS (plan_block d section_id round_id first missing) (local_blocks n) plan0 u = (Inr plan, v)"
    and "sent_more p u" and "sent_more v q" and "serves_file d content (h_files p)"
    and "l < n" and "first + l < dl_total_blocks d" and "t \<in> set (missing ! unat l)"
  shows "block_sent d content section_id (first + l) t p q
    \<or> (\<exists>s < length (px_receivers p). s \<noteq> t
         \<and> source_has_block d section_id round_id (px_receivers p ! s) l = Inr True
         \<and> first + l \<in> set (rp_peer plan s t))
    \<or> first + l \<in> set (rp_fallback plan t)"
proof -
  let ?b = "first + l"
  have "l \<in> set (local_blocks n)" using assms(5) by (simp add: set_local_blocks)
  have "\<exists>a w a' x. planned_more (plan0, u) (a, w) \<and> plan_block d section_id round_id first missing l a w = (Inr a', x)
      \<and> planned_more (a', x) (plan, v)"
    by (rule plans.fold_reaches [OF _ assms(1) \<open>l \<in> _\<close>]) (rule plan_block_grows)
  then obtain a w a' x where uw: "sent_more u w" and xv: "sent_more x v" and grows: "plan_grows a' plan"
    and one: "plan_block d section_id round_id first missing l a w = (Inr a', x)"
    by (auto simp: planned_more_def)
  have pw: "sent_more p w" and xq: "sent_more x q" using assms(2,3) uw xv by (blast intro: sends.trans)+
  have targets: "missing ! unat l \<noteq> []" using assms(7) by auto
  show ?thesis
  proof (cases "length (missing ! unat l) \<ge> kMulticastRepairThreshold")
    case True
    with one targets have "bindS (data_packet d section_id ?b) (\<lambda>packet.
        bindS (send_udp_packet (dl_multicast_destination d) packet) (\<lambda>_. returnS a)) w = (Inr a', x)"
      by (simp add: plan_block_def Let_def)
    then obtain packet y z where packet: "data_packet d section_id ?b w = (Inr packet, y)"
      and "send_udp_packet (dl_multicast_destination d) packet y = (Inr z, x)"
      unfolding eff_Inr by blast
    then have "send_udp_packet (dl_multicast_destination d) packet y = (Inr (), x)" by simp
    from send_block [OF pw packet this sends.refl xq assms(4,6)] show ?thesis by simp
  next
    case False
    with one targets have "bindS (getS px_receivers) (\<lambda>receivers.
        liftE (foldE (assign_target (\<lambda>i. source_has_block d section_id round_id (receivers ! i) l)
          (length receivers) ?b) (missing ! unat l) a)) w = (Inr a', x)"
      by (simp add: plan_block_def Let_def)
    then have "foldE (assign_target (\<lambda>i. source_has_block d section_id round_id (px_receivers w ! i) l)
        (length (px_receivers w)) ?b) (missing ! unat l) a = Inr a'"
      unfolding eff_Inr by blast
    from assign_targets_plan [OF this assms(7)] grows
    have "(\<exists>s < length (px_receivers w). s \<noteq> t \<and> source_has_block d section_id round_id (px_receivers w ! s) l = Inr True
        \<and> ?b \<in> set (rp_peer plan s t)) \<or> ?b \<in> set (rp_fallback plan t)"
      unfolding plan_grows_def by blast
    with sent_more_mono(4) [OF pw] source_sent_more [OF pw] show ?thesis by metis
  qed
qed

lemma sending_fallback [sending]: "advances sent_more (send_fallback d section_id plan t)"
  unfolding send_fallback_def get_rv_def by (intro sending)

lemma fallback_sends:
  assumes "forS [0..<n] (send_fallback d section_id plan) u = (Inr (), v)"
    and "sent_more p u" and "sent_more v q" and "serves_file d content (h_files p)"
    and "t < n" and "t < length (px_receivers p)" and "b < dl_total_blocks d" and "b \<in> set (rp_fallback plan t)"
  shows "block_sent d content section_id b t p q"
proof -
  let ?one = "\<lambda>b. bindS (data_packet d section_id b) (\<lambda>packet.
       bindS (get_rv t rv_peer_destination) (\<lambda>destination. send_udp_packet destination packet))"
  have step: "advances sent_more (?one b)" for b unfolding get_rv_def by (intro sending)
  have "t \<in> set [0..<n]" using assms(5) by simp
  from sends.for_reaches [OF sending_fallback assms(1) this] obtain w x where
    uw: "sent_more u w" and xv: "sent_more x v" and "send_fallback d section_id plan t w = (Inr (), x)" by blast
  then have "forS (rp_fallback plan t) ?one w = (Inr (), x)" by (simp add: send_fallback_def)
  from sends.for_reaches [OF step this assms(8)] obtain y z where
    wy: "sent_more w y" and zx: "sent_more z x" and one: "?one b y = (Inr (), z)" by blast
  from one obtain packet r where packet: "data_packet d section_id b y = (Inr packet, r)"
    and send: "send_udp_packet (rv_peer_destination (px_receivers r ! t)) packet r = (Inr (), z)"
    unfolding get_rv_def eff_Inr by blast
  have py: "sent_more p y" and zq: "sent_more z q"
    using assms(2,3) uw xv wy zx by (blast intro: sends.trans)+
  have "sent_more p r" using py advancesD [OF sending_data_packet packet] by (rule sends.trans)
  from sent_more_mono(5) [OF this assms(6)] send_block [OF py packet send sends.refl zq assms(4,7)]
  show ?thesis by simp
qed

lemma tasks_cover:
  assumes "foldS (send_pair d section_id round_id) (index_pairs n) (plan, k) u = (Inr (plan', k'), v)"
    and "sent_more p u" and "sent_more v q" and "n = length (px_receivers p)" and "s < n" and "t < n" and "s \<noteq> t"
    and "source_has_block d section_id round_id (px_receivers p ! s) l = Inr True"
    and "first + l \<in> set (rp_peer plan s t)"
  shows "peer_asked d section_id round_id first l t p q \<or> first + l \<in> set (rp_fallback plan' t)"
proof -
  let ?b = "first + l"
  have "(s, t) \<in> set (index_pairs n)" using assms(5,6) by (force simp: index_pairs_def)
  have "\<exists>a w a' x. tasked_more ((plan, k), u) (a, w) \<and> send_pair d section_id round_id (s, t) a w = (Inr a', x)
      \<and> tasked_more (a', x) ((plan', k'), v)"
    by (rule tasks.fold_reaches [OF _ assms(1) \<open>(s, t) \<in> _\<close>]) (rule send_pair_tasked)
  then obtain a w a' x where uw: "tasked_more ((plan, k), u) (a, w)" and xv: "tasked_more (a', x) ((plan', k'), v)"
    and one: "send_pair d section_id round_id (s, t) a w = (Inr a', x)" by blast
  obtain plan1 k1 plan2 k2 where a: "a = (plan1, k1)" "a' = (plan2, k2)" by (metis surj_pair)
  note one = one [unfolded a]
  have peer: "rp_peer plan1 = rp_peer plan" and uw: "sent_more u w" using uw by (simp_all add: a tasked_more_def)
  have grows: "plan_grows plan2 plan'" and xv: "sent_more x v" using xv by (simp_all add: a tasked_more_def)
  have "?b \<in> set (rp_peer plan1 s t)" using assms(9) peer by simp
  from send_pair_covers [OF one this] show ?thesis
  proof (elim disjE exE conjE)
    assume "?b \<in> set (rp_fallback plan2 t)"
    with grows show ?thesis unfolding plan_grows_def by blast
  next
    fix y z frame task
    assume wy: "sent_more w y" and sent: "send_receiver_frame s frame y = (Inr True, z)" and zx: "sent_more z x"
      and task: "decode_peer_repair_task frame = Inr task" "?b \<in> set (pt_block_ids task)"
        "pt_transfer_id task = dl_transfer_id d" "pt_section_id task = section_id" "pt_round_id task = round_id"
        "(pt_target_ipv4 task, pt_target_port task) = rv_peer_destination (px_receivers y ! t)"
    have py: "sent_more p y" and zq: "sent_more z q"
      using assms(2,3) uw wy zx xv by (blast intro: sends.trans)+
    have "(rv_control_fd (px_receivers p ! s), frame) \<in> set (new_frames p q)"
      by (rule new_frame [OF py sent zq]) (use assms(4,5) in simp)
    moreover have "rv_peer_destination (px_receivers y ! t) = rv_peer_destination (px_receivers p ! t)"
      by (rule sent_more_mono(5) [OF py]) (use assms(4,6) in simp)
    ultimately have "peer_asked d section_id round_id first l t p q"
      unfolding peer_asked_def using assms(4-8) task by (intro exI [of _ s] exI [of _ frame] exI [of _ task]) simp
    then show ?thesis ..
  qed
qed

lemma peer_repair_covers:
  assumes "re_to_re d section_id round_id p = (Inr (), q)" and "serves_file d content (h_files p)"
    and "section_first_block section_id (dl_section_block_limit d) = Inr first"
    and "section_block_count (dl_total_blocks d) section_id (dl_section_block_limit d) = Inr n"
    and "l < n" and "t < length (px_receivers p)" and "misses (px_receivers p ! t) l"
  shows "block_sent d content section_id (first + l) t p q \<or> peer_asked d section_id round_id first l t p q"
proof -
  from assms(1,3,4) obtain u missing plan v plan' k w x where
    u: "send_repair_begin d section_id round_id p = (Inr (), u)"
    and missing: "aggregate_missing_blocks (px_receivers u) (dl_total_blocks d) section_id (dl_section_block_limit d) = Inr missing"
    and v: "foldS (plan_block d section_id round_id first missing) (local_blocks n) empty_plan u = (Inr plan, v)"
    and w: "foldS (send_pair d section_id round_id) (index_pairs (length (px_receivers u))) (plan, 0) v = (Inr (plan', k), w)"
    and x: "forS [0..<length (px_receivers u)] (send_fallback d section_id plan') w = (Inr (), x)"
    and q: "send_end_round d section_id round_id x = (Inr (), q)"
    by (auto simp: re_to_re_def aggregate_def eff_Inr)
  have pu: "sent_more p u" using advancesD [OF sending_rounds(2) u] .
  have "planned_more (empty_plan, u) (plan, v)"
    by (rule plans.fold_advances [OF _ v]) (rule plan_block_grows)
  then have uv: "sent_more u v" by (simp add: planned_more_def)
  have "tasked_more ((plan, 0), v) ((plan', k), w)"
    by (rule tasks.fold_advances [OF _ w]) (rule send_pair_tasked)
  then have vw: "sent_more v w" by (auto elim: tasked_moreE)
  have wx: "sent_more w x" by (rule advancesD [OF sends.for_loop [OF sending_fallback] x])
  have xq: "sent_more x q" using advancesD [OF sending_rounds(1) q] .
  have wq: "sent_more w q" using wx xq by (rule sends.trans)
  have vq: "sent_more v q" using vw wq by (rule sends.trans)
  have pv: "sent_more p v" using pu uv by (rule sends.trans)
  have pw: "sent_more p w" using pv vw by (rule sends.trans)
  have receivers: "length (px_receivers u) = length (px_receivers p)" by (rule sent_more_mono(4) [OF pu])
  have t: "t \<in> set (missing ! unat l)"
    using aggregate_exact [OF missing assms(4,5)] misses_sent_more [OF pu assms(6)] receivers assms(6,7) by simp
  have b: "first + l < dl_total_blocks d" by (rule block_of_section [OF assms(3-5)])
  have fallback: "block_sent d content section_id (first + l) t p q" if "first + l \<in> set (rp_fallback plan' t)"
    by (rule fallback_sends [OF x pw xq assms(2) _ assms(6) b that]) (use receivers assms(6) in simp)
  have grows: "plan_grows plan plan'"
    using \<open>tasked_more ((plan, 0), v) ((plan', k), w)\<close> by (auto elim: tasked_moreE)
  from plan_covers [OF v pu vq assms(2,5) b t] show ?thesis
  proof (elim disjE exE conjE)
    fix s assume s: "s < length (px_receivers p)" "s \<noteq> t"
      "source_has_block d section_id round_id (px_receivers p ! s) l = Inr True"
      "first + l \<in> set (rp_peer plan s t)"
    from tasks_cover [OF w pv wq receivers _ _ s(2-4)] s(1) assms(6) fallback receivers show ?thesis by auto
  next
    assume "first + l \<in> set (rp_fallback plan t)"
    with grows fallback show ?thesis unfolding plan_grows_def by blast
  qed simp
qed

lemma repair_round_sent:
  assumes "(if dl_repair_mode d = RM_Baseline then send_repair_round d section_id round_id
            else re_to_re d section_id round_id) p = (Inr (), q)"
    and "serves_file d content (h_files p)"
    and "section_first_block section_id (dl_section_block_limit d) = Inr first"
    and "section_block_count (dl_total_blocks d) section_id (dl_section_block_limit d) = Inr n"
    and "l < n" and "t < length (px_receivers p)" and "misses (px_receivers p ! t) l"
  shows "block_sent d content section_id (first + l) t p q \<or> peer_asked d section_id round_id first l t p q"
proof (cases "dl_repair_mode d = RM_Baseline")
  case True
  with assms(1) have "send_repair_round d section_id round_id p = (Inr (), q)" by simp
  from repair_round_sends [OF this assms(2-7)] show ?thesis ..
next
  case False
  with assms(1) have "re_to_re d section_id round_id p = (Inr (), q)" by simp
  from peer_repair_covers [OF this assms(2-7)] show ?thesis .
qed


section \<open>An example\<close>

definition repair_delivery :: delivery where
  "repair_delivery = \<lparr>dl_multicast_destination = (7, 9), dl_file_path = ''f'', dl_file_size = 3, dl_transfer_id = 7,
     dl_total_blocks = 1, dl_digest = [], dl_max_repair_rounds = 5, dl_section_block_limit = 64,
     dl_repair_mode = RM_Peer\<rparr>"

definition repair_report :: "SectionStatusCode \<Rightarrow> bytes \<Rightarrow> SectionStatusMessage" where
  "repair_report code bitmap = \<lparr>ss_transfer_id = 7, ss_section_id = 0, ss_round_id = 0, ss_status = code,
     ss_missing_count = 1, ss_missing_bitmap = bitmap\<rparr>"

definition example_repair :: proxy where
  "example_repair = \<lparr>h_files = (\<lambda>_. None)(''f'' := Some [1, 2, 3]), h_events = [], h_clock = 0, h_frames = [],
     h_packets = [], h_getenv = (\<lambda>_. None), h_statvfs = (\<lambda>_. Inl ''''), h_scan = (\<lambda>_. Inl ''''),
     px_receivers = [
       new_receiver\<lparr>rv_control_fd := 4, rv_status_received := True, rv_status := Some (repair_report SS_Complete [])\<rparr>,
       new_receiver\<lparr>rv_control_fd := 5, rv_status_received := True, rv_peer_destination := (3, 4),
         rv_status := Some (repair_report SS_Missing [1])\<rparr>],
     px_wakes = [], px_pending = [], px_polls = (\<lambda>_. []), px_random = [], px_central_fd = -1, px_central = [],
     px_queue = [], px_pending_bytes = 0, px_worker_error = None, px_section_result = DR_Success,
     px_failure = None, px_dispatch_complete = False, px_schedule = []\<rparr>"

lemma example_repair_fields [simp]:
  "h_events example_repair = []" "h_frames example_repair = []" "h_packets example_repair = []"
  "h_files example_repair = (\<lambda>_. None)(''f'' := Some [1, 2, 3])"
  "px_receivers example_repair = [
       new_receiver\<lparr>rv_control_fd := 4, rv_status_received := True, rv_status := Some (repair_report SS_Complete [])\<rparr>,
       new_receiver\<lparr>rv_control_fd := 5, rv_status_received := True, rv_peer_destination := (3, 4),
         rv_status := Some (repair_report SS_Missing [1])\<rparr>]"
  by (simp_all add: example_repair_def)

lemma new_receiver_takes_part [simp]:
  "\<not> rv_completed new_receiver" "\<not> rv_isolated new_receiver" "\<not> rv_abandoned new_receiver"
  by (simp_all add: new_receiver_def)

definition repair_packet :: bytes where
  "repair_packet = write_common PT_Data 7 @ put_u32 0 @ put_u32 0 @ put_u64 0 @ put_u16 3
     @ put_u16 0 @ put_u32 (crc32 [1, 2, 3]) @ [1, 2, 3]"

lemma example_data:
  assumes "h_files s = (\<lambda>_. None)(''f'' := Some [1, 2, 3])" and "h_events s = []"
  shows "data_packet repair_delivery 0 0 s = (Inr repair_packet, s)"
  using assms
  by (simp add: data_packet_def repair_delivery_def eff_run read_block_of_def read_block_def repair_packet_def
    file_content_def c_str_def content_or_empty_def encode_data_def kPayloadSize_def wanted_size_def block_offset_def Let_def)

lemma round_frames_valid [simp]: "valid_frame (encode_repair_begin m)" "valid_frame (encode_section_end n)"
  by (simp_all add: encode_repair_begin_def encode_section_end_def wire_length valid_frame_def kMaxControlFrameSize_def
    flip: length_greater_0_conv)

lemma repair_delivery_fields [simp]:
  "dl_section_block_limit repair_delivery = 64" "dl_total_blocks repair_delivery = 1" "dl_transfer_id repair_delivery = 7"
  by (simp_all add: repair_delivery_def)

lemma one_block_section [simp]: "local_blocks 1 = [0]" "section_block_count 1 0 64 = Inr 1" "section_first_block 0 64 = Inr 0"
  by (simp_all add: local_blocks_def section_defs)

lemma repair_report_fields [simp]:
  "ss_transfer_id (repair_report c b) = 7" "ss_section_id (repair_report c b) = 0"
  "ss_round_id (repair_report c b) = 0" "ss_status (repair_report c b) = c" "ss_missing_bitmap (repair_report c b) = b"
  by (simp_all add: repair_report_def)

lemma example_missing: "aggregate_missing_blocks [
       new_receiver\<lparr>rv_control_fd := 4, rv_status_received := True, rv_status := Some (repair_report SS_Complete [])\<rparr>,
       new_receiver\<lparr>rv_control_fd := 5, rv_status_received := True, rv_peer_destination := (3, 4),
         rv_status := Some (repair_report SS_Missing [1])\<rparr>] 1 0 64 = Inr [[1]]"
  by (simp add: aggregate_missing_blocks_def upt_rec missing_in_def bitmap_test_def)

lemma example_repair_run:
  "re_to_re repair_delivery 0 1 example_repair = (Inr (), example_repair\<lparr>
     h_frames := [(4, encode_repair_begin \<lparr>rb_transfer_id = 7, rb_section_id = 0, rb_round_id = 1\<rparr>),
       (5, encode_repair_begin \<lparr>rb_transfer_id = 7, rb_section_id = 0, rb_round_id = 1\<rparr>),
       (4, encode_section_end \<lparr>se_transfer_id = 7, se_section_id = 0, se_round_id = 1, se_total_blocks = 1\<rparr>),
       (5, encode_section_end \<lparr>se_transfer_id = 7, se_section_id = 0, se_round_id = 1, se_total_blocks = 1\<rparr>)],
     h_packets := [((3, 4), repair_packet)]\<rparr>)"
  by (simp add: re_to_re_def send_repair_begin_def aggregate_def send_end_round_def send_to_participants_def
      for_receivers_def get_rv_def send_ignoring_def send_receiver_frame_def send_udp_packet_def eff_run participates_def
      upt_rec send_frame_no_events plan_block_def kMulticastRepairThreshold_def kMaxPeerTargetsPerSource_def
      assign_target_def source_has_block_def empty_plan_def add_peer_block_def add_fallback_blocks_def example_missing
      send_pair_def index_pairs_def send_fallback_def kMinPeerBlocks_def Let_def example_data)


end
