(* ===== verification/Round_Exchange.thy ===== *)
theory Round_Exchange
  imports Proxy_Coverage Receiver_Examples
begin

text \<open>
  Proxy and receivers together, over one round of a Section: what the report of a receiver
  (\<open>finish_drain_and_report\<close> of \<open>src/receiver.cpp\<close>) makes the proxy know
  (\<open>handle_control_frame\<close> of \<open>src/sender.cpp\<close>), and what the packets of the repair round
  (\<open>send_repair_round\<close>, \<open>re_to_re\<close>, and \<open>execute_peer_repair_task\<close> at another receiver) make the
  receiver store. Both sides are the models of the code; between them stand only the frames and
  packets one sends and the other is given.
\<close>

section \<open>The bitmap of a report is accepted\<close>


lemma counted_bits:
  assumes "\<forall>l \<in> set ls. bitmap_test bm l = Inr (miss l)"
  shows "foldE (\<lambda>l counted. bindE (bitmap_test bm l) (\<lambda>b. Inr (if b then counted + 1 else counted))) ls (c :: u32)
    = Inr (c + of_nat (length (filter miss ls)))"
  using assms by (induction ls arbitrary: c) (simp_all add: add.assoc)

lemma last_byte:
  fixes N :: nat
  assumes "N mod 8 \<noteq> 0"
  shows "(N + 7) div 8 = Suc (N div 8)"
proof -
  obtain q r where q: "N div 8 = q" "N mod 8 = r" by blast
  then have N: "N = 8 * q + r" "r < 8" by auto
  have "(8 * q + r + 7) div 8 = Suc q" by (rule div_nat_eqI) (use N(2) assms q(2) in simp_all)
  then show ?thesis using N(1) q(1) by simp
qed

lemma unused_bits:
  assumes "length bm = bitmap_size_for_blocks n" and "n mod 8 \<noteq> 0"
    and "\<And>j. unat j < 8 * length bm \<Longrightarrow> \<not> j < n \<Longrightarrow> bitmap_test bm j = Inr False"
  shows "last bm AND ucast (push_bit (unat (n mod 8)) (0xff :: u32)) = 0"
proof (rule bit_eqI)
  let ?r = "unat n mod 8"
  have r: "unat (n mod 8) = ?r" by (simp add: unat_mod)
  have r0: "?r \<noteq> 0" using assms(2) r by (metis unat_eq_zero)
  have len: "length bm = (unat n + 7) div 8" using assms(1) by (simp add: bitmap_size_for_blocks_def)
  let ?last = "unat n div 8"
  have len: "length bm = Suc ?last" using len last_byte [OF r0] by simp
  have n: "unat n = 8 * ?last + ?r" by simp
  fix k :: nat
  have "\<not> bit (last bm) k" if k: "k < 8" "?r \<le> k"
  proof -
    let ?m = "8 * ?last + k"
    have "?last < 2 ^ 29" using unat_u32_less [of n] by simp
    then have "?m < 2 ^ 32" using k(1) by simp
    then have m: "unat (of_nat ?m :: u32) = ?m" by (intro unat_of_nat_u32) simp
    have in_map: "?m < 8 * length bm" using k(1) by (simp add: len)
    have "unat n \<le> ?m" using k(2) n by linarith
    then have "\<not> (of_nat ?m :: u32) < n" using m by (simp only: word_less_nat_alt not_less)
    with assms(3) [of "of_nat ?m"] m in_map have "bitmap_test bm (of_nat ?m) = Inr False" by simp
    then have "\<not> bitmap_bit bm ?m" using m in_map by (simp add: bitmap_test_eq)
    moreover have "?m div 8 = ?last" "?m mod 8 = k" using k(1) by simp_all
    moreover have "last bm = bm ! ?last" using len by (cases bm rule: rev_cases) (simp_all add: nth_append)
    ultimately show ?thesis by (simp only: bitmap_bit_def) simp
  qed
  then show "bit (last bm AND ucast (push_bit (unat (n mod 8)) (0xff :: u32))) k = bit (0 :: byte) k"
    by (simp add: r bit_simps)
qed

lemma missing_bitmap_valid:
  assumes "make_missing_bitmap st s = Inr (bm, c)" and "c \<noteq> 0"
    and "section_block_count (meta_total_blocks (ts_meta st)) s (meta_section_block_count (ts_meta st)) = Inr n"
    and "ss_status status = SS_Missing" "ss_missing_bitmap status = bm" "ss_missing_count status = c"
  shows "validate_missing_bitmap status n = Inr True"
proof -
  let ?miss = "\<lambda>j :: u32. ts_received st ! unat (s * meta_section_block_count (ts_meta st) + j) = 0"
  from missing_bitmap_run [OF assms(3)] assms(1) have len: "length bm = bitmap_size_for_blocks n"
    and test: "\<And>j. unat j < 8 * length bm \<Longrightarrow> bitmap_test bm j = Inr (j < n \<and> ?miss j)"
    and c: "c = of_nat (length (filter ?miss (local_blocks n)))" by auto
  have "\<forall>l \<in> set (local_blocks n). bitmap_test bm l = Inr (?miss l)"
    using test local_blocks_fit [of n] len by (auto simp: list_all_iff set_local_blocks)
  from counted_bits [OF this, of 0] c
  have "foldE (\<lambda>l counted. bindE (bitmap_test bm l) (\<lambda>b. Inr (if b then counted + 1 else counted)))
    (local_blocks n) 0 = Inr c" by simp
  moreover have "n mod 8 = 0 \<or> last bm AND ucast (push_bit (unat (n mod 8)) (0xff :: u32)) = 0"
    using unused_bits [OF len] test by auto
  ultimately show ?thesis using assms(2,4-6) len by (auto simp: validate_missing_bitmap_def Let_def)
qed

section \<open>A report\<close>

text \<open>The receiver's transfer is the one the proxy delivers.\<close>

definition announced :: "delivery \<Rightarrow> MetaPacket \<Rightarrow> bool" where
  "announced d meta \<longleftrightarrow> hdr_transfer_id (meta_common meta) = dl_transfer_id d \<and> meta_file_size meta = dl_file_size d
     \<and> meta_total_blocks meta = dl_total_blocks d \<and> meta_section_block_count meta = dl_section_block_limit d"

definition lacks :: "transfer_state \<Rightarrow> u32 \<Rightarrow> bool" where
  "lacks st b \<longleftrightarrow> ts_received st ! unat b = 0"

lemma reported_section:
  assumes "announced d (ts_meta st)" and "section_first_block s (dl_section_block_limit d) = Inr first"
    and "section_block_count (dl_total_blocks d) s (dl_section_block_limit d) = Inr n"
    and "l < n" and "lacks st (first + l)"
  shows "\<exists>bm c. make_missing_bitmap st s = Inr (bm, c) \<and> c \<noteq> 0
    \<and> (\<forall>l < n. bitmap_test bm l = Inr (lacks st (first + l)))"
proof -
  let ?first = "s * meta_section_block_count (ts_meta st)"
  have count: "section_block_count (meta_total_blocks (ts_meta st)) s (meta_section_block_count (ts_meta st)) = Inr n"
    using assms(1,3) by (simp add: announced_def)
  from section_block_count_Inr [OF count] assms(1,2) have first: "first = ?first" by (auto simp: announced_def)
  let ?miss = "\<lambda>j :: u32. ts_received st ! unat (?first + j) = 0"
  from missing_bitmap_run [OF count] obtain bm c where run: "make_missing_bitmap st s = Inr (bm, c)"
    and len: "length bm = bitmap_size_for_blocks n"
    and test: "\<And>j. unat j < 8 * length bm \<Longrightarrow> bitmap_test bm j = Inr (j < n \<and> ?miss j)"
    and c: "c = of_nat (length (filter ?miss (local_blocks n)))" by auto
  have "l \<in> set (filter ?miss (local_blocks n))" using assms(4,5) by (simp add: set_local_blocks lacks_def first)
  then have "0 < length (filter ?miss (local_blocks n))" by (rule length_pos_if_in_set)
  moreover have "length (filter ?miss (local_blocks n)) \<le> unat n"
    using length_filter_le [of ?miss "local_blocks n"] by (simp add: length_local_blocks)
  ultimately have "unat c \<noteq> 0" using unat_u32_less [of n] by (simp add: c unat_of_nat_u32)
  then have "c \<noteq> 0" by auto
  moreover have "bitmap_test bm l = Inr (lacks st (first + l))" if "l < n" for l
    using test [of l] local_blocks_fit [of n] that len by (auto simp: list_all_iff set_local_blocks lacks_def first)
  ultimately show ?thesis using run by blast
qed

lemma send_control_Inr:
  assumes "send_control f r = (Inr (), r')"
  shows "\<exists>frame. f = Inr frame \<and> h_frames r' = h_frames r @ [(rx_control_fd r, frame)]"
proof -
  from assms obtain frame where f: "f = Inr frame" "send_frame (rx_control_fd r) frame r = (Inr (), r')"
    by (auto simp: send_control_def eff_Inr)
  with send_frame_cases [of "rx_control_fd r" frame r] show ?thesis by auto
qed

lemma missing_reported:
  assumes "rx_transfer r = Some st" and "ts_active_section_id st = Some s"
    and "make_missing_bitmap st s = Inr (bm, c)" and "c \<noteq> 0"
    and "finish_drain_and_report sha k r = (Inr (), r')"
  shows "\<exists>frame. encode_section_status \<lparr>ss_transfer_id = transfer_id_of st, ss_section_id = s, ss_round_id = k,
      ss_status = SS_Missing, ss_missing_count = c, ss_missing_bitmap = bm\<rparr> = Inr frame
    \<and> h_frames r' = h_frames r @ [(rx_control_fd r, frame)]"
proof -
  from assms have "bindS (send_section_status s k SS_Missing c bm) (\<lambda>_.
      set_ts (\<lambda>st. st\<lparr>ts_last_reported_round := Some k\<rparr>)) r = (Inr (), r')"
    by (simp add: finish_drain_and_report_def bindS_get_ts bindS_liftE)
  then obtain u where "send_section_status s k SS_Missing c bm r = (Inr (), u)" "h_frames r' = h_frames u"
    by (auto simp: set_ts_def eff_Inr)
  then show ?thesis
    using assms(1) by (auto simp: send_section_status_def get_ts_def eff_Inr dest: send_control_Inr)
qed

text \<open>C7: What a receiver reports is what the proxy plans with. When a receiver that misses blocks of
  the active Section drains the round and its report is sent, the proxy that reads that frame
  accepts its bitmap, and then holds a block of the Section for missing at this receiver exactly
  when the receiver has not received it.\<close>

theorem report_reaches_proxy:
  assumes "rx_transfer r = Some st" and "ts_active_section_id st = Some s" and "announced d (ts_meta st)"
    and "section_first_block s (dl_section_block_limit d) = Inr first"
    and "section_block_count (dl_total_blocks d) s (dl_section_block_limit d) = Inr n"
    and "l < n" and "lacks st (first + l)" and "finish_drain_and_report sha k r = (Inr (), r')"
    and "i < length (px_receivers p)" and "participates (px_receivers p ! i)"
  shows "\<exists>frame p'. h_frames r' = h_frames r @ [(rx_control_fd r, frame)]
    \<and> handle_control_frame i frame (dl_transfer_id d) s k (dl_file_size d) n (dl_digest d) p = (Inr (), p')
    \<and> (\<forall>l < n. misses (px_receivers p' ! i) l = lacks st (first + l))"
proof -
  from reported_section [OF assms(3-7)] obtain bm c where made: "make_missing_bitmap st s = Inr (bm, c)" "c \<noteq> 0"
    and test: "\<forall>l < n. bitmap_test bm l = Inr (lacks st (first + l))" by blast
  let ?status = "\<lparr>ss_transfer_id = transfer_id_of st, ss_section_id = s, ss_round_id = k,
      ss_status = SS_Missing, ss_missing_count = c, ss_missing_bitmap = bm\<rparr>"
  from missing_reported [OF assms(1,2) made assms(8)] obtain frame where
    enc: "encode_section_status ?status = Inr frame" and sent: "h_frames r' = h_frames r @ [(rx_control_fd r, frame)]" by blast
  have short: "length (ss_missing_bitmap ?status) < 4294967296"
    using enc by (auto simp: encode_section_status_def split: if_splits)
  note frame = section_status_msg.peek_enc [OF short enc] section_status_msg.dec_enc [OF short enc]
  have count: "section_block_count (meta_total_blocks (ts_meta st)) s (meta_section_block_count (ts_meta st)) = Inr n"
    using assms(3,5) by (simp add: announced_def)
  have valid: "validate_missing_bitmap ?status n = Inr True"
    by (rule missing_bitmap_valid [OF made count]) simp_all
  let ?p' = "p\<lparr>px_receivers := (px_receivers p)[i := (px_receivers p ! i)\<lparr>rv_status := Some ?status, rv_status_received := True\<rparr>]\<rparr>"
  have "handle_control_frame i frame (dl_transfer_id d) s k (dl_file_size d) n (dl_digest d) p = (Inr (), ?p')"
    using frame valid assms(3)
    by (simp add: handle_control_frame_def handle_section_status_def set_rv_def eff_run announced_def transfer_id_of_def)
  moreover have "misses (px_receivers ?p' ! i) l = lacks st (first + l)" if "l < n" for l
    using assms(9,10) test that by (simp add: misses_def missing_in_def participates_def)
  ultimately show ?thesis using sent by blast
qed

section \<open>Packets of the round at a receiver\<close>

lemma section_block_id:
  assumes "section_first_block s limit = Inr first" and "section_block_count tot s limit = Inr n" and "l < n"
    and "unat s < sections (unat tot) (unat limit)"
  shows "section_id_for_block (first + l) limit = Inr s"
proof (rule blocks_of_section_id [OF _ assms(4)])
  show "limit \<noteq> 0" using section_block_count_Inr [OF assms(2)] by blast
  show "first + l \<in> set (blocks_of_section tot limit s)"
    using assms(1-3) by (simp add: blocks_of_section_def set_local_blocks)
qed

lemma data_for_offers:
  assumes "data_for d F s b packet" and "announced d meta" and "sane_meta meta" and "b < dl_total_blocks d"
    and "section_id_for_block b (dl_section_block_limit d) = Inr s" and "length F = unat (dl_file_size d)"
  shows "offers meta packet b"
proof -
  from assms(1) obtain v where v: "decode_data packet = Inr v" "hdr_transfer_id (dp_common v) = dl_transfer_id d"
    "dp_section_id v = s" "dp_block_id v = b" "dp_offset v = block_offset b"
    "dp_payload v = block_bytes F (unat b)" "dp_crc32 v = crc32 (dp_payload v)"
    by (auto simp: data_for_def)
  have b: "b < meta_total_blocks meta" using assms(2,4) by (simp add: announced_def)
  have "unat (dp_payload_size v) = min kPayloadSize (unat (meta_file_size meta) - unat b * kPayloadSize)"
    using decode_data_layout(2) [OF v(1)] assms(2,6) v(6) by (simp add: length_block_bytes announced_def)
  then have "payload_fits meta b (dp_offset v) (dp_payload_size v)"
    by (simp add: payload_fits_iff [OF assms(3) b] v(5) unat_block_offset)
  moreover have "take (unat (dp_payload_size v)) (dp_payload v) = dp_payload v"
    using decode_data_layout(2) [OF v(1)] by simp
  ultimately show ?thesis
    using v assms(2,5) b by (simp add: offers_def announced_def)
qed

section \<open>A peer's answer\<close>

text \<open>A receiver in the transfer, on a machine where no call fails, whose stored blocks are those of
  the file.\<close>

definition takes_part :: "delivery \<Rightarrow> bytes \<Rightarrow> transfer_state \<Rightarrow> receiver \<Rightarrow> bool" where
  "takes_part d F st r \<longleftrightarrow> rx_transfer r = Some st \<and> receiving (ts_meta st) {} r \<and> stored F r \<and> announced d (ts_meta st)"

lemma takes_part_packets [simp]: "takes_part d F st (r\<lparr>h_packets := packets\<rparr>) = takes_part d F st r"
  by (cases "rx_transfer r") (simp_all add: takes_part_def receiving_def stored_def)

lemma takes_partD:
  assumes "takes_part d F st r"
  shows "rx_transfer r = Some st" "h_events r = []" "ts_output_open st" "\<not> ts_awaiting_complete_ack st"
    "\<not> ts_final_sha_failed st" "announced d (ts_meta st)" "sane_meta (ts_meta st)" "stores F (h_files r) st"
    "length (ts_received st) = unat (dl_total_blocks d)"
  using assms by (auto simp: takes_part_def receiving_def stored_def announced_def)

lemma read_block_calm:
  assumes "exact_blocks file_size total_blocks" and "b < total_blocks" and "unat file_size = length content"
  shows "read_block content path file_size b [] = (Inr (block_bytes content (unat b), block_offset b), [])"
proof -
  note wanted = wanted_in_file [OF assms(1,2)]
  have "unat b * kPayloadSize < unat file_size" by (rule block_inside [OF assms(1,2)])
  then show ?thesis
    by (simp add: read_block_def Let_def wanted unat_block_offset assms(3) block_bytes_def min_def)
qed

lemma peer_block_run:
  assumes "takes_part d F st g" and "dl_section_block_limit d \<noteq> 0" and "pt_transfer_id task = dl_transfer_id d"
  shows "\<exists>packets. peer_repair_block task b g = (Inr (), g\<lparr>h_packets := h_packets g @ packets\<rparr>)
    \<and> (b < dl_total_blocks d \<longrightarrow> \<not> lacks st b \<longrightarrow> section_id_for_block b (dl_section_block_limit d) = Inr (pt_section_id task)
       \<longrightarrow> (\<exists>packet. ((pt_target_ipv4 task, pt_target_port task), packet) \<in> set packets
            \<and> data_for d F (pt_section_id task) b packet))"
proof -
  note g = takes_partD [OF assms(1)]
  have same: "g\<lparr>h_packets := h_packets g\<rparr> = g" by (cases g) simp
  obtain sid where sid: "section_id_for_block b (dl_section_block_limit d) = Inr sid"
    using assms(2) by (simp add: section_defs)
  show ?thesis
  proof (cases "b < dl_total_blocks d \<and> \<not> lacks st b \<and> sid = pt_section_id task")
    case False
    then have "peer_repair_block task b g = (Inr (), g)"
      using g(1,6) sid by (auto simp: peer_repair_block_def eff_step returnS_run announced_def lacks_def)
    then show ?thesis using False sid same by (intro exI [of _ "[]"]) auto
  next
    case True
    let ?meta = "ts_meta st"
    have exact: "exact_blocks (meta_file_size ?meta) (meta_total_blocks ?meta)"
      using g(7) by (simp add: sane_meta_def exact_blocks_def)
    have b: "b < meta_total_blocks ?meta" using True g(6) by (simp add: announced_def)
    from g(8) obtain content where content: "h_files g (c_str (ts_temporary_path st)) = Some content"
      "unat (meta_file_size ?meta) = length content" "block_bytes content (unat b) = block_bytes F (unat b)"
      using True g(9) by (auto simp: stores_def lacks_def word_less_nat_alt)
    let ?payload = "block_bytes F (unat b)"
    have read: "read_block content (ts_temporary_path st) (meta_file_size ?meta) b [] = (Inr (?payload, block_offset b), [])"
      using read_block_calm [OF exact b content(2)] content(3) by simp
    have quiet: "g\<lparr>h_events := []\<rparr> = g" using g(2) by (cases g) simp
    have "output_read_block b g = (Inr (?payload, block_offset b), g)"
      using g(1-3) content(1) read
      by (simp add: output_read_block_def eff_step read_block_of_def file_content_def content_or_empty_def quiet)
    moreover have small: "length ?payload \<le> kPayloadSize" by (simp add: length_block_bytes)
    then obtain packet where enc: "encode_data (dl_transfer_id d) sid b (block_offset b) ?payload
        (of_nat (length ?payload)) (crc32 ?payload) = Inr packet"
      by (simp add: encode_data_def kPayloadSize_def unat_of_nat_u16)
    moreover have "send_peer_udp_packet target packet g
        = (Inr True, g\<lparr>h_packets := h_packets g @ [(target, packet)]\<rparr>)" for target
      by (simp add: send_peer_udp_packet_def g(2) quiet)
    ultimately have "peer_repair_block task b g
        = (Inr (), g\<lparr>h_packets := h_packets g @ [((pt_target_ipv4 task, pt_target_port task), packet)]\<rparr>)"
      using g(1,6) True sid assms(3)
      by (simp add: peer_repair_block_def eff_step returnS_run announced_def lacks_def not_le [symmetric])
    moreover have "data_for d F sid b packet"
    proof -
      have "length ?payload = unat (of_nat (length ?payload) :: u16)"
        using small by (simp add: unat_of_nat_u16 kPayloadSize_def)
      from decode_encode_data [OF enc this] show ?thesis by (simp add: data_for_def)
    qed
    ultimately show ?thesis using True
      by (intro exI [of _ "[((pt_target_ipv4 task, pt_target_port task), packet)]"]) auto
  qed
qed

lemma peer_blocks_run:
  assumes "takes_part d F st g" and "dl_section_block_limit d \<noteq> 0" and "pt_transfer_id task = dl_transfer_id d"
  shows "\<exists>packets. forS bs (peer_repair_block task) g = (Inr (), g\<lparr>h_packets := h_packets g @ packets\<rparr>)
    \<and> (\<forall>b \<in> set bs. b < dl_total_blocks d \<longrightarrow> \<not> lacks st b
       \<longrightarrow> section_id_for_block b (dl_section_block_limit d) = Inr (pt_section_id task)
       \<longrightarrow> (\<exists>packet. ((pt_target_ipv4 task, pt_target_port task), packet) \<in> set packets
            \<and> data_for d F (pt_section_id task) b packet))"
  using assms(1)
proof (induction bs arbitrary: g)
  case Nil
  then show ?case by (intro exI [of _ "[]"]) (cases g, simp add: returnS_run)
next
  case (Cons b bs)
  from peer_block_run [OF Cons.prems assms(2,3), of b] obtain packets where
    one: "peer_repair_block task b g = (Inr (), g\<lparr>h_packets := h_packets g @ packets\<rparr>)"
      "b < dl_total_blocks d \<longrightarrow> \<not> lacks st b \<longrightarrow> section_id_for_block b (dl_section_block_limit d) = Inr (pt_section_id task)
       \<longrightarrow> (\<exists>packet. ((pt_target_ipv4 task, pt_target_port task), packet) \<in> set packets
            \<and> data_for d F (pt_section_id task) b packet)" by blast
  let ?g = "g\<lparr>h_packets := h_packets g @ packets\<rparr>"
  have "takes_part d F st ?g" using Cons.prems by simp
  from Cons.IH [OF this] obtain later where
    rest: "forS bs (peer_repair_block task) ?g = (Inr (), ?g\<lparr>h_packets := h_packets ?g @ later\<rparr>)"
      "\<forall>b \<in> set bs. b < dl_total_blocks d \<longrightarrow> \<not> lacks st b
       \<longrightarrow> section_id_for_block b (dl_section_block_limit d) = Inr (pt_section_id task)
       \<longrightarrow> (\<exists>packet. ((pt_target_ipv4 task, pt_target_port task), packet) \<in> set later
            \<and> data_for d F (pt_section_id task) b packet)" by blast
  show ?case
    by (rule exI [of _ "packets @ later"]) (use one rest in \<open>auto simp: eff_step\<close>)
qed

lemma peer_task_answered:
  assumes "takes_part d F st g" and "decode_peer_repair_task frame = Inr task"
    and "pt_transfer_id task = dl_transfer_id d" and "pt_target_port task \<noteq> 0"
    and "section_block_count (dl_total_blocks d) (pt_section_id task) (dl_section_block_limit d) = Inr n"
    and "b \<in> set (pt_block_ids task)" and "b < dl_total_blocks d" and "\<not> lacks st b"
    and "section_id_for_block b (dl_section_block_limit d) = Inr (pt_section_id task)"
  shows "\<exists>packet. ((pt_target_ipv4 task, pt_target_port task), packet) \<in> set (h_packets (snd (handle_control_message sha frame g)))
    \<and> data_for d F (pt_section_id task) b packet"
proof -
  note g = takes_partD [OF assms(1)]
  have limit: "dl_section_block_limit d \<noteq> 0" using section_block_count_Inr [OF assms(5)] by blast
  have "handle_control_message sha frame g = handle_peer_repair_task task g"
    using peer_repair_task.dec_tag [OF assms(2)] assms(2) by (simp add: handle_control_message_def eff_step)
  also have "\<dots> = forS (pt_block_ids task) (peer_repair_block task) g"
    using g(1,4-6) assms(3-5)
    by (simp add: handle_peer_repair_task_def for_active_def execute_peer_repair_task_def eff_step
        announced_def transfer_id_of_def)
  finally have run: "handle_control_message sha frame g = forS (pt_block_ids task) (peer_repair_block task) g" .
  from peer_blocks_run [OF assms(1) limit assms(3), of "pt_block_ids task"] assms(6-9) obtain packets packet where
    "forS (pt_block_ids task) (peer_repair_block task) g = (Inr (), g\<lparr>h_packets := h_packets g @ packets\<rparr>)"
    "((pt_target_ipv4 task, pt_target_port task), packet) \<in> set packets" "data_for d F (pt_section_id task) b packet"
    by blast
  then show ?thesis by (auto simp: run)
qed

section \<open>A round from report to repair\<close>

text \<open>The network loses nothing of this round that is meant for receiver \<open>t\<close>: neither the packets of
  the proxy nor those a receiver sends when it handles a frame of the proxy. \<open>peers j frame\<close> is the
  state in which receiver \<open>j\<close> does so; it has the blocks that its last report did not name.\<close>

definition round_arrives :: "(bytes \<Rightarrow> bytes) \<Rightarrow> delivery \<Rightarrow> nat \<Rightarrow> (nat \<Rightarrow> bytes \<Rightarrow> receiver) \<Rightarrow> proxy \<Rightarrow> proxy \<Rightarrow> bytes list \<Rightarrow> bool" where
  "round_arrives sha d t peers p q packets \<longleftrightarrow>
     (\<forall>destination packet. (destination, packet) \<in> set (new_packets p q) \<longrightarrow>
        destination = dl_multicast_destination d \<or> destination = rv_peer_destination (px_receivers p ! t) \<longrightarrow>
        packet \<in> set packets)
     \<and> (\<forall>j < length (px_receivers p). \<forall>frame. (rv_control_fd (px_receivers p ! j), frame) \<in> set (new_frames p q) \<longrightarrow>
          (\<forall>packet. (rv_peer_destination (px_receivers p ! t), packet)
              \<in> set (h_packets (snd (handle_control_message sha frame (peers j frame)))) \<longrightarrow> packet \<in> set packets))"

definition peers_hold :: "delivery \<Rightarrow> bytes \<Rightarrow> u32 \<Rightarrow> u32 \<Rightarrow> (nat \<Rightarrow> bytes \<Rightarrow> receiver) \<Rightarrow> proxy \<Rightarrow> bool" where
  "peers_hold d F s k peers p \<longleftrightarrow> (\<forall>j < length (px_receivers p). \<forall>frame. \<exists>st. takes_part d F st (peers j frame)
     \<and> (\<forall>l first n. section_first_block s (dl_section_block_limit d) = Inr first \<longrightarrow>
          section_block_count (dl_total_blocks d) s (dl_section_block_limit d) = Inr n \<longrightarrow> l < n \<longrightarrow>
          source_has_block d s k (px_receivers p ! j) l = Inr True \<longrightarrow> \<not> lacks st (first + l)))"

lemma missing_block_arrives:
  assumes "block_sent d F s (first + l) t p q \<or> peer_asked d s k first l t p q"
    and "round_arrives sha d t peers p q packets" and "peers_hold d F s k peers p"
    and "snd (rv_peer_destination (px_receivers p ! t)) \<noteq> 0"
    and "section_first_block s (dl_section_block_limit d) = Inr first"
    and "section_block_count (dl_total_blocks d) s (dl_section_block_limit d) = Inr n"
    and "l < n" and "unat s < sections (unat (dl_total_blocks d)) (unat (dl_section_block_limit d))"
  shows "\<exists>packet \<in> set packets. data_for d F s (first + l) packet"
  using assms(1)
proof
  assume "block_sent d F s (first + l) t p q"
  with assms(2) show ?thesis by (auto simp: block_sent_def round_arrives_def)
next
  assume "peer_asked d s k first l t p q"
  then obtain j frame task where j: "j < length (px_receivers p)"
    "source_has_block d s k (px_receivers p ! j) l = Inr True"
    "(rv_control_fd (px_receivers p ! j), frame) \<in> set (new_frames p q)"
    and task: "decode_peer_repair_task frame = Inr task" "pt_transfer_id task = dl_transfer_id d"
      "pt_section_id task = s" "(pt_target_ipv4 task, pt_target_port task) = rv_peer_destination (px_receivers p ! t)"
      "first + l \<in> set (pt_block_ids task)"
    by (auto simp: peer_asked_def)
  from assms(3,5-7) j(1,2) obtain st where st: "takes_part d F st (peers j frame)" "\<not> lacks st (first + l)"
    unfolding peers_hold_def by blast
  have port: "pt_target_port task \<noteq> 0" using assms(4) task(4) [symmetric] by simp
  have "\<exists>packet. ((pt_target_ipv4 task, pt_target_port task), packet)
        \<in> set (h_packets (snd (handle_control_message sha frame (peers j frame))))
      \<and> data_for d F (pt_section_id task) (first + l) packet"
    using task(3,5) st(2) assms(6) block_of_section [OF assms(5-7)] section_block_id [OF assms(5-8)]
    by (intro peer_task_answered [OF st(1) task(1,2) port, of n]) simp_all
  with assms(2) j(1,3) task(3,4) show ?thesis unfolding round_arrives_def by auto
qed


section \<open>The exchange in the example\<close>

definition example_late :: receiver where
  "example_late = example_receiver\<lparr>rx_transfer := Some (example_transfer\<lparr>ts_active_section_id := Some 0\<rparr>)\<rparr>"

lemma example_announced: "announced repair_delivery example_meta"
  by (simp add: announced_def repair_delivery_def)

lemma example_report_run:
  "\<exists>r'. finish_drain_and_report example_sha 0 example_late = (Inr (), r')"
proof -
  let ?st = "example_transfer\<lparr>ts_active_section_id := Some 0\<rparr>"
  have made: "make_missing_bitmap ?st 0 = Inr ([1], 1)"
    by (simp add: make_missing_bitmap_def bitmap_size_for_blocks_def bitmap_set_def)
  let ?m = "\<lparr>ss_transfer_id = 7, ss_section_id = 0, ss_round_id = 0, ss_status = SS_Missing,
      ss_missing_count = 1, ss_missing_bitmap = [1]\<rparr>"
  obtain frame where f: "encode_section_status ?m = Inr frame" "valid_frame frame"
    by (simp add: encode_section_status_def valid_frame_def wire_length kMaxControlFrameSize_def
        flip: length_greater_0_conv)
  then show ?thesis
    using made
    by (simp add: finish_drain_and_report_def send_section_status_def send_control_def example_late_def eff_step
        eff_run transfer_id_of_def send_frame_no_events)
qed

theorem report_reaches_proxy_witness:
  "\<exists>r' frame p'. finish_drain_and_report example_sha 0 example_late = (Inr (), r')
    \<and> h_frames r' = h_frames example_late @ [(rx_control_fd example_late, frame)]
    \<and> handle_control_frame 1 frame 7 0 0 3 1 [] example_repair = (Inr (), p')
    \<and> misses (px_receivers p' ! 1) 0"
proof -
  obtain r' where run: "finish_drain_and_report example_sha 0 example_late = (Inr (), r')"
    using example_report_run by blast
  have "lacks (example_transfer\<lparr>ts_active_section_id := Some 0\<rparr>) 0" by (simp add: lacks_def)
  moreover have "rx_transfer example_late = Some (example_transfer\<lparr>ts_active_section_id := Some 0\<rparr>)"
    by (simp add: example_late_def)
  ultimately show ?thesis
    using report_reaches_proxy [of example_late "example_transfer\<lparr>ts_active_section_id := Some 0\<rparr>" 0 repair_delivery 0 1 0
        example_sha 0 r' 1 example_repair] run example_announced
    by (auto simp: participates_def repair_delivery_def)
qed

lemma example_done_packets:
  "h_packets (snd (handle_control_message example_sha (encode_repair_begin m) example_done)) = []"
  "h_packets (snd (handle_control_message example_sha (encode_section_end m') example_done)) = []"
proof -
  show "h_packets (snd (handle_control_message example_sha (encode_repair_begin m) example_done)) = []"
    using repair_begin.peek_enc [OF TrueI refl, of m] repair_begin.dec_enc [OF TrueI refl, of m]
    by (simp add: handle_control_message_def eff_step returnS_run example_done_def example_receiver_def)
  show "h_packets (snd (handle_control_message example_sha (encode_section_end m') example_done)) = []"
    using section_end.peek_enc [OF TrueI refl, of m'] section_end.dec_enc [OF TrueI refl, of m']
    by (simp add: handle_control_message_def handle_section_end_def for_active_def begin_drain_for_round_def
        arm_drain_timer_def arm_timer_after_def reject_def syscall_def eff_run example_defs)
qed

lemma example_takes_part:
  "takes_part repair_delivery [1, 2, 3] example_transfer example_receiver"
  "takes_part repair_delivery [1, 2, 3] (example_transfer\<lparr>ts_received := [1], ts_received_count := 1\<rparr>) example_done"
  using example_stored
  by (simp_all add: takes_part_def receiving_def example_announced example_done_def stored_def example_sane stores_def
      wf_transfer_def count_flags_def example_file_def)


end
