(* ===== verification/Receiver_Loop.thy ===== *)
theory Receiver_Loop
  imports Receiver_Examples
begin

text \<open>
  The event loop of the receiver (the end of \<open>main\<close> in \<open>src/receiver.cpp\<close>): what \<open>epoll_wait\<close>
  reports is sorted by descriptor, then the ready descriptors are served in the order multicast
  socket, peer socket, drain timer, control connection, with a reconnection where the code has one.

  The state is the receiver together with its \<open>ControlStreamReader\<close>. The inputs of one turn are in
  \<open>turn\<close>: how long the wait took and what it reported, the outcomes of the calls made during the
  turn, what the sockets hold, and the connection attempts of a reconnection. The loop ends when a
  SESSION_END was handled, with an exception, or with its inputs.
\<close>

section \<open>Sorting what is ready\<close>

record epoll_event =
  ev_fd :: int
  ev_in :: bool
  ev_err :: bool
  ev_hup :: bool
  ev_rdhup :: bool

record loop_fds =
  lf_udp :: int
  lf_peer :: int
  lf_timer :: int

record ready_set =
  rd_udp :: bool
  rd_peer :: bool
  rd_timer :: bool
  rd_control :: bool
  rd_disconnected :: bool

definition nothing_ready :: ready_set where
  "nothing_ready = \<lparr>rd_udp = False, rd_peer = False, rd_timer = False, rd_control = False, rd_disconnected = False\<rparr>"

text \<open>The second test for \<open>EPOLLHUP\<close> in the code is never reached with the flag set.\<close>

definition classify_event :: "loop_fds \<Rightarrow> int \<Rightarrow> epoll_event \<Rightarrow> ready_set \<Rightarrow> ready_set result" where
  "classify_event fds control_fd ev rd =
     (if ev_fd ev = control_fd \<and> (ev_err ev \<or> ev_hup ev \<or> ev_rdhup ev)
      then Inr (rd\<lparr>rd_disconnected := True, rd_control := rd_control rd \<or> ev_in ev\<rparr>)
      else if ev_err ev \<or> ev_hup ev then throw ''epoll descriptor error''
      else if \<not> ev_in ev then Inr rd
      else if ev_fd ev = lf_udp fds then Inr (rd\<lparr>rd_udp := True\<rparr>)
      else if ev_fd ev = lf_peer fds then Inr (rd\<lparr>rd_peer := True\<rparr>)
      else if ev_fd ev = lf_timer fds then Inr (rd\<lparr>rd_timer := True\<rparr>)
      else if ev_fd ev = control_fd then Inr (rd\<lparr>rd_control := True\<rparr>)
      else throw ''unknown descriptor returned by epoll'')"

section \<open>One turn\<close>

datatype wait_outcome = Wait_fails errno | Wait_events "epoll_event list"

record turn =
  tn_elapsed :: nat
  tn_calls :: "io_event list"
  tn_wait :: wait_outcome
  tn_udp :: "recv_outcome list"
  tn_peer :: "recv_outcome list"
  tn_control :: in_socket
  tn_attempts :: "int option list"

text \<open>What stays the same while the process runs: the descriptors, and the ports it registers with.\<close>

record loop_config = loop_fds +
  lf_udp_port :: u16
  lf_peer_port :: u16

type_synonym loop_state = "control_stream_reader \<times> receiver"
type_synonym 'a loop = "(loop_state, 'a) eff"

definition on_receiver :: "'a rx \<Rightarrow> 'a loop" where
  "on_receiver m = (\<lambda>(c, r). case m r of (x, r') \<Rightarrow> (x, (c, r')))"

definition begin_turn :: "turn \<Rightarrow> unit loop" where
  "begin_turn tn = on_receiver (modifyS (\<lambda>r. r\<lparr>h_clock := h_clock r + tn_elapsed tn, h_events := tn_calls tn\<rparr>))"

definition loop_reconnect :: "loop_config \<Rightarrow> turn \<Rightarrow> unit loop" where
  "loop_reconnect config tn =
     bindS (modifyS (\<lambda>(c, r). (new_control_reader, r))) (\<lambda>_.
     on_receiver (reconnect_proxy (lf_udp_port config) (lf_peer_port config) (tn_attempts tn)))"

text \<open>\<open>control_reader.read_frames\<close>, then the frames it returned.\<close>

definition read_control :: "turn \<Rightarrow> bytes list result loop" where
  "read_control tn = (\<lambda>(c, r). case read_frames c (tn_control tn) of (frames, c', _) \<Rightarrow> (Inr frames, (c', r)))"

definition serve_control :: "(bytes \<Rightarrow> bytes) \<Rightarrow> loop_config \<Rightarrow> turn \<Rightarrow> bool \<Rightarrow> unit loop" where
  "serve_control sha config tn disconnected =
     bindS (read_control tn) (\<lambda>frames.
     bindS (getS (\<lambda>(c, r). csr_peer_closed c)) (\<lambda>peer_closed.
     bindS (on_receiver (on_control_ready sha frames (disconnected \<or> peer_closed))) (\<lambda>reconnect.
     whenS reconnect (loop_reconnect config tn))))"

definition serve_ready :: "(bytes \<Rightarrow> bytes) \<Rightarrow> loop_config \<Rightarrow> turn \<Rightarrow> ready_set \<Rightarrow> unit loop" where
  "serve_ready sha config tn rd =
     (if rd_disconnected rd \<and> \<not> rd_control rd then loop_reconnect config tn
      else
        bindS (whenS (rd_udp rd) (on_receiver (process_udp_ready 0 (tn_udp tn)))) (\<lambda>_.
        bindS (whenS (rd_peer rd) (on_receiver (process_udp_ready 0 (tn_peer tn)))) (\<lambda>_.
        bindS (if rd_timer rd then on_receiver (on_drain_timer sha) else returnS False) (\<lambda>reconnect.
        if reconnect then loop_reconnect config tn
        else whenS (rd_control rd) (serve_control sha config tn (rd_disconnected rd))))))"

definition loop_turn :: "(bytes \<Rightarrow> bytes) \<Rightarrow> loop_config \<Rightarrow> turn \<Rightarrow> unit loop" where
  "loop_turn sha config tn =
     bindS (begin_turn tn) (\<lambda>_.
     (case tn_wait tn of
        Wait_fails e \<Rightarrow> if e = EINTR then returnS () else liftE (system_error ''epoll_wait'' e)
      | Wait_events evs \<Rightarrow>
          bindS (getS (\<lambda>(c, r). rx_control_fd r)) (\<lambda>control_fd.
          bindS (liftE (foldE (classify_event (loop_fds.truncate config) control_fd) evs nothing_ready))
            (serve_ready sha config tn))))"

section \<open>The loop\<close>

datatype loop_end = Session_ended | Inputs_used

definition still_connecting :: error where
  "still_connecting = Runtime_error ''still connecting''"

fun receiver_loop :: "(bytes \<Rightarrow> bytes) \<Rightarrow> loop_config \<Rightarrow> turn list \<Rightarrow> loop_end loop" where
  "receiver_loop sha config turns (c, r) =
     (if rx_stop_requested r then (Inr Session_ended, (c, r))
      else case turns of
          [] \<Rightarrow> (Inr Inputs_used, (c, r))
        | tn # later \<Rightarrow>
            (case loop_turn sha config tn (c, r) of
               (Inl e, s) \<Rightarrow> (if e = still_connecting then Inr Inputs_used else Inl e, s)
             | (Inr _, s) \<Rightarrow> receiver_loop sha config later s))"

declare receiver_loop.simps [simp del]

section \<open>What every turn keeps\<close>

text \<open>The buffer of the reader holds no complete frame: \<open>epoll\<close> would not report it again.\<close>

definition nothing_waiting :: "control_stream_reader \<Rightarrow> bool" where
  "nothing_waiting c \<longleftrightarrow> parse_frames (csr_buffer c) = Inr ([], csr_buffer c)"

lemma nothing_waiting_new: "nothing_waiting new_control_reader"
  by (simp add: nothing_waiting_def new_control_reader_def parse_frames_short)

named_theorems loop_keep "properties of the loop's state that computations keep"

lemma keeps_on_receiver [loop_keep]:
  "keeps P m \<Longrightarrow> keeps (\<lambda>s. P (snd s)) (on_receiver m)"
  "keeps (\<lambda>s. Q (fst s)) (on_receiver m)"
  by (auto simp: keeps_def on_receiver_def split: prod.splits)

lemmas loop_structure [loop_keep] = keeps_pure keeps_bind keeps_when

lemma begin_turn_keeps [loop_keep]: "keeps (\<lambda>s. rx_inv (snd s)) (begin_turn tn)"
  unfolding begin_turn_def by (intro keeps_on_receiver keeps_modify) (simp add: rx_inv_def)

lemma loop_reconnect_keeps [loop_keep]:
  "keeps (\<lambda>s. rx_inv (snd s)) (loop_reconnect config tn)"
  "keeps (\<lambda>s. nothing_waiting (fst s)) (loop_reconnect config tn)"
  unfolding loop_reconnect_def
  by (intro loop_keep keeps_reconnect keeps_modify; auto simp: nothing_waiting_new split: prod.split)+

lemma loop_reconnect_fresh: "nothing_waiting (fst (snd (loop_reconnect config tn s)))"
  by (cases s) (auto simp: loop_reconnect_def eff_run on_receiver_def nothing_waiting_new split: prod.splits)

lemma loop_turn_keeps: "keeps (\<lambda>s. rx_inv (snd s)) (loop_turn sha config tn)"
proof -
  have read: "keeps (\<lambda>s. rx_inv (snd s)) (read_control tn)"
    by (auto simp: keeps_def read_control_def split: prod.split)
  have "keeps (\<lambda>s. rx_inv (snd s)) (serve_ready sha config tn rd)" for rd
    unfolding serve_ready_def serve_control_def
    by (intro keeps_if loop_keep read keeps_process_udp_ready keeps_on_drain_timer keeps_on_control_ready)
  then show ?thesis
    unfolding loop_turn_def by (cases "tn_wait tn") (auto intro!: loop_keep)
qed

lemma serve_control_waiting:
  assumes "nothing_waiting (fst s)"
  shows "nothing_waiting (fst (snd (serve_control sha config tn b s))) \<or> rx_stop_requested (snd (snd (serve_control sha config tn b s)))"
proof -
  obtain c r where s: "s = (c, r)" by (cases s)
  obtain frames c1 incoming evs where read: "read_frames c (tn_control tn) = (frames, c1, incoming, evs)"
    by (metis surj_pair)
  let ?rest = "bindS (on_receiver (on_control_ready sha frames (b \<or> csr_peer_closed c1))) (\<lambda>reconnect.
      whenS reconnect (loop_reconnect config tn))"
  have run: "serve_control sha config tn b s = ?rest (c1, r)"
    by (simp add: serve_control_def read_control_def bindS_run s read eff_run)
  show ?thesis
  proof (cases frames)
    case (Inl e)
    then have "on_control_ready sha frames b' r = (Inr (\<not> rx_stop_requested r), r)" for b'
      by (simp add: on_control_ready_def eff_run)
    then have "?rest (c1, r) = (if rx_stop_requested r then (Inr (), (c1, r)) else loop_reconnect config tn (c1, r))"
      by (simp add: bindS_run on_receiver_def whenS_run)
    then show ?thesis by (simp add: run loop_reconnect_fresh)
  next
    case (Inr fs)
    obtain incoming0 evs0 where "tn_control tn = (incoming0, evs0)" by (cases "tn_control tn")
    with read Inr have "nothing_waiting c1" using read_frames_stream [of c incoming0 evs0 fs c1 incoming evs]
      by (simp add: nothing_waiting_def)
    moreover have "keeps (\<lambda>s. nothing_waiting (fst s)) ?rest" by (intro loop_keep)
    ultimately have "nothing_waiting (fst (snd (?rest (c1, r))))" using keepsD [of _ ?rest "(c1, r)"] by force
    then show ?thesis unfolding run ..
  qed
qed

lemma loop_turn_waiting:
  assumes "nothing_waiting (fst s)"
  shows "nothing_waiting (fst (snd (loop_turn sha config tn s))) \<or> rx_stop_requested (snd (snd (loop_turn sha config tn s)))"
proof -
  define Q where "Q = (\<lambda>m :: unit loop. \<forall>s. nothing_waiting (fst s) \<longrightarrow>
    nothing_waiting (fst (snd (m s))) \<or> rx_stop_requested (snd (snd (m s))))"
  have Q_keeps: "Q m" if "keeps (\<lambda>s. nothing_waiting (fst s)) m" for m
    using that by (auto simp: Q_def keeps_def)
  have Q_bind: "Q (bindS m f)" if "keeps (\<lambda>s. nothing_waiting (fst s)) m" "\<And>x. Q (f x)" for m :: "'a loop" and f
    using that by (simp add: Q_def keeps_def bindS_run del: split_paired_All split: sum.split)
  have Q_if: "Q (if c then m else n)" if "Q m" "Q n" for c m n using that by simp
  have "Q (serve_control sha config tn b)" for b
    unfolding Q_def by (intro allI impI serve_control_waiting)
  then have control: "Q (whenS a (serve_control sha config tn b))" for a b
    by (cases a) (auto simp: Q_def whenS_def returnS_run)
  have ready: "Q (serve_ready sha config tn rd)" for rd
    unfolding serve_ready_def
    by (intro Q_if Q_bind control Q_keeps [OF loop_reconnect_keeps(2)] keeps_if loop_keep)
  have start: "keeps (\<lambda>s. nothing_waiting (fst s)) (begin_turn tn)"
    unfolding begin_turn_def by (rule keeps_on_receiver(2))
  have "Q (loop_turn sha config tn)"
  proof (cases "tn_wait tn")
    case (Wait_fails e)
    then show ?thesis unfolding loop_turn_def wait_outcome.case by (intro Q_bind start Q_keeps keeps_if loop_keep) simp_all
  next
    case (Wait_events evs)
    then show ?thesis unfolding loop_turn_def wait_outcome.case by simp (intro Q_bind start ready loop_keep)
  qed
  with assms show ?thesis unfolding Q_def by blast
qed

lemma receiver_loop_safe:
  assumes "rx_inv r" and "nothing_waiting c" and "receiver_loop sha config turns (c, r) = (res, c', r')"
  shows "rx_inv r' \<and> (res = Inr Session_ended \<longrightarrow> rx_stop_requested r') \<and> (nothing_waiting c' \<or> rx_stop_requested r')"
  using assms
proof (induction turns arbitrary: c r)
  case Nil
  then show ?case by (auto simp: receiver_loop.simps [of _ _ "[]"] split: if_splits)
next
  case (Cons tn turns)
  show ?case
  proof (cases "rx_stop_requested r")
    case True
    with Cons.prems show ?thesis by (auto simp: receiver_loop.simps [of _ _ "_ # _"])
  next
    case False
    obtain x c1 r1 where one: "loop_turn sha config tn (c, r) = (x, c1, r1)" by (metis surj_pair)
    have inv: "rx_inv r1" using keepsD [OF loop_turn_keeps, of "(c, r)" sha config tn] Cons.prems(1) one by simp
    have wait: "nothing_waiting c1 \<or> rx_stop_requested r1"
      using loop_turn_waiting [of "(c, r)" sha config tn] Cons.prems(2) one by simp
    show ?thesis
    proof (cases x)
      case (Inl e)
      with Cons.prems(3) False one inv wait show ?thesis
        by (auto simp: receiver_loop.simps [of _ _ "_ # _"] split: if_splits)
    next
      case (Inr u)
      with Cons.prems(3) False one have rest: "receiver_loop sha config turns (c1, r1) = (res, c', r')"
        by (simp add: receiver_loop.simps [of _ _ "_ # _"])
      show ?thesis
      proof (cases "rx_stop_requested r1")
        case True
        with rest inv show ?thesis by (auto simp: receiver_loop.simps [of _ _ turns])
      next
        case False
        with wait Cons.IH [OF inv _ rest] show ?thesis by blast
      qed
    qed
  qed
qed


section \<open>The end of a session\<close>

definition control_readable :: "receiver \<Rightarrow> epoll_event" where
  "control_readable r = \<lparr>ev_fd = rx_control_fd r, ev_in = True, ev_err = False, ev_hup = False, ev_rdhup = False\<rparr>"

lemma session_end_stops:
  assumes "tn_wait tn = Wait_events [control_readable r]" and "\<not> rx_stop_requested r"
    and "rx_control_fd r \<notin> {lf_udp config, lf_peer config, lf_timer config}"
    and "read_frames c (tn_control tn) = (Inr [encode_session_end], c', rest)"
  shows "receiver_loop sha config (tn # later) (c, r) = (Inr Session_ended, c',
    r\<lparr>h_clock := h_clock r + tn_elapsed tn, h_events := tn_calls tn, rx_stop_requested := True\<rparr>)"
proof -
  let ?r = "r\<lparr>h_clock := h_clock r + tn_elapsed tn, h_events := tn_calls tn\<rparr>"
  have frame: "handle_control_message sha encode_session_end ?r = (Inr (), ?r\<lparr>rx_stop_requested := True\<rparr>)"
    using session_end.peek_enc [OF TrueI refl] session_end.dec_enc [OF TrueI refl]
    by (simp add: handle_control_message_def eff_step modifyS_run)
  have "loop_turn sha config tn (c, r) = (Inr (), c', ?r\<lparr>rx_stop_requested := True\<rparr>)"
    using assms frame
    by (simp add: loop_turn_def begin_turn_def serve_ready_def serve_control_def read_control_def on_control_ready_def
        on_receiver_def control_readable_def classify_event_def nothing_ready_def loop_fds.truncate_def eff_run)
  then show ?thesis
    using assms(2) by (simp add: receiver_loop.simps [of _ _ "_ # _"] receiver_loop.simps [of _ _ later])
qed

definition example_turn :: turn where
  "example_turn = \<lparr>tn_elapsed = 3, tn_calls = [], tn_wait = Wait_events [control_readable example_receiver],
     tn_udp = [], tn_peer = [], tn_control = (frame_bytes encode_session_end, [Upto 4096, Fails EAGAIN]),
     tn_attempts = []\<rparr>"

definition example_config :: loop_config where
  "example_config = \<lparr>lf_udp = 5, lf_peer = 6, lf_timer = 7, lf_udp_port = 9, lf_peer_port = 10\<rparr>"


end
