(* ===== verification/Programs.thy ===== *)
theory Programs
  imports Options Receiver_Loop Central_Exchange
begin

text \<open>
  The three programs: \<open>main\<close> of \<open>src/receiver.cpp\<close>, \<open>src/sender.cpp\<close> and
  \<open>src/central_sender.cpp\<close>, from the command line to the exit code. The sockets are opened by
  system calls whose outcomes are inputs; usage texts, the lines printed on the console and the pauses between
  files are left out. A program whose inputs are used up is still running;
  an exception that leaves a thread other than \<open>main\<close> aborts it.
\<close>

datatype process_status = Exited int | Aborted | Running

definition asks_help :: "string list \<Rightarrow> bool" where
  "asks_help args \<longleftrightarrow> args = [''--help''] \<or> args = [''-h'']"

section \<open>What the programs have in common\<close>

text \<open>\<open>create_directories\<close> and the test that follows; a call whose result the code ignores.\<close>

definition make_directory :: "(string \<Rightarrow> bool) \<Rightarrow> string \<Rightarrow> string \<Rightarrow> ('a host_scheme, unit) eff" where
  "make_directory is_directory option path =
     bindS (\<lambda>s. case h_events s of
         [] \<Rightarrow> (Inr (), s)
       | Fails e # evs \<Rightarrow> (throw (''create '' @ option @ '' failed: '' @ strerror e), s\<lparr>h_events := evs\<rparr>)
       | Upto k # evs \<Rightarrow> (Inr (), s\<lparr>h_events := evs\<rparr>)) (\<lambda>_.
     if is_directory path then returnS () else throwS (option @ '' is not a directory: '' @ path))"

definition syscall_ignored :: "string \<Rightarrow> ('a host_scheme, unit) eff" where
  "syscall_ignored operation = tryS (syscall operation) (\<lambda>e. returnS ())"

text \<open>\<open>inet_pton\<close> followed by a throw.\<close>

definition address_or_throw :: "string \<Rightarrow> string \<Rightarrow> u32 result" where
  "address_or_throw v message = (case inet_pton (c_str v) of None \<Rightarrow> throw message | Some a \<Rightarrow> Inr a)"

definition multicast_or_throw :: "string \<Rightarrow> string \<Rightarrow> u32 result" where
  "multicast_or_throw v message =
     bindE (address_or_throw v message) (\<lambda>a. if in_multicast a then Inr a else throw message)"

section \<open>The receiver\<close>

definition receiver_sockets :: "receiver_options \<Rightarrow> unit rx" where
  "receiver_sockets opts =
     bindS (liftE (multicast_or_throw (ro_multicast_ip opts) ''group must be an IPv4 multicast address'')) (\<lambda>_.
     bindS (liftE (address_or_throw (ro_interface_ip opts) ''invalid interface IPv4 address'')) (\<lambda>_.
     bindS (syscall ''socket UDP'') (\<lambda>_.
     bindS (syscall ''setsockopt UDP SO_REUSEADDR'') (\<lambda>_.
     bindS (syscall_ignored ''setsockopt UDP SO_RCVBUF'') (\<lambda>_.
     bindS (syscall ''bind UDP'') (\<lambda>_.
     bindS (syscall ''setsockopt IP_ADD_MEMBERSHIP'') (\<lambda>_.
     bindS (syscall ''socket peer UDP'') (\<lambda>_.
     bindS (syscall_ignored ''setsockopt peer UDP SO_RCVBUF'') (\<lambda>_.
     bindS (syscall ''bind peer UDP'') (\<lambda>_.
     bindS (syscall ''getsockname peer UDP'') (\<lambda>_.
     bindS (syscall ''timerfd_create'') (\<lambda>_.
     syscall ''epoll_create1''))))))))))))"

text \<open>The variables of \<open>main\<close> when the loop begins.\<close>

definition receiver_start :: "receiver_options \<Rightarrow> receiver \<Rightarrow> receiver" where
  "receiver_start opts r = r\<lparr>rx_transfer := None, rx_draining := False, rx_draining_round := 0,
     rx_hard_deadline := 0, rx_stop_requested := False, rx_drain_timer := None, rx_control_fd := -1,
     rx_output_directory := ro_output_directory opts, rx_initial_drop_blocks := []\<rparr>"

definition receiver_prepare ::
  "(string \<Rightarrow> bool) \<Rightarrow> u16 \<Rightarrow> int option list \<Rightarrow> receiver_options \<Rightarrow> unit rx" where
  "receiver_prepare is_directory peer_udp_port attempts opts =
     bindS (make_directory is_directory ''--output-dir'' (ro_output_directory opts)) (\<lambda>_.
     bindS (receiver_sockets opts) (\<lambda>_.
     bindS (modifyS (receiver_start opts)) (\<lambda>_.
     bindS (connect_and_register (of_int (ro_udp_port opts)) peer_udp_port attempts) (\<lambda>fd.
     bindS (set_control_fd fd) (\<lambda>_.
     bindS (forS [1..<5] (\<lambda>_. add_epoll_interest)) (\<lambda>_.
     bindS (getS h_getenv) (\<lambda>getenv.
     bindS (liftE (parse_block_set_env getenv ''SRCAST_DROP_INITIAL_BLOCKS'')) (\<lambda>blocks.
     modifyS (\<lambda>r. r\<lparr>rx_initial_drop_blocks := blocks\<rparr>)))))))))"

text \<open>The exit code; an exception is printed and gives 1.\<close>

definition loop_status :: "loop_end result \<Rightarrow> process_status" where
  "loop_status res = (case res of Inl e \<Rightarrow> Exited 1 | Inr Session_ended \<Rightarrow> Exited 0 | Inr Inputs_used \<Rightarrow> Running)"

definition receiver_main ::
  "(bytes \<Rightarrow> bytes) \<Rightarrow> (string \<Rightarrow> bool) \<Rightarrow> loop_fds \<Rightarrow> u16 \<Rightarrow> int option list \<Rightarrow> turn list \<Rightarrow> string list \<Rightarrow> receiver
     \<Rightarrow> process_status \<times> receiver" where
  "receiver_main sha is_directory fds peer_udp_port attempts turns args r =
     (if asks_help args then (Exited 0, r)
      else case receiver_parse_options args of
          Inl e \<Rightarrow> (Exited 1, r)
        | Inr opts \<Rightarrow>
            (case receiver_prepare is_directory peer_udp_port attempts opts r of
               (Inl e, r') \<Rightarrow> (if e = still_connecting then Running else Exited 1, r')
             | (Inr _, r') \<Rightarrow>
                 (case receiver_loop sha (loop_fds.extend fds \<lparr>lf_udp_port = of_int (ro_udp_port opts),
                         lf_peer_port = peer_udp_port\<rparr>) turns (new_control_reader, r') of
                    (res, (_, r'')) \<Rightarrow> (loop_status res, r''))))"

section \<open>The proxy\<close>

text \<open>The sending socket; the result is the multicast destination.\<close>

definition proxy_sockets :: "sender_options \<Rightarrow> endpoint px" where
  "proxy_sockets opts =
     bindS (syscall ''socket UDP'') (\<lambda>_.
     bindS (syscall ''setsockopt IP_MULTICAST_TTL'') (\<lambda>_.
     bindS (syscall ''setsockopt IP_MULTICAST_LOOP'') (\<lambda>_.
     bindS (whenS (so_interface_ip opts \<noteq> ''0.0.0.0'')
       (bindS (liftE (address_or_throw (so_interface_ip opts) ''invalid interface IPv4 address'')) (\<lambda>_.
        syscall ''setsockopt IP_MULTICAST_IF''))) (\<lambda>_.
     liftE (bindE (multicast_or_throw (so_multicast_ip opts) ''destination must be an IPv4 multicast address'')
       (\<lambda>a. Inr (a, of_int (so_udp_port opts))))))))"

definition create_control_listener :: "unit px" where
  "create_control_listener =
     bindS (syscall ''socket TCP listener'') (\<lambda>_.
     bindS (syscall ''setsockopt TCP SO_REUSEADDR'') (\<lambda>_.
     bindS (syscall ''bind TCP listener'') (\<lambda>_.
     syscall ''listen TCP listener'')))"

definition initial_delivery :: "sender_options \<Rightarrow> endpoint \<Rightarrow> delivery" where
  "initial_delivery opts destination = \<lparr>dl_multicast_destination = destination, dl_file_path = [], dl_file_size = 0,
     dl_transfer_id = 0, dl_total_blocks = 0, dl_digest = [], dl_max_repair_rounds = so_max_repair_rounds opts,
     dl_section_block_limit = so_section_block_limit opts, dl_repair_mode = so_repair_mode opts\<rparr>"

text \<open>From the options to the receivers, and the files; true at the end, false where the program still
  waits for receivers or for the central sender.\<close>

definition proxy_prepare :: "(string \<Rightarrow> bool) \<Rightarrow> accepted_receiver result list \<Rightarrow> sender_options \<Rightarrow> delivery px" where
  "proxy_prepare is_directory attempts opts =
     bindS (whenS (so_central_mode opts) (make_directory is_directory ''--cache-dir'' (so_cache_directory opts))) (\<lambda>_.
     bindS (proxy_sockets opts) (\<lambda>destination.
     bindS create_control_listener (\<lambda>_.
     bindS (whenS (so_central_mode opts) create_control_listener) (\<lambda>_.
     bindS (set_receivers (\<lambda>_. [])) (\<lambda>_.
     bindS (accept_receivers (nat (so_receiver_count opts)) attempts) (\<lambda>_.
     returnS (initial_delivery opts destination)))))))"

definition proxy_run ::
  "(bytes \<Rightarrow> bytes) \<Rightarrow> (string \<Rightarrow> bool) \<Rightarrow> accepted_receiver result list \<Rightarrow> (int \<times> bytes result list) list
     \<Rightarrow> sender_options \<Rightarrow> bool px" where
  "proxy_run sha is_directory attempts connections opts =
     bindS (proxy_prepare is_directory attempts opts) (\<lambda>d.
     bindS (getS (\<lambda>p. length (px_receivers p))) (\<lambda>n.
     if n < nat (so_receiver_count opts) then returnS False
     else if so_central_mode opts then serve_central sha d (so_cache_directory opts) connections
     else bindS (send_files sha d (so_files opts)) (\<lambda>_. returnS True)))"

definition proxy_main ::
  "(bytes \<Rightarrow> bytes) \<Rightarrow> (string \<Rightarrow> bool) \<Rightarrow> accepted_receiver result list \<Rightarrow> (int \<times> bytes result list) list
     \<Rightarrow> string list \<Rightarrow> proxy \<Rightarrow> process_status \<times> proxy" where
  "proxy_main sha is_directory attempts connections args p =
     (if asks_help args then (Exited 0, p)
      else case bindS (liftE (sender_parse_options (h_getenv p) args))
                  (proxy_run sha is_directory attempts connections) p of
          (Inl e, q) \<Rightarrow> (Exited 1, q)
        | (Inr done, q) \<Rightarrow> (if done then Exited 0 else Running, q))"

section \<open>The central sender\<close>

text \<open>One thread per proxy, each with its own session; they share only the options. \<open>states\<close> are the
  sessions of the endpoints before the threads start, and \<open>n\<close> bounds the passes of each.\<close>

definition session_start :: "central \<Rightarrow> central" where
  "session_start s = s\<lparr>cn_fd := -1, cn_stopped := False\<rparr>"

definition central_sessions :: "(bytes \<Rightarrow> bytes) \<Rightarrow> nat \<Rightarrow> central_options \<Rightarrow> central list \<Rightarrow> (bool result \<times> central) list" where
  "central_sessions sha n opts states =
     map (\<lambda>(endpoint, s). run_proxy_session sha (co_section_blocks opts) n (co_files opts) (session_start s))
       (zip (co_endpoints opts) states)"

definition central_main ::
  "(bytes \<Rightarrow> bytes) \<Rightarrow> environment \<Rightarrow> nat \<Rightarrow> string list \<Rightarrow> central list \<Rightarrow> process_status \<times> central list" where
  "central_main sha getenv n args states =
     (if asks_help args then (Exited 0, states)
      else case central_parse_options getenv args of
          Inl e \<Rightarrow> (Exited 1, states)
        | Inr opts \<Rightarrow>
            (let sessions = central_sessions sha n opts states in
             (if list_ex (\<lambda>s. \<not> is_ok (fst s)) sessions then Aborted
              else if list_all (\<lambda>s. fst s = Inr True) sessions then Exited 0 else Running, map snd sessions)))"

section \<open>The central sender ends\<close>

lemma in_zip_map:
  assumes "x \<in> set (map (\<lambda>(a, b). f b) (zip xs ys))"
  obtains b where "b \<in> set ys" and "x = f b"
  using assms by (auto dest: set_zip_rightD)


text \<open>One proxy that accepts the first connection.\<close>

definition example_arguments :: "string list" where
  "example_arguments = [''--proxy'', ipv4_address_string 0x0A000001, number_text 7000, ''--file'', ''a'']"

definition example_sessions :: "central list" where
  "example_sessions = [example_central\<lparr>cn_connects := [Inr (5, cn_incoming example_central)]\<rparr>]"

lemma example_arguments_parsed: "\<exists>opts. central_parse_options (\<lambda>_. None) example_arguments = Inr opts \<and> co_files opts = [''a'']"
  using number_texts(1) [of 7000 "''--proxy port''"]
  by (simp add: central_parse_options_def example_environment(1) example_arguments_def flag_mode_def add_endpoint_def
      parse_ipv4_string)


end
