(* ===== verification/Fixed_Receivers.thy ===== *)
theory Fixed_Receivers
  imports Programs
begin

text \<open>
  The proxy serves a fixed set of receivers: the endpoints that register at the start
  (\<open>accept_receivers\<close> of \<open>src/sender.cpp\<close>) are distinct and as many as asked for, and neither a
  reconnection nor any transfer, of local files or of files of the central sender, changes which
  endpoints there are, or their order.
\<close>

section \<open>Registration\<close>

abbreviation endpoints :: "proxy \<Rightarrow> string list" where
  "endpoints p \<equiv> map rv_receiver_endpoint (px_receivers p)"

lemma same_endpoints: "same (proxy_frame p) q \<Longrightarrow> endpoints q = endpoints p"
  by (simp add: same_def proxy_frame_def)

lemma same_frame: "same (proxy_frame p) p"
  by (simp add: same_def)

lemma find_endpoint_None:
  assumes "find_endpoint key receivers = None"
  shows "key \<notin> set (map rv_receiver_endpoint receivers)"
proof
  assume "key \<in> set (map rv_receiver_endpoint receivers)"
  then obtain i where "i < length receivers" "rv_receiver_endpoint (receivers ! i) = key"
    by (auto simp: in_set_conv_nth)
  with assms show False by (auto simp: find_endpoint_def find_None_iff)
qed

text \<open>A connection adds at most one endpoint, which is new.\<close>

lemma accept_initial_endpoints:
  "endpoints (snd (accept_initial attempt p)) = endpoints p
   \<or> (\<exists>key. key \<notin> set (endpoints p) \<and> endpoints (snd (accept_initial attempt p)) = endpoints p @ [key])"
proof (cases attempt)
  case (Inl e)
  then show ?thesis by (simp add: accept_initial_def eff_run)
next
  case (Inr accepted)
  let ?key = "acc_receiver_endpoint accepted"
  have ignore: "snd (tryS m (\<lambda>e. returnS ()) p) = snd (m p)" for m :: "unit px" and p
    by (simp add: tryS_run returnS_run split: sum.split)
  show ?thesis
  proof (cases "find_endpoint ?key (px_receivers p)")
    case (Some i)
    from find_endpoint_Some [OF Some] have "i < length (endpoints_of (proxy_frame p))"
      "endpoints_of (proxy_frame p) ! i = ?key" by (simp_all add: proxy_frame_def)
    from keepsD [OF same_install_receiver_connection [OF this] same_frame]
    have "endpoints (snd (install_receiver_connection i accepted p)) = endpoints p" by (rule same_endpoints)
    then show ?thesis using Some Inr by (simp add: accept_initial_def ignore eff_step)
  next
    case None
    let ?p = "p\<lparr>px_receivers := px_receivers p @ [new_receiver\<lparr>rv_receiver_endpoint := ?key\<rparr>]\<rparr>"
    have "length (px_receivers p) < length (endpoints_of (proxy_frame ?p))"
      "endpoints_of (proxy_frame ?p) ! length (px_receivers p) = ?key"
      by (simp_all add: proxy_frame_def nth_append)
    from keepsD [OF same_install_receiver_connection [OF this] same_frame]
    have "endpoints (snd (install_receiver_connection (length (px_receivers p)) accepted ?p)) = endpoints ?p"
      by (rule same_endpoints)
    then have "endpoints (snd (accept_initial attempt p)) = endpoints p @ [?key]"
      using None Inr by (simp add: accept_initial_def ignore eff_step set_receivers_def)
    with find_endpoint_None [OF None] show ?thesis by blast
  qed
qed

definition registered :: "nat \<Rightarrow> proxy \<Rightarrow> bool" where
  "registered expected p \<longleftrightarrow> distinct (endpoints p) \<and> length (endpoints p) \<le> expected"

lemma accept_receivers_registered:
  "registered expected p \<Longrightarrow> registered expected (snd (accept_receivers expected attempts p))"
proof (induction attempts arbitrary: p)
  case Nil
  then show ?case by (simp add: returnS_run)
next
  case (Cons attempt attempts)
  show ?case
  proof (cases "length (px_receivers p) \<ge> expected")
    case True
    with Cons.prems show ?thesis by (simp add: eff_step returnS_run)
  next
    case False
    obtain x q where q: "accept_initial attempt p = (x, q)" by (metis surj_pair)
    have "length (endpoints p) < expected" using False by simp
    then have "registered expected q"
      using accept_initial_endpoints [of attempt p] Cons.prems unfolding q snd_conv registered_def
      by (elim disjE exE conjE) (simp_all del: length_map)
    with Cons.IH [of q] False q show ?thesis
      by (cases x) (simp_all add: eff_step)
  qed
qed

section \<open>Serving files\<close>

definition stays :: "'a px \<Rightarrow> bool" where
  "stays m \<longleftrightarrow> (\<forall>E. keeps (\<lambda>p. endpoints p = E) m)"

named_theorems stays "operations that keep the endpoints"

lemma stays_same: "(\<And>c. keeps (same c) m) \<Longrightarrow> stays m"
  unfolding stays_def
proof (intro allI keepsI)
  fix E p assume m: "\<And>c. keeps (same c) m" and p: "endpoints p = E"
  from keepsD [of "same (proxy_frame p)" m p, OF m same_frame] p show "endpoints (snd (m p)) = E"
    by (simp only: same_endpoints)
qed

lemmas stays_calls [stays] = same [THEN stays_same]

lemma stays_structure [stays]:
  "stays (returnS x)" "stays (throwS msg)" "stays (liftE r)" "stays (getS f)"
  "stays m \<Longrightarrow> (\<And>x. stays (g x)) \<Longrightarrow> stays (bindS m g)"
  "stays m \<Longrightarrow> (\<And>e. stays (h e)) \<Longrightarrow> stays (tryS m h)"
  "stays u \<Longrightarrow> stays (whenS c u)" "(\<And>y. stays (body y)) \<Longrightarrow> stays (forS ys body)"
  "stays m \<Longrightarrow> stays n \<Longrightarrow> stays (if c then m else n)"
  "stays m \<Longrightarrow> (\<And>y. stays (k y)) \<Longrightarrow> stays (case z of None \<Rightarrow> m | Some y \<Rightarrow> k y)"
  unfolding stays_def by (auto intro: keep_structure)

lemma stays_modify [stays]: "(\<And>p. px_receivers (f p) = px_receivers p) \<Longrightarrow> stays (modifyS f)"
  by (simp add: stays_def keeps_def modifyS_run)

lemma endpoints_host_stable: "host_stable (\<lambda>p :: proxy. endpoints p = E)"
  by (simp add: host_stable_def)

lemma stays_files [stays]:
  "stays (file_exists path)" "stays (file_size_or_error path)" "stays (open_file path trunc op)" "stays (ftruncate path n op)"
  "stays (rename_file path path2 op)" "stays (remove_file path)" "stays (hash_file sha path)"
  "stays (write_text_file path text oe we)" "stays (write_all_at path data off)"
  unfolding stays_def by (intro allI keep endpoints_host_stable)+

lemma stays_finish_task [stays]: "stays (modifyS (finish_task b outcome))"
  by (intro stays) (simp add: finish_task_def split: sum.split)

lemma stays_abandon [stays]: "stays (set_receivers abandon_incomplete_receivers)"
proof -
  have "map rv_receiver_endpoint (abandon_incomplete_receivers rs) = map rv_receiver_endpoint rs" for rs
    by (simp add: abandon_incomplete_receivers_def)
  then show ?thesis by (simp add: stays_def keeps_def set_receivers_def modifyS_run)
qed

lemma stays_set_rv [stays]:
  "(\<And>r. rv_receiver_endpoint (f r) = rv_receiver_endpoint r) \<Longrightarrow> stays (set_rv i f)"
  by (rule stays_same) (rule same_set_rv)

lemma stays_receive_central [stays]: "stays receive_central"
  by (auto simp: stays_def keeps_def receive_central_def split: list.split)

lemma stays_worker [stays]: "stays (worker_step d)" "stays (worker_runs d)" "stays (wait_for_low n d low)"
proof -
  show one: "stays (worker_step d)"
    unfolding worker_step_def by (auto intro!: stays split: list.split)
  then have steps: "stays (worker_steps n d)" for n by (induction n) (auto intro!: stays)
  then show "stays (worker_runs d)" unfolding worker_runs_def by (auto intro!: stays)
  show "stays (wait_for_low n d low)"
    using one by (induction n) (subst wait_for_low.simps; auto intro!: stays)+
qed

lemma stays_worker_steps [stays]: "stays (worker_steps n d)"
  by (induction n) (auto intro!: stays)

lemma stays_fails [stays]:
  "stays (fail_after_meta reason sha256 :: 'a px)" "stays (rethrow_worker_error e :: 'a px)"
  unfolding fail_after_meta_def rethrow_worker_error_def by (intro stays; simp)+

lemma stays_dispatch [stays]:
  "stays (throw_if_worker_failed d)" "stays (enqueue_section d meta section_id)"
  "stays (complete_dispatch d)" "stays (stop_dispatch d)"
  unfolding throw_if_worker_failed_def enqueue_section_def complete_dispatch_def stop_dispatch_def
  by (intro stays; simp)+

lemma stays_central_calls [stays]:
  "stays (send_central frame)" "stays (send_central_status meta status sha256)"
  "stays (cache_block job data c)" "stays (cache_section_end job e c)" "stays (commit_cached_file sha job c)"
  unfolding send_central_status_def send_central_def cache_block_def cache_section_end_def commit_section_def
    save_central_checkpoint_def commit_cached_file_def Let_def
  by (intro stays)+

lemma stays_finish [stays]: "stays (finish_cached_transfer sha job c)"
  unfolding finish_cached_transfer_def finish_delivery_def Let_def by (intro stays) simp

lemma stays_cache_frame [stays]: "stays (cache_frame sha job frame c)"
  unfolding cache_frame_def by (intro stays)

lemma stays_cache_loop [stays]: "stays (cache_loop sha job n c)"
proof (induction n arbitrary: c)
  case 0
  show ?case by (subst cache_loop.simps) (auto intro!: stays split: sum.split)
next
  case (Suc n)
  then show ?case by (subst cache_loop.simps) (auto intro!: stays split: sum.split)
qed

lemma stays_new_file [stays]: "stays (receive_new_file sha config directory meta)"
  unfolding receive_new_file_def pipeline_def pipeline_failed_def existing_bytes_def load_central_checkpoint_def Let_def
  by (intro stays; simp)

lemma stays_answer [stays]: "stays (answer_from_cache d meta path digest)"
  unfolding answer_from_cache_def acknowledge_cached_def for_receivers_def by (intro stays; simp)

lemma stays_serve_connection [stays]: "stays (serve_connection sha config directory n)"
proof -
  have one: "stays (receive_cached_file_from_central sha config directory)"
    unfolding receive_cached_file_from_central_def Let_def by (intro stays)
  show ?thesis
    using one by (induction n) (subst serve_connection.simps; auto intro!: stays split: option.split bool.split)+
qed

lemma stays_serve_central [stays]: "stays (serve_central sha config directory connections)"
  by (induction connections) (auto intro!: stays)

section \<open>The whole program\<close>

lemma prepare_registered:
  assumes "proxy_prepare is_directory attempts opts p = (Inr d, q)"
  shows "registered (nat (so_receiver_count opts)) q"
proof -
  from assms obtain u where "accept_receivers (nat (so_receiver_count opts)) attempts (u\<lparr>px_receivers := []\<rparr>) = (Inr (), q)"
    by (auto simp: proxy_prepare_def eff_Inr set_receivers_def)
  moreover have "registered (nat (so_receiver_count opts)) (u\<lparr>px_receivers := []\<rparr>)"
    by (simp add: registered_def)
  ultimately show ?thesis using accept_receivers_registered by (metis snd_conv)
qed

text \<open>C29: The proxy serves the receivers that registered at the start, each once. After the
  preparation the endpoints are distinct and not more than asked for; with fewer the proxy goes on
  waiting and sends nothing; and whatever happens afterwards, in both modes (reconnections, lost
  connections, failed transfers, exceptions), the endpoints and their order are the same at the end.\<close>

theorem receivers_fixed:
  assumes "proxy_prepare is_directory attempts opts p = (Inr d, q)"
  shows "distinct (endpoints q) \<and> length (px_receivers q) \<le> nat (so_receiver_count opts)
    \<and> (length (px_receivers q) < nat (so_receiver_count opts) \<longrightarrow>
         proxy_run sha is_directory attempts connections opts p = (Inr False, q))
    \<and> endpoints (snd (proxy_run sha is_directory attempts connections opts p)) = endpoints q"
proof -
  let ?serve = "if length (px_receivers q) < nat (so_receiver_count opts) then returnS False
     else if so_central_mode opts then serve_central sha d (so_cache_directory opts) connections
     else bindS (send_files sha d (so_files opts)) (\<lambda>_. returnS True)"
  have run: "proxy_run sha is_directory attempts connections opts p = ?serve q"
    using assms by (simp add: proxy_run_def eff_step)
  have "stays ?serve" by (intro stays)
  then have "endpoints (snd (?serve q)) = endpoints q" by (simp add: stays_def keeps_def)
  moreover have "length (px_receivers q) < nat (so_receiver_count opts) \<longrightarrow> ?serve q = (Inr False, q)"
    by (simp add: returnS_run)
  ultimately show ?thesis using prepare_registered [OF assms] by (simp add: run registered_def)
qed

section \<open>An example\<close>

text \<open>Two receivers, of which one connects twice, and a registration that fails.\<close>

definition example_options :: sender_options where
  "example_options = \<lparr>so_multicast_ip = ipv4_address_string 0xEFFF2A63, so_udp_port = 5000, so_interface_ip = ''0.0.0.0'',
     so_control_port = 6000, so_receiver_count = 2, so_pace_us = 0, so_gap_ms = 0, so_max_repair_rounds = 3,
     so_files = [''a''], so_section_block_limit = 64, so_repair_mode = RM_Peer, so_central_mode = False,
     so_central_port = 0, so_cache_directory = []\<rparr>"

definition example_accepted :: "string \<Rightarrow> int \<Rightarrow> accepted_receiver" where
  "example_accepted key fd = \<lparr>acc_registration = \<lparr>reg_current_transfer_id = 0, reg_udp_port = 1,
     reg_peer_udp_port = 2, reg_state = RS_Idle\<rparr>, acc_control_fd = fd, acc_peer = 5, acc_receiver_endpoint = key\<rparr>"

definition example_attempts :: "accepted_receiver result list" where
  "example_attempts = [Inr (example_accepted ''x'' 3), throw ''timeout'', Inr (example_accepted ''x'' 4),
     Inr (example_accepted ''y'' 5)]"

lemma example_prepare:
  "\<exists>d q. proxy_prepare (\<lambda>_. True) example_attempts example_options example_proxy = (Inr d, q)
    \<and> endpoints q = [''x'', ''y'']"
proof -
  have "inet_pton (c_str (ipv4_address_string 0xEFFF2A63)) = Some 0xEFFF2A63"
    using parse_ipv4_string [of "''ip''" "0xEFFF2A63"] by (simp add: parse_ipv4_def split: option.splits)
  then have multicast: "multicast_or_throw (ipv4_address_string 0xEFFF2A63) m = Inr 0xEFFF2A63" for m
    by (simp add: multicast_or_throw_def address_or_throw_def in_multicast_def)
  show ?thesis
    by (simp add: proxy_prepare_def proxy_sockets_def create_control_listener_def example_options_def eff_run multicast
      set_receivers_def example_attempts_def accept_initial_def example_proxy_def find_endpoint_def
      install_receiver_connection_def example_accepted_def get_rv_def set_rv_def new_receiver_def syscall_def upt_rec)
qed

theorem receivers_fixed_witness:
  "endpoints (snd (proxy_run example_central_sha (\<lambda>_. True) example_attempts [] example_options example_proxy))
     = [''x'', ''y'']"
proof -
  from example_prepare obtain d q where
    run: "proxy_prepare (\<lambda>_. True) example_attempts example_options example_proxy = (Inr d, q)"
    and q: "endpoints q = [''x'', ''y'']" by (elim exE conjE)
  from receivers_fixed [OF run] q show ?thesis by simp
qed

end
