(* ===== verification/Thread_Pool.thy ===== *)
theory Thread_Pool
  imports Prelude Steps "HOL-Library.Multiset"
begin

text \<open>
  The thread pool (\<open>src/include/thread_pool.hpp\<close>) and the one client it has,
  \<open>backfill_isolated_receivers\<close> of \<open>src/sender.cpp\<close>, as interleaved steps. A step is what a thread does
  in one critical section of the pool's mutex, one action of a task, or one operation of the client
  on its futures. A worker that waits on the condition variable takes its step when the predicate of
  \<open>cv.wait\<close> holds; every change that makes it true is followed by a notification in the code.

  Task i works on the state of receiver i only (its connection, its fields), which is the type
  \<open>'s\<close>; its body is a list of actions, each of which may throw. \<open>packaged_task\<close> keeps the exception
  for \<open>get\<close>. The lemmas show that every interleaving ends, with the result of running the tasks one
  after the other, as \<open>run_tasks\<close> of \<open>Proxy_Transfer\<close> does.
\<close>

section \<open>The pool\<close>

type_synonym 's action = "'s \<Rightarrow> error option \<times> 's"

datatype 's worker = Waiting | Busy nat "'s action list" | Returned

record 's pool =
  tp_work :: "'s worker list"
  tp_queue :: "nat list"
  tp_stop :: bool

definition pool_workers :: "nat \<Rightarrow> nat" where
  "pool_workers threads = (if threads = 0 then 1 else threads)"

definition new_pool :: "nat \<Rightarrow> 's pool" where
  "new_pool threads = \<lparr>tp_work = replicate (pool_workers threads) Waiting, tp_queue = [], tp_stop = False\<rparr>"

definition pool_add :: "nat \<Rightarrow> ('s, 'z) pool_scheme \<Rightarrow> ('s, 'z) pool_scheme result" where
  "pool_add i p = (if tp_stop p then throw ''thread pool is stopped'' else Inr (p\<lparr>tp_queue := tp_queue p @ [i]\<rparr>))"

text \<open>What a worker does with the lock: None where \<open>cv.wait\<close> goes on waiting.\<close>

definition pool_take ::
  "(nat \<Rightarrow> 's action list) \<Rightarrow> ('s, 'z) pool_scheme \<Rightarrow> ('s worker \<times> ('s, 'z) pool_scheme) option" where
  "pool_take body p =
     (if \<not> (tp_stop p \<or> tp_queue p \<noteq> []) then None
      else if tp_stop p \<and> tp_queue p = [] then Some (Returned, p)
      else Some (Busy (hd (tp_queue p)) (body (hd (tp_queue p))), p\<lparr>tp_queue := tl (tp_queue p)\<rparr>))"

definition set_worker :: "nat \<Rightarrow> 's worker \<Rightarrow> ('s, 'z) pool_scheme \<Rightarrow> ('s, 'z) pool_scheme" where
  "set_worker w x p = p\<lparr>tp_work := (tp_work p)[w := x]\<rparr>"

section \<open>The pool and its client\<close>

text \<open>The client adds the tasks, gets their results in the same order, and destroys the pool, at the
  end or when \<open>get\<close> throws. \<open>bf_results\<close> are the futures that are ready.\<close>

record 's backfill_run = "'s pool" +
  bf_receivers :: "nat \<Rightarrow> 's"
  bf_todo :: "nat list"
  bf_futures :: "nat list"
  bf_results :: "(nat \<times> error option) list"
  bf_failure :: "error option"
  bf_joined :: bool

definition start_backfill :: "nat \<Rightarrow> nat list \<Rightarrow> (nat \<Rightarrow> 's) \<Rightarrow> 's backfill_run" where
  "start_backfill threads indexes receivers = pool.extend (new_pool threads)
     \<lparr>bf_receivers = receivers, bf_todo = indexes, bf_futures = [], bf_results = [], bf_failure = None, bf_joined = False\<rparr>"

inductive pool_step :: "(nat \<Rightarrow> 's action list) \<Rightarrow> 's backfill_run \<Rightarrow> 's backfill_run \<Rightarrow> bool" for body where
  add_task: "pool_step body s (t\<lparr>bf_todo := ids, bf_futures := bf_futures s @ [i]\<rparr>)"
    if "bf_todo s = i # ids" "bf_failure s = None" "pool_add i s = Inr t"
| take_task: "pool_step body s (set_worker w x t)"
    if "w < length (tp_work s)" "tp_work s ! w = Waiting" "pool_take body s = Some (x, t)"
| task_acts: "pool_step body s (set_worker w (Busy i as) s\<lparr>bf_receivers := (bf_receivers s)(i := x)\<rparr>)"
    if "w < length (tp_work s)" "tp_work s ! w = Busy i (a # as)" "a (bf_receivers s i) = (None, x)"
| task_throws: "pool_step body s (set_worker w Waiting s\<lparr>bf_receivers := (bf_receivers s)(i := x),
      bf_results := bf_results s @ [(i, Some e)]\<rparr>)"
    if "w < length (tp_work s)" "tp_work s ! w = Busy i (a # as)" "a (bf_receivers s i) = (Some e, x)"
| task_returns: "pool_step body s (set_worker w Waiting s\<lparr>bf_results := bf_results s @ [(i, None)]\<rparr>)"
    if "w < length (tp_work s)" "tp_work s ! w = Busy i []"
| get_returns: "pool_step body s (s\<lparr>bf_futures := ids\<rparr>)"
    if "bf_todo s = []" "\<not> tp_stop s" "bf_futures s = i # ids" "map_of (bf_results s) i = Some None"
| get_throws: "pool_step body s (s\<lparr>bf_futures := [], bf_failure := Some e, tp_stop := True\<rparr>)"
    if "bf_todo s = []" "\<not> tp_stop s" "bf_futures s = i # ids" "map_of (bf_results s) i = Some (Some e)"
| destroy: "pool_step body s (s\<lparr>tp_stop := True\<rparr>)"
    if "bf_todo s = []" "\<not> tp_stop s" "bf_futures s = []"
| joined: "pool_step body s (s\<lparr>bf_joined := True\<rparr>)"
    if "tp_stop s" "\<not> bf_joined s" "\<forall>x \<in> set (tp_work s). x = Returned"

inductive_cases pool_stepE: "pool_step body s t"

section \<open>The tasks one after the other\<close>

fun run_task :: "'s action list \<Rightarrow> 's \<Rightarrow> error option \<times> 's" where
  "run_task [] x = (None, x)"
| "run_task (a # as) x = (case a x of (Some e, y) \<Rightarrow> (Some e, y) | (None, y) \<Rightarrow> run_task as y)"

fun run_sequential :: "(nat \<Rightarrow> 's action list) \<Rightarrow> nat list \<Rightarrow> (nat \<Rightarrow> 's) \<Rightarrow> error option \<times> (nat \<Rightarrow> 's)" where
  "run_sequential body [] receivers = (None, receivers)"
| "run_sequential body (i # ids) receivers =
     (case run_task (body i) (receivers i) of (failure, x) \<Rightarrow>
      case run_sequential body ids (receivers(i := x)) of (later, receivers') \<Rightarrow>
        (case failure of None \<Rightarrow> later | Some e \<Rightarrow> Some e, receivers'))"

lemma run_sequential_step:
  assumes "run_task (body i) (R i) = (f, x)"
  shows "fst (run_sequential body (i # ids) R) =
      (case f of None \<Rightarrow> fst (run_sequential body ids (R(i := x))) | Some e \<Rightarrow> Some e)"
    and "snd (run_sequential body (i # ids) R) = snd (run_sequential body ids (R(i := x)))"
  using assms by (simp_all add: case_prod_beta)

declare run_sequential.simps(2) [simp del]

lemma run_sequential_receivers:
  "distinct ids \<Longrightarrow> snd (run_sequential body ids R) = (\<lambda>i. if i \<in> set ids then snd (run_task (body i) (R i)) else R i)"
proof (induction ids arbitrary: R)
  case (Cons i ids)
  obtain f x where run: "run_task (body i) (R i) = (f, x)" by (metis surj_pair)
  show ?case using Cons by (auto simp: run_sequential_step(2) [of body i R, OF run] fun_eq_iff run)
qed simp

lemma other_tasks:
  "i \<notin> set ids \<Longrightarrow> (\<forall>j \<in> set ids. fst (run_task (body j) ((R(i := x)) j)) = None) \<longleftrightarrow>
    (\<forall>j \<in> set ids. fst (run_task (body j) (R j)) = None)"
  by (intro ball_cong) auto

lemma run_sequential_None:
  "distinct ids \<Longrightarrow> fst (run_sequential body ids R) = None \<longleftrightarrow> (\<forall>i \<in> set ids. fst (run_task (body i) (R i)) = None)"
proof (induction ids arbitrary: R)
  case (Cons i ids)
  obtain f x where run: "run_task (body i) (R i) = (f, x)" by (metis surj_pair)
  show ?case using Cons other_tasks [of i ids body R x]
    by (cases f) (simp_all add: run_sequential_step(1) [of body i R, OF run] run del: fun_upd_apply)
qed simp

lemma run_sequential_Some:
  assumes "distinct (js @ i # ks)" and "\<forall>j \<in> set js. fst (run_task (body j) (R j)) = None"
    and "fst (run_task (body i) (R i)) = Some e"
  shows "fst (run_sequential body (js @ i # ks) R) = Some e"
  using assms
proof (induction js arbitrary: R)
  case Nil
  obtain x where run: "run_task (body i) (R i) = (Some e, x)" using Nil.prems(3) by (metis prod.collapse)
  show ?case by (simp add: run_sequential_step(1) [of body i R, OF run])
next
  case (Cons j js)
  obtain x where run: "run_task (body j) (R j) = (None, x)"
    using Cons.prems(2) by (metis list.set_intros(1) prod.collapse)
  have "fst (run_sequential body (js @ i # ks) (R(j := x))) = Some e"
    using Cons.prems other_tasks [of j js body R x] by (intro Cons.IH) auto
  then show ?case by (simp add: run_sequential_step(1) [of body j R, OF run])
qed

section \<open>The invariant\<close>

text \<open>The tasks the workers are busy with, as a multiset.\<close>

definition task_of :: "'s worker \<Rightarrow> nat multiset" where
  "task_of x = (case x of Busy i as \<Rightarrow> {#i#} | _ \<Rightarrow> {#})"

lemma task_of_simps [simp]: "task_of Waiting = {#}" "task_of (Busy i as) = {#i#}" "task_of Returned = {#}"
  by (simp_all add: task_of_def)

definition busy_tasks :: "'s worker list \<Rightarrow> nat multiset" where
  "busy_tasks work = \<Sum>\<^sub># (mset (map task_of work))"

lemma busy_tasks_Cons: "busy_tasks (x # work) = task_of x + busy_tasks work"
  by (simp add: busy_tasks_def)

lemma busy_tasks_update:
  "w < length work \<Longrightarrow> busy_tasks (work[w := x]) + task_of (work ! w) = busy_tasks work + task_of x"
proof (induction work arbitrary: w)
  case (Cons y work)
  then show ?case by (cases w) (auto simp: busy_tasks_Cons ac_simps)
qed simp

lemma busy_tasks_member: "w < length work \<Longrightarrow> work ! w = Busy i as \<Longrightarrow> i \<in># busy_tasks work"
  using busy_tasks_update [of w work Waiting] by simp (metis union_iff union_single_eq_member)

lemma busy_tasks_other:
  assumes "v < length work" and "w < length work" and "v \<noteq> w" and "work ! v = Busy i as"
  shows "i \<in># busy_tasks (work[w := x])"
  using busy_tasks_member [of v "work[w := x]" i as] assms by simp

text \<open>Where every task is: still to be added, queued, with a worker, or finished. Nothing but its
  worker has touched its receiver, and what the worker has yet to do leads to the result of the task.\<close>

definition tasks_once :: "nat list \<Rightarrow> 's backfill_run \<Rightarrow> bool" where
  "tasks_once indexes s \<longleftrightarrow>
     mset (bf_todo s) + mset (tp_queue s) + busy_tasks (tp_work s) + mset (map fst (bf_results s)) = mset indexes"

definition tasks_right :: "(nat \<Rightarrow> 's action list) \<Rightarrow> (nat \<Rightarrow> 's) \<Rightarrow> 's backfill_run \<Rightarrow> bool" where
  "tasks_right body R s \<longleftrightarrow>
     (\<forall>w i as. w < length (tp_work s) \<longrightarrow> tp_work s ! w = Busy i as \<longrightarrow>
        run_task as (bf_receivers s i) = run_task (body i) (R i)) \<and>
     (\<forall>i failure. (i, failure) \<in> set (bf_results s) \<longrightarrow> (failure, bf_receivers s i) = run_task (body i) (R i)) \<and>
     (\<forall>i. (\<forall>failure. (i, failure) \<notin> set (bf_results s)) \<longrightarrow> i \<notin># busy_tasks (tp_work s) \<longrightarrow> bf_receivers s i = R i)"

text \<open>What the client has seen.\<close>

definition client_right :: "(nat \<Rightarrow> 's action list) \<Rightarrow> nat list \<Rightarrow> (nat \<Rightarrow> 's) \<Rightarrow> 's backfill_run \<Rightarrow> bool" where
  "client_right body indexes R s \<longleftrightarrow>
     (if tp_stop s then bf_todo s = [] \<and> bf_failure s = fst (run_sequential body indexes R)
      else bf_failure s = None \<and> (\<exists>got. indexes = got @ bf_futures s @ bf_todo s \<and> (bf_todo s \<noteq> [] \<longrightarrow> got = [])
        \<and> (\<forall>i \<in> set got. fst (run_task (body i) (R i)) = None)))"

definition workers_right :: "'s backfill_run \<Rightarrow> bool" where
  "workers_right s \<longleftrightarrow> tp_work s \<noteq> [] \<and> (Returned \<in> set (tp_work s) \<longrightarrow> tp_stop s \<and> tp_queue s = []) \<and>
     (bf_joined s \<longrightarrow> tp_stop s \<and> tp_queue s = [] \<and> (\<forall>w < length (tp_work s). tp_work s ! w = Returned))"

definition pool_inv :: "(nat \<Rightarrow> 's action list) \<Rightarrow> nat list \<Rightarrow> (nat \<Rightarrow> 's) \<Rightarrow> 's backfill_run \<Rightarrow> bool" where
  "pool_inv body indexes R s \<longleftrightarrow> distinct indexes \<and> tasks_once indexes s \<and> tasks_right body R s
     \<and> client_right body indexes R s \<and> workers_right s"

lemmas backfill_defs = start_backfill_def new_pool_def backfill_run.defs pool.defs

lemma start_backfill_inv: "distinct indexes \<Longrightarrow> pool_inv body indexes R (start_backfill threads indexes R)"
  by (simp add: pool_inv_def tasks_once_def tasks_right_def client_right_def workers_right_def backfill_defs
      pool_workers_def busy_tasks_def)

section \<open>Every step keeps it\<close>

lemma pool_take_cases:
  assumes "pool_take body p = Some (x, q)"
  obtains (returned) "tp_stop p" "tp_queue p = []" "x = Returned" "q = p"
  | (taken) i ids where "tp_queue p = i # ids" "x = Busy i (body i)" "q = p\<lparr>tp_queue := ids\<rparr>"
  using assms by (cases "tp_queue p") (auto simp: pool_take_def split: if_splits)

lemma pool_add_ok: "pool_add i p = Inr q \<longleftrightarrow> \<not> tp_stop p \<and> q = p\<lparr>tp_queue := tp_queue p @ [i]\<rparr>"
  by (auto simp: pool_add_def)

lemma tasks_once_step: "pool_step body s t \<Longrightarrow> tasks_once indexes s \<Longrightarrow> tasks_once indexes t"
proof (induction rule: pool_step.induct)
  case (take_task s w x t)
  from take_task.hyps(3) show ?case
    using busy_tasks_update [OF take_task.hyps(1), of x] take_task
    by (cases rule: pool_take_cases) (auto simp: tasks_once_def set_worker_def ac_simps)
next
  case (task_throws s w i a as e x)
  then show ?case using busy_tasks_update [OF task_throws.hyps(1), of Waiting, symmetric]
    by (simp add: tasks_once_def set_worker_def ac_simps)
next
  case (task_returns s w i)
  then show ?case using busy_tasks_update [OF task_returns.hyps(1), of Waiting, symmetric]
    by (simp add: tasks_once_def set_worker_def ac_simps)
next
  case (task_acts s w i a as x)
  then show ?case using busy_tasks_update [OF task_acts.hyps(1), of "Busy i as"]
    by (simp add: tasks_once_def set_worker_def)
qed (auto simp: tasks_once_def pool_add_ok)

text \<open>A task that a worker is busy with is nowhere else.\<close>

lemma busy_alone:
  assumes "tasks_once indexes s" and "distinct indexes" and "w < length (tp_work s)" and "tp_work s ! w = Busy i as"
  shows "i \<notin># busy_tasks ((tp_work s)[w := Waiting])" and "\<forall>failure. (i, failure) \<notin> set (bf_results s)"
    and "i \<in># busy_tasks (tp_work s)" and "i \<in> set indexes"
proof -
  have "mset indexes = add_mset i (mset (bf_todo s) + mset (tp_queue s)
      + busy_tasks ((tp_work s)[w := Waiting]) + mset (map fst (bf_results s)))"
    using assms(1,4) busy_tasks_update [OF assms(3), of Waiting, symmetric] by (simp add: tasks_once_def ac_simps)
  moreover have "count (mset indexes) i \<le> 1"
    using assms(2) by (simp add: distinct_count_atmost_1)
  ultimately have "count (mset (bf_todo s) + mset (tp_queue s)
      + busy_tasks ((tp_work s)[w := Waiting]) + mset (map fst (bf_results s))) i = 0" and "i \<in># mset indexes"
    by simp_all
  then show "i \<notin># busy_tasks ((tp_work s)[w := Waiting])" "\<forall>failure. (i, failure) \<notin> set (bf_results s)" "i \<in> set indexes"
    by (force simp: count_eq_zero_iff simp flip: not_in_iff)+
  show "i \<in># busy_tasks (tp_work s)" by (rule busy_tasks_member [OF assms(3,4)])
qed

text \<open>A queued task has not been touched.\<close>

lemma queued_alone:
  assumes "tasks_once indexes s" and "distinct indexes" and "tp_queue s = i # ids"
  shows "i \<notin># busy_tasks (tp_work s)" and "\<forall>failure. (i, failure) \<notin> set (bf_results s)"
proof -
  have "mset indexes = add_mset i (mset (bf_todo s) + mset ids + busy_tasks (tp_work s) + mset (map fst (bf_results s)))"
    using assms(1,3) by (simp add: tasks_once_def)
  moreover have "count (mset indexes) i \<le> 1"
    using assms(2) by (simp add: distinct_count_atmost_1)
  ultimately have "count (mset (bf_todo s) + mset ids + busy_tasks (tp_work s) + mset (map fst (bf_results s))) i = 0"
    by simp
  then show "i \<notin># busy_tasks (tp_work s)" "\<forall>failure. (i, failure) \<notin> set (bf_results s)"
    by (force simp: count_eq_zero_iff simp flip: not_in_iff)+
qed

text \<open>A worker's step on the receiver of its task.\<close>

lemma other_workers:
  assumes "tasks_once indexes s" and "distinct indexes" and "w < length (tp_work s)" and "tp_work s ! w = Busy i as"
    and "v < length (tp_work s)" and "v \<noteq> w" and "tp_work s ! v = Busy j bs"
  shows "j \<noteq> i"
  using busy_tasks_other [OF assms(5,3,6,7), of Waiting] busy_alone(1) [OF assms(1-4)] by auto

lemma tasks_right_step:
  assumes "pool_step body s t" and "tasks_once indexes s" and "distinct indexes" and "tasks_right body R s"
  shows "tasks_right body R t"
  using assms(1)
proof (cases rule: pool_step.cases)
  case (take_task w x q)
  from take_task(4) show ?thesis
  proof (cases rule: pool_take_cases)
    case returned
    with take_task assms(4) busy_tasks_update [OF take_task(2), of Returned] show ?thesis
      by (auto simp: tasks_right_def set_worker_def nth_list_update)
  next
    case (taken i ids)
    have "bf_receivers s i = R i"
      using assms(4) queued_alone [OF assms(2,3) taken(1)] by (simp add: tasks_right_def)
    with taken take_task assms(4) busy_tasks_update [OF take_task(2), of x] show ?thesis
      by (auto simp: tasks_right_def set_worker_def nth_list_update)
  qed
next
  case (task_acts w i a as x)
  note alone = busy_alone [OF assms(2,3) task_acts(2,3)] other_workers [OF assms(2,3) task_acts(2,3)]
  have "run_task as x = run_task (body i) (R i)"
    using assms(4) task_acts by (force simp: tasks_right_def)
  with alone task_acts assms(4) busy_tasks_update [OF task_acts(2), of "Busy i as"] show ?thesis
    by (auto simp: tasks_right_def set_worker_def nth_list_update)
next
  case (task_throws w i a as e x)
  note alone = busy_alone [OF assms(2,3) task_throws(2,3)] other_workers [OF assms(2,3) task_throws(2,3)]
  have "(Some e, x) = run_task (body i) (R i)"
    using assms(4) task_throws by (force simp: tasks_right_def)
  with alone task_throws assms(4) busy_tasks_update [OF task_throws(2), of Waiting, symmetric] show ?thesis
    by (auto simp: tasks_right_def set_worker_def nth_list_update)
next
  case (task_returns w i)
  have "(None, bf_receivers s i) = run_task (body i) (R i)"
    using assms(4) task_returns by (force simp: tasks_right_def)
  with task_returns assms(4) busy_tasks_update [OF task_returns(2), of Waiting, symmetric] show ?thesis
    by (auto simp: tasks_right_def set_worker_def nth_list_update)
qed (use assms(4) in \<open>auto simp: tasks_right_def pool_add_ok\<close>)

lemma result_of_task:
  assumes "tasks_right body R s" and "map_of (bf_results s) i = Some failure"
  shows "fst (run_task (body i) (R i)) = failure"
proof -
  have "(failure, bf_receivers s i) = run_task (body i) (R i)"
    using assms map_of_SomeD by (fastforce simp: tasks_right_def)
  then show ?thesis by (metis fst_conv)
qed

lemma client_right_step:
  assumes "pool_step body s t" and "pool_inv body indexes R s"
  shows "client_right body indexes R t"
  using assms(1)
proof (cases rule: pool_step.cases)
  case (get_returns i ids)
  have "fst (run_task (body i) (R i)) = None"
    using result_of_task [OF _ get_returns(5)] assms(2) by (simp add: pool_inv_def)
  moreover from get_returns assms(2) obtain got where
    "indexes = got @ i # ids" and "\<forall>i \<in> set got. fst (run_task (body i) (R i)) = None" and "bf_failure s = None"
    by (auto simp: pool_inv_def client_right_def)
  ultimately show ?thesis using get_returns by (simp add: client_right_def)
next
  case (get_throws i ids e)
  have failed: "fst (run_task (body i) (R i)) = Some e"
    using result_of_task [OF _ get_throws(5)] assms(2) by (simp add: pool_inv_def)
  from get_throws assms(2) obtain got where "indexes = got @ i # ids" and "\<forall>i \<in> set got. fst (run_task (body i) (R i)) = None"
    by (auto simp: pool_inv_def client_right_def)
  with run_sequential_Some [of got i ids body R e] failed assms(2) get_throws show ?thesis
    by (simp add: pool_inv_def client_right_def)
next
  case destroy
  with assms(2) run_sequential_None [of indexes body R] show ?thesis by (auto simp: pool_inv_def client_right_def)
next
  case (take_task w x q)
  from take_task(4) show ?thesis
    using take_task assms(2) by (cases rule: pool_take_cases) (auto simp: pool_inv_def client_right_def set_worker_def)
qed (use assms(2) in \<open>auto simp: pool_inv_def client_right_def set_worker_def pool_add_ok split: if_splits\<close>)

lemma workers_right_step:
  assumes "pool_step body s t" and "workers_right s"
  shows "workers_right t"
  using assms(1)
proof (cases rule: pool_step.cases)
  case (take_task w x q)
  have "Waiting \<in> set (tp_work s)" using take_task(2,3) nth_mem by metis
  with take_task have "\<not> bf_joined s" "Returned \<in> set (tp_work s) \<longrightarrow> tp_stop s \<and> tp_queue s = []"
    using assms(2) by (auto simp: workers_right_def dest: spec [of _ w])
  moreover from take_task(4) have "tp_work q = tp_work s" "tp_stop q = tp_stop s" "bf_joined q = bf_joined s"
      "tp_queue s = [] \<longrightarrow> tp_queue q = []" "x = Returned \<longrightarrow> tp_stop s \<and> tp_queue q = []"
    by (cases rule: pool_take_cases; simp)+
  ultimately show ?thesis
    using take_task assms(2) set_update_subset_insert [of "tp_work s" w x] by (auto simp: workers_right_def set_worker_def)
next
  case joined
  have "Returned \<in> set (tp_work s)" using joined(4) assms(2) by (cases "tp_work s") (auto simp: workers_right_def)
  with joined assms(2) show ?thesis by (auto simp: workers_right_def)
qed (use assms(2) in \<open>auto simp: workers_right_def set_worker_def pool_add_ok dest!: set_update_subset_insert [THEN subsetD]\<close>)

lemma pool_step_inv: "pool_step body s t \<Longrightarrow> pool_inv body indexes R s \<Longrightarrow> pool_inv body indexes R t"
  using client_right_step [of body s t indexes R] tasks_once_step [of body s t indexes] tasks_right_step [of body s t indexes R]
    workers_right_step [of body s t]
  by (simp add: pool_inv_def)

section \<open>No run is stuck, and every run ends\<close>

lemma worker_can_step:
  assumes "w < length (tp_work s)" and "tp_work s ! w = Busy i as"
  shows "\<exists>t. pool_step body s t"
proof (cases as)
  case Nil
  with assms show ?thesis by (blast intro: task_returns)
next
  case (Cons a bs)
  obtain f x where "a (bf_receivers s i) = (f, x)" by (metis surj_pair)
  with Cons assms show ?thesis by (cases f) (blast intro: task_acts task_throws)+
qed

lemma waiting_can_step:
  assumes "w < length (tp_work s)" and "tp_work s ! w = Waiting" and "tp_stop s \<or> tp_queue s \<noteq> []"
  shows "\<exists>t. pool_step body s t"
proof -
  obtain x q where "pool_take body s = Some (x, q)" using assms(3)
    by (cases "tp_queue s") (auto simp: pool_take_def)
  with assms show ?thesis by (blast intro: take_task)
qed

lemma pool_progress:
  assumes "pool_inv body indexes R s" and "\<not> bf_joined s"
  shows "\<exists>t. pool_step body s t"
proof (cases "\<exists>w < length (tp_work s). tp_work s ! w \<noteq> Returned \<and>
    (tp_work s ! w = Waiting \<longrightarrow> tp_stop s \<or> tp_queue s \<noteq> [])")
  case True
  then obtain w where w: "w < length (tp_work s)" "tp_work s ! w \<noteq> Returned"
    "tp_work s ! w = Waiting \<longrightarrow> tp_stop s \<or> tp_queue s \<noteq> []" by blast
  then show ?thesis by (cases "tp_work s ! w") (blast intro: worker_can_step waiting_can_step)+
next
  case False
  then have idle: "tp_work s ! w = Returned \<or> tp_work s ! w = Waiting \<and> \<not> tp_stop s \<and> tp_queue s = []"
    if "w < length (tp_work s)" for w using that by blast
  show ?thesis
  proof (cases "tp_stop s")
    case True
    with idle have "\<forall>x \<in> set (tp_work s). x = Returned" by (auto simp: in_set_conv_nth)
    with True assms(2) show ?thesis by (blast intro: joined)
  next
    case running: False
    show ?thesis
    proof (cases "bf_todo s")
      case (Cons i ids)
      with running assms(1) show ?thesis
        by (auto simp: pool_inv_def client_right_def pool_add_def intro!: exI add_task)
    next
      case Nil
      have waiting: "\<forall>x \<in> set (tp_work s). x = Waiting"
        using idle running assms(1) by (auto simp: pool_inv_def workers_right_def in_set_conv_nth)
      then have "busy_tasks (tp_work s) = {#}"
        by (induction "tp_work s") (auto simp: busy_tasks_def)
      moreover have "tp_queue s = []"
        using idle [of 0] waiting assms(1) nth_mem [of 0 "tp_work s"] unfolding pool_inv_def workers_right_def by fastforce
      ultimately have "mset (map fst (bf_results s)) = mset indexes"
        using Nil assms(1) by (simp add: pool_inv_def tasks_once_def)
      then have finished: "set indexes = fst ` set (bf_results s)" by (metis set_map set_mset_mset)
      show ?thesis
      proof (cases "bf_futures s")
        case futures: (Cons i ids)
        have "i \<in> fst ` set (bf_results s)"
          using futures running assms(1) unfolding finished [symmetric] by (auto simp: pool_inv_def client_right_def)
        then obtain f where "map_of (bf_results s) i = Some f" by (metis domD dom_map_of_conv_image_fst)
        with Nil running futures show ?thesis by (cases f) (blast intro: get_returns get_throws)+
      qed (use Nil running in \<open>blast intro: destroy\<close>)
    qed
  qed
qed

definition worker_variant :: "'s worker \<Rightarrow> nat" where
  "worker_variant x = (case x of Waiting \<Rightarrow> 1 | Busy i as \<Rightarrow> length as + 2 | Returned \<Rightarrow> 0)"

lemma worker_variant_simps [simp]:
  "worker_variant Waiting = 1" "worker_variant (Busy i as) = length as + 2" "worker_variant Returned = 0"
  by (simp_all add: worker_variant_def)

definition pool_variant :: "(nat \<Rightarrow> 's action list) \<Rightarrow> 's backfill_run \<Rightarrow> nat" where
  "pool_variant body s = (\<Sum>i \<leftarrow> bf_todo s. length (body i) + 4) + (\<Sum>i \<leftarrow> tp_queue s. length (body i) + 2)
     + (\<Sum>x \<leftarrow> tp_work s. worker_variant x) + length (bf_futures s)
     + (if tp_stop s then 0 else 1) + (if bf_joined s then 0 else 1)"

lemma workers_variant_update:
  "w < length work \<Longrightarrow> (\<Sum>x \<leftarrow> work[w := y]. worker_variant x) + worker_variant (work ! w)
     = (\<Sum>x \<leftarrow> work. worker_variant x) + worker_variant y"
proof (induction work arbitrary: w)
  case (Cons z work)
  then show ?case by (cases w) auto
qed simp

lemma pool_step_decreases: "pool_step body s t \<Longrightarrow> pool_variant body t < pool_variant body s"
proof (induction rule: pool_step.induct)
  case (take_task s w x t)
  from take_task.hyps(3) show ?case
    using workers_variant_update [OF take_task.hyps(1), of x] take_task.hyps(1,2)
    by (cases rule: pool_take_cases) (auto simp: pool_variant_def set_worker_def)
next
  case (task_acts s w i a as x)
  then show ?case using workers_variant_update [OF task_acts.hyps(1), of "Busy i as"]
    by (simp add: pool_variant_def set_worker_def)
next
  case (task_throws s w i a as e x)
  then show ?case using workers_variant_update [OF task_throws.hyps(1), of Waiting]
    by (simp add: pool_variant_def set_worker_def)
next
  case (task_returns s w i)
  then show ?case using workers_variant_update [OF task_returns.hyps(1), of Waiting]
    by (simp add: pool_variant_def set_worker_def)
qed (auto simp: pool_variant_def pool_add_ok)

interpretation backfill_steps: terminating_steps "pool_step body" "pool_inv body indexes R" "pool_variant body"
  for body indexes R
  by unfold_locales (auto intro: pool_step_inv pool_step_decreases)

lemma start_backfill_variant:
  "pool_variant body (start_backfill threads indexes R) = (\<Sum>i \<leftarrow> indexes. length (body i) + 4) + pool_workers threads + 2"
  by (simp add: pool_variant_def backfill_defs map_replicate_const sum_list_replicate)

text \<open>The pool is gone only when all tasks are done.\<close>

lemma joined_result:
  assumes "pool_inv body indexes R s" and "bf_joined s"
  shows "(bf_failure s, bf_receivers s) = run_sequential body indexes R"
proof -
  have work: "\<forall>x \<in> set (tp_work s). x = Returned"
    using assms by (auto simp: pool_inv_def workers_right_def in_set_conv_nth)
  then have idle: "busy_tasks (tp_work s) = {#}" by (induction "tp_work s") (auto simp: busy_tasks_def)
  have stop: "tp_stop s" "tp_queue s = []" "bf_todo s = []" "bf_failure s = fst (run_sequential body indexes R)"
    using assms by (auto simp: pool_inv_def workers_right_def client_right_def)
  have "mset (map fst (bf_results s)) = mset indexes"
    using assms(1) idle stop by (simp add: pool_inv_def tasks_once_def)
  then have finished: "set indexes = fst ` set (bf_results s)" by (metis set_map set_mset_mset)
  have "bf_receivers s i = (if i \<in> set indexes then snd (run_task (body i) (R i)) else R i)" for i
  proof (cases "i \<in> set indexes")
    case True
    with finished obtain f where "(i, f) \<in> set (bf_results s)" by auto
    then have "(f, bf_receivers s i) = run_task (body i) (R i)"
      using assms(1) by (simp add: pool_inv_def tasks_right_def)
    with True show ?thesis by (metis snd_conv)
  next
    case False
    then have "\<forall>f. (i, f) \<notin> set (bf_results s)" using finished by force
    with False idle assms(1) show ?thesis by (simp add: pool_inv_def tasks_right_def)
  qed
  with assms(1) stop(4) show ?thesis
    by (simp add: prod_eq_iff fun_eq_iff run_sequential_receivers pool_inv_def)
qed

text \<open>Some interleaving joins the pool, whatever happened before.\<close>

lemma backfill_can_join:
  assumes "pool_inv body indexes R s"
  shows "\<exists>t. (pool_step body)\<^sup>*\<^sup>* s t \<and> (bf_failure t, bf_receivers t) = run_sequential body indexes R"
proof -
  have "\<exists>t. (pool_step body)\<^sup>*\<^sup>* s t \<and> pool_inv body indexes R t \<and> bf_joined t"
    by (rule backfill_steps.reaches_final [OF _ assms]) (rule pool_progress)
  then show ?thesis using joined_result by fast
qed

text \<open>C8: Backfill in a thread pool is backfill of one receiver after the other. Whatever the number of
  threads and however their steps interleave: a run has a bounded number of steps, it is never stuck
  before the pool is joined, and when the pool is joined every task has run exactly to its end, also
  when \<open>get\<close> threw in between; the receivers are as after the sequential run, and the exception
  is the first one in the order of the tasks.\<close>

theorem backfill_pool_sequential:
  assumes "distinct indexes" and "(pool_step body ^^ n) (start_backfill threads indexes receivers) s"
  shows "n \<le> (\<Sum>i \<leftarrow> indexes. length (body i) + 4) + pool_workers threads + 2
    \<and> (if bf_joined s then (bf_failure s, bf_receivers s) = run_sequential body indexes receivers
       else \<exists>t. pool_step body s t)"
proof -
  have inv: "pool_inv body indexes receivers s"
    using backfill_steps.run_inv [OF assms(2) start_backfill_inv [OF assms(1)]] .
  have "n \<le> (\<Sum>i \<leftarrow> indexes. length (body i) + 4) + pool_workers threads + 2"
    using backfill_steps.run_length [OF assms(2)] by (simp add: start_backfill_variant)
  then show ?thesis using joined_result [OF inv] pool_progress [OF inv] by simp
qed

text \<open>One task, which throws after it has changed its receiver.\<close>

definition example_failure :: error where
  "example_failure = Runtime_error ''pread''"

definition example_body :: "nat \<Rightarrow> nat action list" where
  "example_body i = [\<lambda>x. (Some example_failure, x + 2)]"

lemma six_steps:
  "P a b \<Longrightarrow> P b c \<Longrightarrow> P c d \<Longrightarrow> P d e \<Longrightarrow> P e f \<Longrightarrow> P f g \<Longrightarrow> (P ^^ 6) a g"
  by (simp add: numeral_eq_Suc) blast

lemma example_backfill:
  "\<exists>s. (pool_step example_body ^^ 6) (start_backfill 1 [5] (\<lambda>i. 0)) s \<and> bf_joined s"
proof -
  let ?R = "(\<lambda>i. 0) :: nat \<Rightarrow> nat" and ?act = "(\<lambda>x. (Some example_failure, x + 2)) :: nat action"
  let ?s0 = "start_backfill 1 [5] ?R"
  let ?s1 = "?s0\<lparr>tp_queue := [5], bf_todo := [], bf_futures := [5]\<rparr>"
  let ?s2 = "?s1\<lparr>tp_queue := [], tp_work := [Busy 5 [?act]]\<rparr>"
  let ?s3 = "?s2\<lparr>tp_work := [Waiting], bf_receivers := ?R(5 := 2), bf_results := [(5, Some example_failure)]\<rparr>"
  let ?s4 = "?s3\<lparr>bf_futures := [], bf_failure := Some example_failure, tp_stop := True\<rparr>"
  let ?s5 = "?s4\<lparr>tp_work := [Returned]\<rparr>"
  note defs = backfill_defs pool_workers_def pool_add_def pool_take_def set_worker_def example_body_def
  have "pool_step example_body ?s0 ?s1"
    using add_task [where s = ?s0 and i = 5 and ids = "[]" and t = "?s0\<lparr>tp_queue := [5]\<rparr>" and body = example_body]
    by (simp add: defs)
  moreover have "pool_step example_body ?s1 ?s2"
    using take_task [where s = ?s1 and w = 0 and x = "Busy 5 [?act]" and t = "?s1\<lparr>tp_queue := []\<rparr>" and body = example_body]
    by (simp add: defs)
  moreover have "pool_step example_body ?s2 ?s3"
    using task_throws [where s = ?s2 and w = 0 and i = 5 and a = ?act and as = "[]" and e = example_failure and x = 2
        and body = example_body]
    by (simp add: defs)
  moreover have "pool_step example_body ?s3 ?s4"
    using get_throws [where s = ?s3 and i = 5 and ids = "[]" and e = example_failure and body = example_body]
    by (simp add: defs)
  moreover have "pool_step example_body ?s4 ?s5"
    using take_task [where s = ?s4 and w = 0 and x = Returned and t = ?s4 and body = example_body]
    by (simp add: defs)
  moreover have "pool_step example_body ?s5 (?s5\<lparr>bf_joined := True\<rparr>)"
    using joined [where s = ?s5 and body = example_body] by (simp add: defs)
  ultimately have "(pool_step example_body ^^ 6) ?s0 (?s5\<lparr>bf_joined := True\<rparr>)"
    by (rule six_steps)
  moreover have "bf_joined (?s5\<lparr>bf_joined := True\<rparr>)" by simp
  ultimately show ?thesis by blast
qed

theorem backfill_pool_sequential_witness:
  "\<exists>s. (pool_step example_body ^^ 6) (start_backfill 1 [5] (\<lambda>i. 0)) s
    \<and> bf_failure s = Some example_failure \<and> bf_receivers s 5 = 2"
proof -
  obtain s where run: "(pool_step example_body ^^ 6) (start_backfill 1 [5] (\<lambda>i. 0)) s" and "bf_joined s"
    using example_backfill by blast
  with backfill_pool_sequential [OF _ run] have "(bf_failure s, bf_receivers s) = run_sequential example_body [5] (\<lambda>i. 0)"
    by simp
  with run show ?thesis by (auto simp: run_sequential.simps(2) example_body_def)
qed

end
