(* ===== verification/File_Descriptor.thy ===== *)
theory File_Descriptor
  imports Prelude
begin

text \<open>
  Ownership of descriptors (\<open>FileDescriptor\<close> of \<open>src/include/file_descriptor.hpp\<close>): the objects of a
  program with the descriptor each holds, and the descriptors that are open in the kernel. A
  constructor or \<open>reset\<close> gets what a system call returned: a descriptor that was not open, or -1.
  The lemmas show that whatever is constructed, moved, reset and destroyed, \<open>close\<close> is called only on
  descriptors that are open, and that none is open that no object holds.
\<close>

type_synonym object_name = nat

record descriptors =
  fd_objects :: "object_name \<rightharpoonup> int"
  fd_open :: "int set"
  fd_bad_closes :: "int list"

definition no_descriptors :: descriptors where
  "no_descriptors = \<lparr>fd_objects = Map.empty, fd_open = {}, fd_bad_closes = []\<rparr>"

text \<open>\<open>close\<close>; closing what is not open is what must not happen.\<close>

definition close_fd :: "int \<Rightarrow> descriptors \<Rightarrow> descriptors" where
  "close_fd fd s =
     (if fd \<in> fd_open s then s\<lparr>fd_open := fd_open s - {fd}\<rparr> else s\<lparr>fd_bad_closes := fd_bad_closes s @ [fd]\<rparr>)"

text \<open>What a system call returned is open from then on.\<close>

definition opened :: "int \<Rightarrow> descriptors \<Rightarrow> descriptors" where
  "opened fd s = (if 0 \<le> fd then s\<lparr>fd_open := insert fd (fd_open s)\<rparr> else s)"

definition hold :: "object_name \<Rightarrow> int \<Rightarrow> descriptors \<Rightarrow> descriptors" where
  "hold x fd s = s\<lparr>fd_objects := (fd_objects s)(x \<mapsto> fd)\<rparr>"

definition held :: "object_name \<Rightarrow> descriptors \<Rightarrow> int" where
  "held x s = (case fd_objects s x of None \<Rightarrow> -1 | Some fd \<Rightarrow> fd)"

definition reset_fd :: "object_name \<Rightarrow> int \<Rightarrow> descriptors \<Rightarrow> descriptors" where
  "reset_fd x fd s = hold x fd (if 0 \<le> held x s then close_fd (held x s) s else s)"

definition move_construct :: "object_name \<Rightarrow> object_name \<Rightarrow> descriptors \<Rightarrow> descriptors" where
  "move_construct x y s = hold y (-1) (hold x (held y s) s)"

definition move_assign :: "object_name \<Rightarrow> object_name \<Rightarrow> descriptors \<Rightarrow> descriptors" where
  "move_assign x y s = (if x \<noteq> y then hold y (-1) (reset_fd x (held y s) s) else s)"

definition destroy_fd :: "object_name \<Rightarrow> descriptors \<Rightarrow> descriptors" where
  "destroy_fd x s = (if 0 \<le> held x s then close_fd (held x s) s else s)\<lparr>fd_objects := (fd_objects s)(x := None)\<rparr>"

text \<open>What a program does with its objects.\<close>

datatype fd_use =
  Construct object_name int | Reset object_name int | Move_construct object_name object_name
  | Move_assign object_name object_name | Destroy object_name

fun fd_apply :: "fd_use \<Rightarrow> descriptors \<Rightarrow> descriptors" where
  "fd_apply (Construct x fd) s = hold x fd (opened fd s)"
| "fd_apply (Reset x fd) s = reset_fd x fd (opened fd s)"
| "fd_apply (Move_construct x y) s = move_construct x y s"
| "fd_apply (Move_assign x y) s = move_assign x y s"
| "fd_apply (Destroy x) s = destroy_fd x s"

text \<open>The rules of the language and of the kernel: an object is constructed once before it is used,
  and a call returns no descriptor that is open.\<close>

fun fd_allowed :: "fd_use \<Rightarrow> descriptors \<Rightarrow> bool" where
  "fd_allowed (Construct x fd) s \<longleftrightarrow> fd_objects s x = None \<and> fd \<notin> fd_open s"
| "fd_allowed (Reset x fd) s \<longleftrightarrow> fd_objects s x \<noteq> None \<and> fd \<notin> fd_open s"
| "fd_allowed (Move_construct x y) s \<longleftrightarrow> fd_objects s x = None \<and> fd_objects s y \<noteq> None"
| "fd_allowed (Move_assign x y) s \<longleftrightarrow> fd_objects s x \<noteq> None \<and> fd_objects s y \<noteq> None"
| "fd_allowed (Destroy x) s \<longleftrightarrow> fd_objects s x \<noteq> None"

fun fd_run :: "fd_use list \<Rightarrow> descriptors \<Rightarrow> descriptors option" where
  "fd_run [] s = Some s"
| "fd_run (u # us) s = (if fd_allowed u s then fd_run us (fd_apply u s) else None)"

section \<open>Every open descriptor has one owner\<close>

definition owned_once :: "descriptors \<Rightarrow> bool" where
  "owned_once s \<longleftrightarrow> fd_bad_closes s = [] \<and> (\<forall>fd. fd \<in> fd_open s \<longleftrightarrow> 0 \<le> fd \<and> (\<exists>x. fd_objects s x = Some fd)) \<and>
     (\<forall>x y fd. fd_objects s x = Some fd \<longrightarrow> fd_objects s y = Some fd \<longrightarrow> 0 \<le> fd \<longrightarrow> x = y)"

lemma owned_once_objects:
  assumes "owned_once s" and "\<And>g. 0 \<le> g \<Longrightarrow> (\<exists>z. m z = Some g) \<longleftrightarrow> (\<exists>z. fd_objects s z = Some g)"
    and "\<And>y z g. m y = Some g \<Longrightarrow> m z = Some g \<Longrightarrow> 0 \<le> g \<Longrightarrow> y = z"
  shows "owned_once (s\<lparr>fd_objects := m\<rparr>)"
  using assms unfolding owned_once_def by simp metis

text \<open>An object gives up its descriptor.\<close>

definition release :: "object_name \<Rightarrow> descriptors \<Rightarrow> descriptors" where
  "release x s = (if 0 \<le> held x s then close_fd (held x s) s else s)\<lparr>fd_objects := (fd_objects s)(x := None)\<rparr>"

lemma release_owned: "owned_once s \<Longrightarrow> owned_once (release x s)"
proof (cases "0 \<le> held x s")
  case True
  then obtain fd where fd: "fd_objects s x = Some fd" "0 \<le> fd" by (auto simp: held_def split: option.splits)
  assume owned: "owned_once s"
  then have "fd \<in> fd_open s" using fd by (auto simp: owned_once_def)
  then have "release x s = s\<lparr>fd_open := fd_open s - {fd}, fd_objects := (fd_objects s)(x := None)\<rparr>"
    using fd by (simp add: release_def held_def close_fd_def)
  then show ?thesis using owned fd by (auto simp: owned_once_def; metis option.inject)
next
  case False
  assume "owned_once s"
  moreover from False have "fd_objects s x \<noteq> Some g" if "0 \<le> g" for g using that by (auto simp: held_def)
  then have "(\<exists>z. ((fd_objects s)(x := None)) z = Some g) \<longleftrightarrow> (\<exists>z. fd_objects s z = Some g)" if "0 \<le> g" for g
    using that by (metis fun_upd_apply option.distinct(1))
  ultimately have "owned_once (s\<lparr>fd_objects := (fd_objects s)(x := None)\<rparr>)"
    by (intro owned_once_objects) (auto simp: owned_once_def split: if_splits)
  then show ?thesis using False by (simp add: release_def)
qed

lemma release_fields:
  "fd_objects (release x s) = (fd_objects s)(x := None)" "fd_open (release x s) \<subseteq> fd_open s"
  by (auto simp: release_def close_fd_def)

text \<open>An object that holds none gets a new one, or that of another object.\<close>

lemma hold_owned:
  assumes "owned_once s" and "fd_objects s x = None" and "fd \<notin> fd_open s"
  shows "owned_once (hold x fd (opened fd s))"
  using assms by (auto simp: owned_once_def hold_def opened_def; metis option.distinct(1))

lemma move_owned:
  assumes "owned_once s" and "fd_objects s x = None" and "fd_objects s y = Some fd" and "x \<noteq> y"
  shows "owned_once (hold y (-1) (hold x fd s))"
proof -
  have once: "z = y" if "fd_objects s z = Some fd" "0 \<le> fd" for z
    using that assms by (auto simp: owned_once_def)
  have "(\<exists>z. ((fd_objects s)(x := Some fd, y := Some (-1))) z = Some g) \<longleftrightarrow> (\<exists>z. fd_objects s z = Some g)" if "0 \<le> g" for g
  proof (cases "g = fd")
    case True
    with assms show ?thesis by auto
  next
    case False
    then show ?thesis using assms that by (metis fun_upd_apply neg_0_le_iff_le not_one_le_zero option.inject option.distinct(1))
  qed
  then have "owned_once (s\<lparr>fd_objects := (fd_objects s)(x := Some fd, y := Some (-1))\<rparr>)"
    using assms once by (intro owned_once_objects) (auto simp: owned_once_def split: if_splits)
  then show ?thesis by (simp add: hold_def)
qed

lemma reset_fd_release: "reset_fd x fd s = hold x fd (release x s)"
  by (auto simp: reset_fd_def hold_def release_def close_fd_def)

lemma release_opened:
  assumes "owned_once s" and "fd \<notin> fd_open s"
  shows "release x (opened fd s) = opened fd (release x s)"
proof (cases "fd_objects s x")
  case (Some g)
  with assms have "0 \<le> g \<longrightarrow> g \<in> fd_open s \<and> insert fd (fd_open s) - {g} = insert fd (fd_open s - {g})"
    by (auto simp: owned_once_def)
  with Some show ?thesis by (auto simp: release_def opened_def close_fd_def held_def)
qed (auto simp: release_def opened_def held_def)

lemma fd_apply_owned:
  assumes "fd_allowed u s" and "owned_once s"
  shows "owned_once (fd_apply u s)"
proof (cases u)
  case (Construct x fd)
  with assms show ?thesis by (simp add: hold_owned)
next
  case (Reset x fd)
  with assms have "fd \<notin> fd_open (release x s)" using release_fields(2) by auto
  with hold_owned [OF release_owned [OF assms(2)], of x x fd] Reset assms show ?thesis
    by (simp add: reset_fd_release release_opened release_fields)
next
  case (Move_construct x y)
  with assms show ?thesis by (auto simp: move_construct_def held_def intro!: move_owned)
next
  case (Move_assign x y)
  then obtain fd where "fd_objects s y = Some fd" using assms by auto
  with Move_assign assms show ?thesis
    by (auto simp: move_assign_def reset_fd_release held_def release_fields intro!: move_owned release_owned)
next
  case (Destroy x)
  with release_owned [OF assms(2), of x] show ?thesis by (simp add: destroy_fd_def release_def)
qed

text \<open>No descriptor is closed twice, and none is left open when the objects are gone.\<close>

theorem descriptors_closed_once:
  assumes "fd_run us no_descriptors = Some s"
  shows "fd_bad_closes s = [] \<and> (fd_objects s = Map.empty \<longrightarrow> fd_open s = {})"
proof -
  have "owned_once t" if "fd_run vs r = Some t" and "owned_once r" for vs r t
    using that by (induction vs arbitrary: r) (auto split: if_splits intro: fd_apply_owned)
  moreover have "owned_once no_descriptors" by (simp add: owned_once_def no_descriptors_def)
  ultimately have "owned_once s" using assms by blast
  then show ?thesis by (auto simp: owned_once_def)
qed

end
